theory Spec2Isabelle
  imports Complex_Main
begin

section \<open>Tensors and the array primitives the scalers are written with\<close>

text \<open>
  The module \<^verbatim>\<open>nbs/common.scalers.ipynb\<close> is written against an array library. A tensor is
  modelled by its shape and the function from a multi-index to the entry stored there;
  only the entries at indices inside the shape are meaningful. Entries are exact reals:
  rounding and overflow of the machine floats are outside this model, and the properties
  proved of the scalers are the ones that do not depend on them. A value that the source can turn
  into a NaN or an infinity (the NaN written by \<^verbatim>\<open>masked_fill\<close>, the quotient by a zero scale)
  has type \<open>real option\<close>, with \<open>None\<close> for the value that is not a finite number.
  A mask is a tensor of booleans (a 0/1 numeric mask is read as its truth values).

  The exceptions of the source are the values of \<open>error\<close>: \<open>AssertionError\<close> (the assert of
  the constructor), \<open>AttributeError\<close> (reading \<^verbatim>\<open>self.x_shift\<close> before any \<^verbatim>\<open>transform\<close>),
  \<open>IndexError\<close> (an axis out of range, an extremum or median over an empty axis),
  \<open>RuntimeError\<close> (shapes that do not broadcast) and \<open>KeyError\<close> (a dictionary lookup).
\<close>

datatype error = AssertionError | AttributeError | IndexError | RuntimeError | KeyError

datatype 'a tensor = Tensor (shape: "nat list") (elem: "nat list \<Rightarrow> 'a")

definition bindE :: "error + 'a \<Rightarrow> ('a \<Rightarrow> error + 'b) \<Rightarrow> error + 'b" where
  "bindE m f = (case m of Inl e \<Rightarrow> Inl e | Inr v \<Rightarrow> f v)"

definition valid_index :: "nat list \<Rightarrow> nat list \<Rightarrow> bool" where
  "valid_index s i = list_all2 (\<lambda>k n. k < n) i s"

text \<open>Broadcasting aligns two shapes at their last axis; axes agree when they are equal or
  one of them is 1. \<open>bidx s i\<close> is the index into a tensor of shape \<open>s\<close> that the index \<open>i\<close> of
  the broadcast result reads.\<close>

definition pad_shape :: "nat \<Rightarrow> nat list \<Rightarrow> nat list" where
  "pad_shape n s = replicate (n - length s) 1 @ s"

definition broadcast_shapes :: "nat list \<Rightarrow> nat list \<Rightarrow> error + nat list" where
  "broadcast_shapes a b =
     (let n = max (length a) (length b); a' = pad_shape n a; b' = pad_shape n b
      in if list_all2 (\<lambda>p q. p = q \<or> p = 1 \<or> q = 1) a' b'
         then Inr (map2 (\<lambda>p q. if p = 1 then q else p) a' b')
         else Inl RuntimeError)"

definition bidx :: "nat list \<Rightarrow> nat list \<Rightarrow> nat list" where
  "bidx s i = map2 (\<lambda>n k. if n = 1 then 0 else k) s (drop (length i - length s) i)"

definition lift1 :: "('a \<Rightarrow> 'b) \<Rightarrow> 'a tensor \<Rightarrow> 'b tensor" where
  "lift1 f t = Tensor (shape t) (\<lambda>i. f (elem t i))"

definition lift2 :: "('a \<Rightarrow> 'b \<Rightarrow> 'c) \<Rightarrow> 'a tensor \<Rightarrow> 'b tensor \<Rightarrow> error + 'c tensor" where
  "lift2 f a b =
     (case broadcast_shapes (shape a) (shape b) of
        Inl e \<Rightarrow> Inl e
      | Inr s \<Rightarrow> Inr (Tensor s (\<lambda>i. f (elem a (bidx (shape a) i)) (elem b (bidx (shape b) i)))))"

text \<open>An axis argument may be negative (counted from the last axis); a tensor of rank 0 is
  treated as having one axis of size 1, as the array library does.\<close>

definition wrap_dim :: "int \<Rightarrow> nat \<Rightarrow> error + nat" where
  "wrap_dim dm r =
     (let r' = int (max r 1)
      in if - r' \<le> dm \<and> dm < r' then Inr (nat (if dm < 0 then dm + r' else dm))
         else Inl IndexError)"

definition dim_size :: "nat list \<Rightarrow> nat \<Rightarrow> nat" where
  "dim_size s d = (if d < length s then s ! d else 1)"

definition reduced_shape :: "nat list \<Rightarrow> nat \<Rightarrow> bool \<Rightarrow> nat list" where
  "reduced_shape s d keepdim = (if keepdim then s[d := 1] else take d s @ drop (Suc d) s)"

text \<open>\<open>along s d keepdim j k\<close> is the index of the \<open>k\<close>-th entry of the slice that the index
  \<open>j\<close> of the reduced tensor stands for.\<close>

definition along :: "nat list \<Rightarrow> nat \<Rightarrow> bool \<Rightarrow> nat list \<Rightarrow> nat \<Rightarrow> nat list" where
  "along s d keepdim j k =
     (if s = [] then j else if keepdim then j[d := k] else take d j @ k # drop d j)"

text \<open>A reduction along one axis. With \<open>nonempty\<close> set the primitive refuses an axis of
  size 0 (the extremum and the median do, the mean does not).\<close>

definition reduce_dim ::
  "bool \<Rightarrow> ('a list \<Rightarrow> 'b) \<Rightarrow> 'a tensor \<Rightarrow> int \<Rightarrow> bool \<Rightarrow> error + 'b tensor" where
  "reduce_dim nonempty f t dm keepdim =
     (case wrap_dim dm (length (shape t)) of
        Inl e \<Rightarrow> Inl e
      | Inr d \<Rightarrow>
          (let s = shape t; n = dim_size s d
           in if nonempty \<and> n = 0 then Inl IndexError
              else Inr (Tensor (reduced_shape s d keepdim)
                         (\<lambda>j. f (map (\<lambda>k. elem t (along s d keepdim j k)) [0..<n])))))"

definition non_nan :: "real option list \<Rightarrow> real list" where
  "non_nan vs = concat (map (\<lambda>v. case v of None \<Rightarrow> [] | Some r \<Rightarrow> [r]) vs)"

text \<open>The NaN-skipping mean is NaN when nothing is left; the NaN-skipping median is the
  lower of the two middle values when an even number of values is left.\<close>

definition nanmean_list :: "real option list \<Rightarrow> real option" where
  "nanmean_list vs =
     (let rs = non_nan vs in if rs = [] then None else Some (sum_list rs / real (length rs)))"

definition nanmedian_list :: "real option list \<Rightarrow> real option" where
  "nanmedian_list vs =
     (let rs = non_nan vs in if rs = [] then None else Some (sort rs ! ((length rs - 1) div 2)))"

definition nanmean :: "real option tensor \<Rightarrow> int \<Rightarrow> bool \<Rightarrow> error + real option tensor" where
  "nanmean t dm keepdim = reduce_dim False nanmean_list t dm keepdim"

definition nanmedian :: "real option tensor \<Rightarrow> int \<Rightarrow> bool \<Rightarrow> error + real option tensor" where
  "nanmedian t dm keepdim = reduce_dim True nanmedian_list t dm keepdim"

definition nan_to_num :: "real \<Rightarrow> real option \<Rightarrow> real" where
  "nan_to_num nan v = (case v of None \<Rightarrow> nan | Some r \<Rightarrow> r)"

definition masked_fill_nan :: "real tensor \<Rightarrow> bool tensor \<Rightarrow> error + real option tensor" where
  "masked_fill_nan x m = lift2 (\<lambda>v b. if b then None else Some v) x m"

fun max_list :: "real list \<Rightarrow> real" where
  "max_list [] = 0"
| "max_list (v # vs) = fold max vs v"

fun min_list :: "real list \<Rightarrow> real" where
  "min_list [] = 0"
| "min_list (v # vs) = fold min vs v"

definition torch_max :: "real tensor \<Rightarrow> int \<Rightarrow> bool \<Rightarrow> error + real tensor" where
  "torch_max t dm keepdim = reduce_dim True max_list t dm keepdim"

definition torch_min :: "real tensor \<Rightarrow> int \<Rightarrow> bool \<Rightarrow> error + real tensor" where
  "torch_min t dm keepdim = reduce_dim True min_list t dm keepdim"

definition fdiv :: "real \<Rightarrow> real \<Rightarrow> real option" where
  "fdiv a b = (if b = 0 then None else Some (a / b))"

section \<open>Auxiliary functions: \<^verbatim>\<open>masked_median\<close>, \<^verbatim>\<open>masked_mean\<close>\<close>

definition masked_median :: "real tensor \<Rightarrow> bool tensor \<Rightarrow> int \<Rightarrow> bool \<Rightarrow> error + real tensor" where
  "masked_median x msk dm keepdim =
     bindE (masked_fill_nan x (lift1 (\<lambda>m. (of_bool m :: real) < 1) msk)) (\<lambda>x_nan.
     bindE (nanmedian x_nan dm keepdim) (\<lambda>x_median.
     Inr (lift1 (nan_to_num 0) x_median)))"

definition masked_mean :: "real tensor \<Rightarrow> bool tensor \<Rightarrow> int \<Rightarrow> bool \<Rightarrow> error + real tensor" where
  "masked_mean x msk dm keepdim =
     bindE (masked_fill_nan x (lift1 (\<lambda>m. (of_bool m :: real) < 1) msk)) (\<lambda>x_nan.
     bindE (nanmean x_nan dm keepdim) (\<lambda>x_mean.
     Inr (lift1 (nan_to_num 0) x_mean)))"

section \<open>Scalers\<close>

type_synonym scaled = "real option tensor \<times> real tensor \<times> real tensor"

text \<open>The min-max scalers add \<^verbatim>\<open>(mask==0)*(-1e12)\<close> and \<^verbatim>\<open>(mask==0)*1e12\<close> to the input. The
  product of a boolean tensor and a Python float is a tensor of single-precision floats,
  in which \<^verbatim>\<open>1e12\<close> is stored as 999999995904: this is the sentinel that reaches the sum.\<close>

definition minmax_scaler :: "real tensor \<Rightarrow> bool tensor \<Rightarrow> real \<Rightarrow> int \<Rightarrow> error + scaled" where
  "minmax_scaler x msk eps dm =
     (let max_mask = lift1 (\<lambda>m. of_bool ((of_bool m :: real) = 0) * (- 999999995904)) msk;
          min_mask = lift1 (\<lambda>m. of_bool ((of_bool m :: real) = 0) * 999999995904) msk
      in bindE (lift2 (+) x max_mask) (\<lambda>x_hi.
         bindE (torch_max x_hi dm True) (\<lambda>x_max.
         bindE (lift2 (+) x min_mask) (\<lambda>x_lo.
         bindE (torch_min x_lo dm True) (\<lambda>x_min.
         bindE (lift2 (-) x_max x_min) (\<lambda>x_range.
         (let x_range = lift1 (\<lambda>r. if r = 0 then 1 else r) x_range;
              x_range = lift1 (\<lambda>r. r + eps) x_range
          in bindE (lift2 (-) x x_min) (\<lambda>num.
             bindE (lift2 fdiv num x_range) (\<lambda>z.
             Inr (z, x_min, x_range))))))))))"

definition inv_minmax_scaler ::
  "real option tensor \<Rightarrow> real tensor \<Rightarrow> real tensor \<Rightarrow> error + real option tensor" where
  "inv_minmax_scaler z x_min x_range =
     bindE (lift2 (\<lambda>v r. map_option (\<lambda>u. u * r) v) z x_range) (\<lambda>t.
     lift2 (\<lambda>v m. map_option (\<lambda>u. u + m) v) t x_min)"

definition minmax1_scaler :: "real tensor \<Rightarrow> bool tensor \<Rightarrow> real \<Rightarrow> int \<Rightarrow> error + scaled" where
  "minmax1_scaler x msk eps dm =
     (let max_mask = lift1 (\<lambda>m. of_bool ((of_bool m :: real) = 0) * (- 999999995904)) msk;
          min_mask = lift1 (\<lambda>m. of_bool ((of_bool m :: real) = 0) * 999999995904) msk
      in bindE (lift2 (+) x max_mask) (\<lambda>x_hi.
         bindE (torch_max x_hi dm True) (\<lambda>x_max.
         bindE (lift2 (+) x min_mask) (\<lambda>x_lo.
         bindE (torch_min x_lo dm True) (\<lambda>x_min.
         bindE (lift2 (-) x_max x_min) (\<lambda>x_range.
         (let x_range = lift1 (\<lambda>r. if r = 0 then 1 else r) x_range;
              x_range = lift1 (\<lambda>r. r + eps) x_range
          in bindE (lift2 (-) x x_min) (\<lambda>num.
             bindE (lift2 fdiv num x_range) (\<lambda>x1.
             (let z = lift1 (map_option (\<lambda>u. u * 2 - 1)) x1
              in Inr (z, x_min, x_range)))))))))))"

definition inv_minmax1_scaler ::
  "real option tensor \<Rightarrow> real tensor \<Rightarrow> real tensor \<Rightarrow> error + real option tensor" where
  "inv_minmax1_scaler z x_min x_range =
     (let z = lift1 (map_option (\<lambda>u. (u + 1) / 2)) z
      in bindE (lift2 (\<lambda>v r. map_option (\<lambda>u. u * r) v) z x_range) (\<lambda>t.
         lift2 (\<lambda>v m. map_option (\<lambda>u. u + m) v) t x_min))"

definition std_scaler :: "real tensor \<Rightarrow> bool tensor \<Rightarrow> int \<Rightarrow> real \<Rightarrow> error + scaled" where
  "std_scaler x msk dm eps =
     bindE (masked_mean x msk dm True) (\<lambda>x_means.
     bindE (lift2 (-) x x_means) (\<lambda>dev.
     bindE (masked_mean (lift1 (\<lambda>v. v ^ 2) dev) msk dm True) (\<lambda>var.
     (let x_stds = lift1 sqrt var;
          x_stds = lift1 (\<lambda>r. if r = 0 then 1 else r) x_stds;
          x_stds = lift1 (\<lambda>r. r + eps) x_stds
      in bindE (lift2 (-) x x_means) (\<lambda>num.
         bindE (lift2 fdiv num x_stds) (\<lambda>z.
         Inr (z, x_means, x_stds)))))))"

definition inv_std_scaler ::
  "real option tensor \<Rightarrow> real tensor \<Rightarrow> real tensor \<Rightarrow> error + real option tensor" where
  "inv_std_scaler z x_mean x_std =
     bindE (lift2 (\<lambda>v r. map_option (\<lambda>u. u * r) v) z x_std) (\<lambda>t.
     lift2 (\<lambda>v m. map_option (\<lambda>u. u + m) v) t x_mean)"

definition robust_scaler :: "real tensor \<Rightarrow> bool tensor \<Rightarrow> int \<Rightarrow> real \<Rightarrow> error + scaled" where
  "robust_scaler x msk dm eps =
     bindE (masked_median x msk dm True) (\<lambda>x_median.
     bindE (lift2 (-) x x_median) (\<lambda>dev.
     bindE (masked_median (lift1 abs dev) msk dm True) (\<lambda>x_mad.
     bindE (masked_mean x msk dm True) (\<lambda>x_means.
     bindE (lift2 (-) x x_means) (\<lambda>devm.
     bindE (masked_mean (lift1 (\<lambda>v. v ^ 2) devm) msk dm True) (\<lambda>var.
     (let x_stds = lift1 sqrt var;
          x_mad_aux = lift1 (\<lambda>r. r * 0.6744897501960817) x_stds
      in bindE (lift2 (*) x_mad (lift1 (\<lambda>r. of_bool (r > 0)) x_mad)) (\<lambda>kept.
         bindE (lift2 (*) x_mad_aux (lift1 (\<lambda>r. of_bool (r = 0)) x_mad)) (\<lambda>aux.
         bindE (lift2 (+) kept aux) (\<lambda>x_mad.
         (let x_mad = lift1 (\<lambda>r. if r = 0 then 1 else r) x_mad;
              x_mad = lift1 (\<lambda>r. r + eps) x_mad
          in bindE (lift2 (-) x x_median) (\<lambda>num.
             bindE (lift2 fdiv num x_mad) (\<lambda>z.
             Inr (z, x_median, x_mad))))))))))))))"

definition inv_robust_scaler ::
  "real option tensor \<Rightarrow> real tensor \<Rightarrow> real tensor \<Rightarrow> error + real option tensor" where
  "inv_robust_scaler z x_median x_mad =
     bindE (lift2 (\<lambda>v r. map_option (\<lambda>u. u * r) v) z x_mad) (\<lambda>t.
     lift2 (\<lambda>v m. map_option (\<lambda>u. u + m) v) t x_median)"

definition invariant_scaler :: "real tensor \<Rightarrow> bool tensor \<Rightarrow> int \<Rightarrow> real \<Rightarrow> error + scaled" where
  "invariant_scaler x msk dm eps =
     bindE (masked_median x msk dm True) (\<lambda>x_median.
     bindE (lift2 (-) x x_median) (\<lambda>dev.
     bindE (masked_median (lift1 abs dev) msk dm True) (\<lambda>x_mad.
     bindE (masked_mean x msk dm True) (\<lambda>x_means.
     bindE (lift2 (-) x x_means) (\<lambda>devm.
     bindE (masked_mean (lift1 (\<lambda>v. v ^ 2) devm) msk dm True) (\<lambda>var.
     (let x_stds = lift1 sqrt var;
          x_mad_aux = lift1 (\<lambda>r. r * 0.6744897501960817) x_stds
      in bindE (lift2 (*) x_mad (lift1 (\<lambda>r. of_bool (r > 0)) x_mad)) (\<lambda>kept.
         bindE (lift2 (*) x_mad_aux (lift1 (\<lambda>r. of_bool (r = 0)) x_mad)) (\<lambda>aux.
         bindE (lift2 (+) kept aux) (\<lambda>x_mad.
         (let x_mad = lift1 (\<lambda>r. if r = 0 then 1 else r) x_mad;
              x_mad = lift1 (\<lambda>r. r + eps) x_mad
          in bindE (lift2 (-) x x_median) (\<lambda>num.
             bindE (lift2 fdiv num x_mad) (\<lambda>q.
             (let z = lift1 (map_option arsinh) q
              in Inr (z, x_median, x_mad)))))))))))))))"

definition inv_invariant_scaler ::
  "real option tensor \<Rightarrow> real tensor \<Rightarrow> real tensor \<Rightarrow> error + real option tensor" where
  "inv_invariant_scaler z x_median x_mad =
     bindE (lift2 (\<lambda>v r. map_option (\<lambda>u. u * r) v) (lift1 (map_option sinh) z) x_mad) (\<lambda>t.
     lift2 (\<lambda>v m. map_option (\<lambda>u. u + m) v) t x_median)"

text \<open>\<^verbatim>\<open>shape[dim] = 1\<close> on a Python list: the index may be negative, and is refused outside
  \<open>[-rank, rank)\<close>.\<close>

definition list_set_item :: "nat list \<Rightarrow> int \<Rightarrow> nat \<Rightarrow> error + nat list" where
  "list_set_item s dm v =
     (let r = int (length s)
      in if - r \<le> dm \<and> dm < r then Inr (s[nat (if dm < 0 then dm + r else dm) := v])
         else Inl IndexError)"

definition identity_scaler :: "real tensor \<Rightarrow> bool tensor \<Rightarrow> int \<Rightarrow> real \<Rightarrow> error + scaled" where
  "identity_scaler x msk dm eps =
     bindE (list_set_item (shape x) dm 1) (\<lambda>shp.
     (let x_shift = Tensor shp (\<lambda>i. 0);
          x_scale = Tensor shp (\<lambda>i. 1)
      in Inr (lift1 Some x, x_shift, x_scale)))"

definition inv_identity_scaler ::
  "real option tensor \<Rightarrow> real tensor \<Rightarrow> real tensor \<Rightarrow> error + real option tensor" where
  "inv_identity_scaler z x_shift x_scale = Inr z"


section \<open>The \<^verbatim>\<open>TemporalNorm\<close> module\<close>

text \<open>The fields \<open>tn_scaler\<close>, \<open>tn_inverse_scaler\<close>, \<open>tn_scaler_type\<close>, \<open>tn_dim\<close> and \<open>tn_eps\<close> are
  the attributes the constructor sets; \<open>tn_x_shift\<close> and \<open>tn_x_scale\<close> are the attributes
  \<^verbatim>\<open>self.x_shift\<close> and \<^verbatim>\<open>self.x_scale\<close>, which exist only once \<^verbatim>\<open>transform\<close> has set them
  (\<open>None\<close> before). The scalers are called by keyword, so the different parameter order of
  the min-max scalers is harmless.\<close>

type_synonym scaler_fn = "real tensor \<Rightarrow> bool tensor \<Rightarrow> int \<Rightarrow> real \<Rightarrow> error + scaled"

type_synonym inverse_fn =
  "real option tensor \<Rightarrow> real tensor \<Rightarrow> real tensor \<Rightarrow> error + real option tensor"

record temporal_norm =
  tn_scaler :: scaler_fn
  tn_inverse_scaler :: inverse_fn
  tn_scaler_type :: "string option"
  tn_dim :: int
  tn_eps :: real
  tn_x_shift :: "real tensor option"
  tn_x_scale :: "real tensor option"

definition scalers :: "(string option \<times> scaler_fn) list" where
  "scalers =
     [(None, identity_scaler),
      (Some ''identity'', identity_scaler),
      (Some ''standard'', std_scaler),
      (Some ''robust'', robust_scaler),
      (Some ''minmax'', \<lambda>x msk dm eps. minmax_scaler x msk eps dm),
      (Some ''minmax1'', \<lambda>x msk dm eps. minmax1_scaler x msk eps dm),
      (Some ''invariant'', invariant_scaler)]"

definition inverse_scalers :: "(string option \<times> inverse_fn) list" where
  "inverse_scalers =
     [(None, inv_identity_scaler),
      (Some ''identity'', inv_identity_scaler),
      (Some ''standard'', inv_std_scaler),
      (Some ''robust'', inv_robust_scaler),
      (Some ''minmax'', inv_minmax_scaler),
      (Some ''minmax1'', inv_minmax1_scaler),
      (Some ''invariant'', inv_invariant_scaler)]"

definition TemporalNorm :: "string option \<Rightarrow> int \<Rightarrow> real \<Rightarrow> error + temporal_norm" where
  "TemporalNorm scaler_type dm eps =
     (case map_of scalers scaler_type of
        None \<Rightarrow> Inl AssertionError
      | Some f \<Rightarrow>
          (case map_of inverse_scalers scaler_type of
             None \<Rightarrow> Inl KeyError
           | Some g \<Rightarrow>
               Inr \<lparr>tn_scaler = f, tn_inverse_scaler = g, tn_scaler_type = scaler_type,
                    tn_dim = dm, tn_eps = eps, tn_x_shift = None, tn_x_scale = None\<rparr>))"

definition transform ::
  "temporal_norm \<Rightarrow> real tensor \<Rightarrow> bool tensor \<Rightarrow> error + real option tensor \<times> temporal_norm" where
  "transform self x msk =
     bindE (tn_scaler self x msk (tn_dim self) (tn_eps self)) (\<lambda>(z, x_shift, x_scale).
     Inr (z, self\<lparr>tn_x_shift := Some x_shift, tn_x_scale := Some x_scale\<rparr>))"

definition getattr :: "'a option \<Rightarrow> error + 'a" where
  "getattr a = (case a of None \<Rightarrow> Inl AttributeError | Some v \<Rightarrow> Inr v)"

definition inverse_transform ::
  "temporal_norm \<Rightarrow> real option tensor \<Rightarrow> real tensor option \<Rightarrow> real tensor option \<Rightarrow>
     error + real option tensor" where
  "inverse_transform self z x_shift x_scale =
     bindE (case x_shift of None \<Rightarrow> getattr (tn_x_shift self) | Some v \<Rightarrow> Inr v) (\<lambda>x_shift.
     bindE (case x_scale of None \<Rightarrow> getattr (tn_x_scale self) | Some v \<Rightarrow> Inr v) (\<lambda>x_scale.
     tn_inverse_scaler self z x_shift x_scale))"

section \<open>Notions used to state the properties\<close>

text \<open>\<open>is_tensor t s g\<close>: the tensor \<open>t\<close> has shape \<open>s\<close> and holds \<open>g i\<close> at every index \<open>i\<close> of
  that shape. \<open>returns m s g\<close>: the computation \<open>m\<close> raises nothing and its result is such a
  tensor.\<close>

definition is_tensor :: "'a tensor \<Rightarrow> nat list \<Rightarrow> (nat list \<Rightarrow> 'a) \<Rightarrow> bool" where
  "is_tensor t s g = (shape t = s \<and> (\<forall>i. valid_index s i \<longrightarrow> elem t i = g i))"

definition returns :: "error + 'a tensor \<Rightarrow> nat list \<Rightarrow> (nat list \<Rightarrow> 'a) \<Rightarrow> bool" where
  "returns m s g = (\<exists>t. m = Inr t \<and> is_tensor t s g)"

text \<open>\<open>axis dm s d\<close>: the axis argument \<open>dm\<close> names the axis \<open>d\<close> of a tensor of shape \<open>s\<close>
  (of rank at least 1).\<close>

definition axis :: "int \<Rightarrow> nat list \<Rightarrow> nat \<Rightarrow> bool" where
  "axis dm s d = (wrap_dim dm (length s) = Inr d \<and> d < length s)"

text \<open>\<open>expand s t\<close> is \<open>t\<close> broadcast to the shape \<open>s\<close>. \<open>slice g d n i\<close> lists the \<open>n\<close> values of
  \<open>g\<close> along the axis \<open>d\<close> through the position \<open>i\<close>.\<close>

definition expand :: "nat list \<Rightarrow> 'a tensor \<Rightarrow> nat list \<Rightarrow> 'a" where
  "expand s t = (\<lambda>i. elem t (bidx (shape t) i))"

definition slice :: "(nat list \<Rightarrow> 'a) \<Rightarrow> nat \<Rightarrow> nat \<Rightarrow> nat list \<Rightarrow> 'a list" where
  "slice g d n i = map (\<lambda>k. g (i[d := k])) [0..<n]"

text \<open>The values of a slice at the valid positions of the mask, in order.\<close>

definition valid_vals :: "real list \<Rightarrow> bool list \<Rightarrow> real list" where
  "valid_vals xs ms = map fst (filter snd (zip xs ms))"

definition mean_list :: "real list \<Rightarrow> real" where
  "mean_list vs = (if vs = [] then 0 else sum_list vs / real (length vs))"

definition lower_median :: "real list \<Rightarrow> real" where
  "lower_median vs = (if vs = [] then 0 else sort vs ! ((length vs - 1) div 2))"

text \<open>The statistics of the slice through a position \<open>i\<close>, for entries \<open>g\<close> and a mask \<open>M\<close>
  given as functions of the index: the mean and the lower median of the valid values, the
  standard deviation (root of the mean squared deviation from the mean), and the median
  and the mean of the absolute deviations from the median.\<close>

definition masked_mean_at ::
  "(nat list \<Rightarrow> real) \<Rightarrow> (nat list \<Rightarrow> bool) \<Rightarrow> nat \<Rightarrow> nat \<Rightarrow> nat list \<Rightarrow> real" where
  "masked_mean_at g M d n i = mean_list (valid_vals (slice g d n i) (slice M d n i))"

definition masked_median_at ::
  "(nat list \<Rightarrow> real) \<Rightarrow> (nat list \<Rightarrow> bool) \<Rightarrow> nat \<Rightarrow> nat \<Rightarrow> nat list \<Rightarrow> real" where
  "masked_median_at g M d n i = lower_median (valid_vals (slice g d n i) (slice M d n i))"

definition masked_std_at ::
  "(nat list \<Rightarrow> real) \<Rightarrow> (nat list \<Rightarrow> bool) \<Rightarrow> nat \<Rightarrow> nat \<Rightarrow> nat list \<Rightarrow> real" where
  "masked_std_at g M d n i =
     sqrt (masked_mean_at (\<lambda>i'. (g i' - masked_mean_at g M d n i') ^ 2) M d n i)"

definition median_abs_dev_at ::
  "(nat list \<Rightarrow> real) \<Rightarrow> (nat list \<Rightarrow> bool) \<Rightarrow> nat \<Rightarrow> nat \<Rightarrow> nat list \<Rightarrow> real" where
  "median_abs_dev_at g M d n i =
     masked_median_at (\<lambda>i'. \<bar>g i' - masked_median_at g M d n i'\<bar>) M d n i"

definition mean_abs_dev_at ::
  "(nat list \<Rightarrow> real) \<Rightarrow> (nat list \<Rightarrow> bool) \<Rightarrow> nat \<Rightarrow> nat \<Rightarrow> nat list \<Rightarrow> real" where
  "mean_abs_dev_at g M d n i =
     masked_mean_at (\<lambda>i'. \<bar>g i' - masked_median_at g M d n i'\<bar>) M d n i"

text \<open>The scale that each scaler returns, from the raw statistic: a zero is replaced by 1
  and \<open>eps\<close> is added; the robust and the invariant scaler first replace a zero \<open>x_mad\<close> by
  the standard deviation times 0.6744897501960817.\<close>

definition guard_scale :: "real \<Rightarrow> real \<Rightarrow> real" where
  "guard_scale r eps = (if r = 0 then 1 else r) + eps"

definition mad_or_std :: "real \<Rightarrow> real \<Rightarrow> real" where
  "mad_or_std mad sd = mad * of_bool (mad > 0) + sd * 0.6744897501960817 * of_bool (mad = 0)"

definition shifted_max_at ::
  "(nat list \<Rightarrow> real) \<Rightarrow> (nat list \<Rightarrow> bool) \<Rightarrow> nat \<Rightarrow> nat \<Rightarrow> nat list \<Rightarrow> real" where
  "shifted_max_at g M d n i =
     max_list (slice (\<lambda>i'. g i' + of_bool (\<not> M i') * (- 999999995904)) d n i)"

definition shifted_min_at ::
  "(nat list \<Rightarrow> real) \<Rightarrow> (nat list \<Rightarrow> bool) \<Rightarrow> nat \<Rightarrow> nat \<Rightarrow> nat list \<Rightarrow> real" where
  "shifted_min_at g M d n i =
     min_list (slice (\<lambda>i'. g i' + of_bool (\<not> M i') * 999999995904) d n i)"

text \<open>The statistics of a slice as the min-max scalers and the robust scalers return them,
  and the test that the slice through a position holds a valid entry.\<close>

definition mad_scale_at ::
  "(nat list \<Rightarrow> real) \<Rightarrow> (nat list \<Rightarrow> bool) \<Rightarrow> nat \<Rightarrow> nat \<Rightarrow> real \<Rightarrow> nat list \<Rightarrow> real" where
  "mad_scale_at g M d n eps i =
     guard_scale (mad_or_std (median_abs_dev_at g M d n i) (masked_std_at g M d n i)) eps"

definition range_scale_at ::
  "(nat list \<Rightarrow> real) \<Rightarrow> (nat list \<Rightarrow> bool) \<Rightarrow> nat \<Rightarrow> nat \<Rightarrow> real \<Rightarrow> nat list \<Rightarrow> real" where
  "range_scale_at g M d n eps i =
     guard_scale (shifted_max_at g M d n i - shifted_min_at g M d n i) eps"

definition has_valid :: "nat list \<Rightarrow> bool tensor \<Rightarrow> nat \<Rightarrow> nat list \<Rightarrow> bool" where
  "has_valid s msk d i = list_ex (\<lambda>k. expand s msk (i[d := k])) [0..<s ! d]"

text \<open>A tensor of rank 1 from the list of its entries.\<close>

definition vec :: "'a list \<Rightarrow> 'a tensor" where
  "vec xs = Tensor [length xs] (\<lambda>i. xs ! hd i)"

text \<open>Projections of a scaler's result at an index: the scaled value, the shift and the
  scale there, or the error the scaler raised.\<close>

definition scaled_at :: "error + scaled \<Rightarrow> nat list \<Rightarrow> error + real option" where
  "scaled_at r i = (case r of Inl e \<Rightarrow> Inl e | Inr (z, sh, sc) \<Rightarrow> Inr (elem z i))"

definition shift_at :: "error + scaled \<Rightarrow> nat list \<Rightarrow> error + real" where
  "shift_at r i = (case r of Inl e \<Rightarrow> Inl e | Inr (z, sh, sc) \<Rightarrow> Inr (elem sh i))"

definition scale_at :: "error + scaled \<Rightarrow> nat list \<Rightarrow> error + real" where
  "scale_at r i = (case r of Inl e \<Rightarrow> Inl e | Inr (z, sh, sc) \<Rightarrow> Inr (elem sc i))"

text \<open>All values of a list are equal.\<close>

definition all_equal :: "real list \<Rightarrow> bool" where
  "all_equal vs = (case vs of [] \<Rightarrow> True | v # ws \<Rightarrow> list_all (\<lambda>w. w = v) ws)"

text \<open>The valid values that a reduction along the axis \<open>d\<close> sees at the index \<open>j\<close> of
  its result (with or without the reduced axis kept).\<close>

definition reduced_vals :: "real tensor \<Rightarrow> bool tensor \<Rightarrow> nat \<Rightarrow> bool \<Rightarrow> nat list \<Rightarrow> real list" where
  "reduced_vals x msk d keepdim j =
     valid_vals (map (\<lambda>k. elem x (along (shape x) d keepdim j k)) [0..<shape x ! d])
       (map (\<lambda>k. expand (shape x) msk (along (shape x) d keepdim j k)) [0..<shape x ! d])"

text \<open>A tensor of rank 2 from the list of its rows.\<close>

definition mat :: "'a list list \<Rightarrow> 'a tensor" where
  "mat rows = Tensor [length rows, length (hd rows)] (\<lambda>i. rows ! (i ! 0) ! (i ! 1))"

text \<open>The sentinels do their work on the slice through \<open>i\<close>: every invalid entry, lowered
  by the sentinel, is at most some valid entry of the slice and, raised by it, at least some
  valid entry.\<close>

definition sentinel_safe ::
  "(nat list \<Rightarrow> real) \<Rightarrow> (nat list \<Rightarrow> bool) \<Rightarrow> nat \<Rightarrow> nat \<Rightarrow> nat list \<Rightarrow> bool" where
  "sentinel_safe g M d n i =
     list_all (\<lambda>k. M (i[d := k]) \<or>
         (list_ex (\<lambda>k'. M (i[d := k']) \<and> g (i[d := k]) - 999999995904 \<le> g (i[d := k'])) [0..<n] \<and>
          list_ex (\<lambda>k'. M (i[d := k']) \<and> g (i[d := k']) \<le> g (i[d := k]) + 999999995904) [0..<n]))
       [0..<n]"

text \<open>Two inputs agree at the valid positions of the slice through \<open>i\<close>.\<close>

definition agree_on_valid ::
  "(nat list \<Rightarrow> real) \<Rightarrow> (nat list \<Rightarrow> real) \<Rightarrow> (nat list \<Rightarrow> bool) \<Rightarrow> nat \<Rightarrow> nat \<Rightarrow> nat list \<Rightarrow> bool" where
  "agree_on_valid g g' M d n i =
     list_all (\<lambda>k. M (i[d := k]) \<longrightarrow> g (i[d := k]) = g' (i[d := k])) [0..<n]"

text \<open>Two results of a scaler are the same at the position \<open>i\<close>: both are returned, the
  statistics have the same shapes and the same values for the slice through \<open>i\<close>, and, when
  \<open>i\<close> is a valid position, the scaled values at \<open>i\<close> are the same.\<close>

definition same_result_at ::
  "error + scaled \<Rightarrow> error + scaled \<Rightarrow> nat \<Rightarrow> bool \<Rightarrow> nat list \<Rightarrow> bool" where
  "same_result_at r r' d valid i =
     (case (r, r') of
        (Inr (z, sh, sc), Inr (z', sh', sc')) \<Rightarrow>
          shape sh' = shape sh \<and> shape sc' = shape sc \<and>
          elem sh' (i[d := 0]) = elem sh (i[d := 0]) \<and>
          elem sc' (i[d := 0]) = elem sc (i[d := 0]) \<and>
          (valid \<longrightarrow> elem z' i = elem z i)
      | _ \<Rightarrow> False)"

section \<open>Indices, broadcasting and the primitives\<close>

lemma bindE_Inr [simp]: "bindE (Inr v) f = f v"
  by (simp add: bindE_def)

lemma bindE_Inl [simp]: "bindE (Inl e) f = Inl e"
  by (simp add: bindE_def)

lemma valid_index_length: "valid_index s i \<Longrightarrow> length i = length s"
  by (simp add: valid_index_def list_all2_lengthD)

lemma valid_index_nth: "valid_index s i \<Longrightarrow> k < length s \<Longrightarrow> i ! k < s ! k"
  by (simp add: valid_index_def list_all2_conv_all_nth)

lemma valid_indexI:
  "length i = length s \<Longrightarrow> (\<And>k. k < length s \<Longrightarrow> i ! k < s ! k) \<Longrightarrow> valid_index s i"
  by (simp add: valid_index_def list_all2_conv_all_nth)

lemma bidx_same: "valid_index s i \<Longrightarrow> bidx s i = i"
proof -
  assume v: "valid_index s i"
  have len: "length i = length s" by (rule valid_index_length [OF v])
  show ?thesis
  proof (rule nth_equalityI)
    show "length (bidx s i) = length i" by (simp add: bidx_def len)
  next
    fix k assume "k < length (bidx s i)"
    then have k: "k < length s" by (simp add: bidx_def len)
    from valid_index_nth [OF v k] show "bidx s i ! k = i ! k"
      using k by (auto simp: bidx_def len)
  qed
qed

lemma bidx_keep:
  assumes v: "valid_index s i" and d: "d < length s"
  shows "bidx (s[d := 1]) i = i[d := 0]"
proof -
  have len: "length i = length s" by (rule valid_index_length [OF v])
  show ?thesis
  proof (rule nth_equalityI)
    show "length (bidx (s[d := 1]) i) = length (i[d := 0])" by (simp add: bidx_def len)
  next
    fix k assume "k < length (bidx (s[d := 1]) i)"
    then have k: "k < length s" by (simp add: bidx_def len)
    from valid_index_nth [OF v k] show "bidx (s[d := 1]) i ! k = i[d := 0] ! k"
      using k d by (auto simp: bidx_def len nth_list_update)
  qed
qed

lemma broadcast_same [simp]: "broadcast_shapes s s = Inr s"
  by (simp add: broadcast_shapes_def pad_shape_def list_all2_conv_all_nth map2_map_map
      map_nth flip: map_map) (rule nth_equalityI; simp)

lemma broadcast_keep: "d < length s \<Longrightarrow> broadcast_shapes s (s[d := 1]) = Inr s"
  apply (simp add: broadcast_shapes_def pad_shape_def list_all2_conv_all_nth nth_list_update)
  apply (rule nth_equalityI; simp add: nth_list_update)
  done

lemma valid_along_keep:
  assumes "valid_index (s[d := 1]) j" "d < length s" "k < s ! d"
  shows "valid_index s (j[d := k])"
proof (rule valid_indexI)
  show "length (j[d := k]) = length s" using valid_index_length [OF assms(1)] by simp
next
  fix m assume m: "m < length s"
  show "j[d := k] ! m < s ! m"
    using valid_index_nth [OF assms(1), of m] valid_index_length [OF assms(1)] m assms(2,3)
    by (cases "m = d") (auto simp: nth_list_update)
qed

lemma valid_keep:
  assumes "valid_index s i" "d < length s"
  shows "valid_index (s[d := 1]) (i[d := 0])"
proof (rule valid_indexI)
  show "length (i[d := 0]) = length (s[d := 1])" using valid_index_length [OF assms(1)] by simp
next
  fix m assume m: "m < length (s[d := 1])"
  show "i[d := 0] ! m < s[d := 1] ! m"
    using valid_index_nth [OF assms(1), of m] valid_index_length [OF assms(1)] m assms(2)
    by (cases "m = d") (auto simp: nth_list_update)
qed

lemma valid_index_pos: "valid_index s i \<Longrightarrow> d < length s \<Longrightarrow> 0 < s ! d"
  using valid_index_nth [of s i d] by simp

subsection \<open>Tensors described at the indices of their shape\<close>

lemma is_tensorI:
  "shape t = s \<Longrightarrow> (\<And>i. valid_index s i \<Longrightarrow> elem t i = g i) \<Longrightarrow> is_tensor t s g"
  by (simp add: is_tensor_def)

lemma is_tensor_shape: "is_tensor t s g \<Longrightarrow> shape t = s"
  by (simp add: is_tensor_def)

lemma is_tensor_elem: "is_tensor t s g \<Longrightarrow> valid_index s i \<Longrightarrow> elem t i = g i"
  by (simp add: is_tensor_def)

lemma is_tensor_self: "is_tensor t (shape t) (elem t)"
  by (simp add: is_tensor_def)

lemma is_tensor_cong:
  "is_tensor t s g \<Longrightarrow> (\<And>i. valid_index s i \<Longrightarrow> g i = h i) \<Longrightarrow> is_tensor t s h"
  by (simp add: is_tensor_def)

lemma returnsE:
  assumes "returns m s g"
  obtains t where "m = Inr t" "is_tensor t s g"
  using assms by (auto simp: returns_def)

lemma returnsI: "m = Inr t \<Longrightarrow> is_tensor t s g \<Longrightarrow> returns m s g"
  by (auto simp: returns_def)

lemma returns_cong:
  "returns m s g \<Longrightarrow> (\<And>i. valid_index s i \<Longrightarrow> g i = h i) \<Longrightarrow> returns m s h"
  by (auto simp: returns_def intro: is_tensor_cong)

lemma is_tensor_lift1: "is_tensor t s g \<Longrightarrow> is_tensor (lift1 f t) s (\<lambda>i. f (g i))"
  by (simp add: is_tensor_def lift1_def)

lemma returns_lift2_bc:
  assumes a: "is_tensor a s g" and bc: "broadcast_shapes s (shape b) = Inr s"
  shows "returns (lift2 f a b) s (\<lambda>i. f (g i) (expand s b i))"
proof -
  have sa: "shape a = s" by (rule is_tensor_shape [OF a])
  show ?thesis
    unfolding returns_def lift2_def sa bc
    by (auto simp: is_tensor_def bidx_same expand_def is_tensor_elem [OF a])
qed

lemma returns_lift2_same:
  assumes a: "is_tensor a s g" and b: "is_tensor b s h"
  shows "returns (lift2 f a b) s (\<lambda>i. f (g i) (h i))"
proof -
  have sb: "shape b = s" by (rule is_tensor_shape [OF b])
  have "returns (lift2 f a b) s (\<lambda>i. f (g i) (expand s b i))"
    by (rule returns_lift2_bc [OF a]) (simp add: sb)
  then show ?thesis
    by (rule returns_cong) (simp add: expand_def sb bidx_same is_tensor_elem [OF b])
qed

lemma returns_lift2_keep:
  assumes a: "is_tensor a s g" and b: "is_tensor b (s[d := 1]) h" and d: "d < length s"
  shows "returns (lift2 f a b) s (\<lambda>i. f (g i) (h (i[d := 0])))"
proof -
  have sb: "shape b = s[d := 1]" by (rule is_tensor_shape [OF b])
  have "returns (lift2 f a b) s (\<lambda>i. f (g i) (expand s b i))"
    using broadcast_keep [OF d] by (intro returns_lift2_bc [OF a]) (simp add: sb)
  then show ?thesis
    by (rule returns_cong)
      (use d in \<open>simp only: expand_def sb bidx_keep is_tensor_elem [OF b] valid_keep\<close>)
qed

lemma wrap_dim_axis: "axis dm s d \<Longrightarrow> wrap_dim dm (length s) = Inr d"
  by (simp add: axis_def)

lemma axis_less: "axis dm s d \<Longrightarrow> d < length s"
  by (simp add: axis_def)

lemma slice_update [simp]: "slice g d n (i[d := k]) = slice g d n i"
  by (simp add: slice_def)

lemma length_slice [simp]: "length (slice g d n i) = n"
  by (simp add: slice_def)

lemma nth_slice [simp]: "k < n \<Longrightarrow> slice g d n i ! k = g (i[d := k])"
  by (simp add: slice_def)

lemma returns_reduce_keep:
  assumes t: "is_tensor t s g" and ax: "axis dm s d" and ne: "nonempty \<Longrightarrow> 0 < s ! d"
  shows "returns (reduce_dim nonempty f t dm True) (s[d := 1]) (\<lambda>j. f (slice g d (s ! d) j))"
proof -
  have st: "shape t = s" by (rule is_tensor_shape [OF t])
  have d: "d < length s" by (rule axis_less [OF ax])
  then have s_ne: "s \<noteq> []" by auto
  have "reduce_dim nonempty f t dm True =
      Inr (Tensor (s[d := 1]) (\<lambda>j. f (map (\<lambda>k. elem t (j[d := k])) [0..<s ! d])))"
    using ne d s_ne
    by (auto simp: reduce_dim_def st wrap_dim_axis [OF ax] dim_size_def reduced_shape_def
        along_def Let_def)
  moreover have "is_tensor (Tensor (s[d := 1]) (\<lambda>j. f (map (\<lambda>k. elem t (j[d := k])) [0..<s ! d])))
      (s[d := 1]) (\<lambda>j. f (slice g d (s ! d) j))"
  proof (rule is_tensorI)
    fix j assume j: "valid_index (s[d := 1]) j"
    have "map (\<lambda>k. elem t (j[d := k])) [0..<s ! d] = slice g d (s ! d) j"
      unfolding slice_def
      by (rule map_cong [OF refl]) (simp add: is_tensor_elem [OF t] valid_along_keep [OF j d])
    then show "elem (Tensor (s[d := 1]) (\<lambda>j. f (map (\<lambda>k. elem t (j[d := k])) [0..<s ! d]))) j =
        f (slice g d (s ! d) j)" by simp
  qed simp
  ultimately show ?thesis by (rule returnsI)
qed

subsection \<open>The masked mean and median, with the axis kept\<close>

lemma non_nan_fill:
  "non_nan (map (\<lambda>k. if b k then Some (v k) else None) ks) = valid_vals (map v ks) (map b ks)"
  by (induction ks) (auto simp: non_nan_def valid_vals_def)

lemma nanmean_fill:
  "nan_to_num 0 (nanmean_list (map (\<lambda>k. if b k then Some (v k) else None) ks)) =
     mean_list (valid_vals (map v ks) (map b ks))"
  by (simp add: nanmean_list_def nan_to_num_def mean_list_def non_nan_fill Let_def)

lemma nanmedian_fill:
  "nan_to_num 0 (nanmedian_list (map (\<lambda>k. if b k then Some (v k) else None) ks)) =
     lower_median (valid_vals (map v ks) (map b ks))"
  by (simp add: nanmedian_list_def nan_to_num_def lower_median_def non_nan_fill Let_def)

lemma shape_lift1 [simp]: "shape (lift1 f t) = shape t"
  by (simp add: lift1_def)

lemma expand_lift1 [simp]: "expand s (lift1 f t) i = f (expand s t i)"
  by (simp add: expand_def lift1_def)

lemma returns_masked_fill:
  assumes x: "is_tensor x s g" and bc: "broadcast_shapes s (shape msk) = Inr s"
  shows "returns (masked_fill_nan x (lift1 (\<lambda>m. (of_bool m :: real) < 1) msk)) s
           (\<lambda>i. if expand s msk i then Some (g i) else None)"
proof -
  have "returns (masked_fill_nan x (lift1 (\<lambda>m. (of_bool m :: real) < 1) msk)) s
      (\<lambda>i. if expand s (lift1 (\<lambda>m. (of_bool m :: real) < 1) msk) i then None else Some (g i))"
    unfolding masked_fill_nan_def by (rule returns_lift2_bc [OF x]) (simp add: bc)
  then show ?thesis by (rule returns_cong) simp
qed

lemma returns_masked_mean:
  assumes x: "is_tensor x s g" and bc: "broadcast_shapes s (shape msk) = Inr s"
    and ax: "axis dm s d"
  shows "returns (masked_mean x msk dm True) (s[d := 1])
           (masked_mean_at g (expand s msk) d (s ! d))"
proof -
  obtain xn where xn: "masked_fill_nan x (lift1 (\<lambda>m. (of_bool m :: real) < 1) msk) = Inr xn"
    and xn_t: "is_tensor xn s (\<lambda>i. if expand s msk i then Some (g i) else None)"
    using returns_masked_fill [OF x bc] by (rule returnsE)
  obtain xm where xm: "nanmean xn dm True = Inr xm"
    and xm_t: "is_tensor xm (s[d := 1])
       (\<lambda>j. nanmean_list (slice (\<lambda>i. if expand s msk i then Some (g i) else None) d (s ! d) j))"
    using returns_reduce_keep [OF xn_t ax, of False nanmean_list] unfolding nanmean_def
    by (rule returnsE) simp
  have "is_tensor (lift1 (nan_to_num 0) xm) (s[d := 1])
      (\<lambda>j. nan_to_num 0 (nanmean_list
         (slice (\<lambda>i. if expand s msk i then Some (g i) else None) d (s ! d) j)))"
    by (rule is_tensor_lift1 [OF xm_t])
  then have "is_tensor (lift1 (nan_to_num 0) xm) (s[d := 1])
      (masked_mean_at g (expand s msk) d (s ! d))"
    by (rule is_tensor_cong) (simp add: slice_def nanmean_fill masked_mean_at_def)
  then show ?thesis
    by (intro returnsI [of _ "lift1 (nan_to_num 0) xm"])
      (simp_all only: masked_mean_def xn xm bindE_Inr)
qed

lemma returns_masked_median:
  assumes x: "is_tensor x s g" and bc: "broadcast_shapes s (shape msk) = Inr s"
    and ax: "axis dm s d" and ne: "0 < s ! d"
  shows "returns (masked_median x msk dm True) (s[d := 1])
           (masked_median_at g (expand s msk) d (s ! d))"
proof -
  obtain xn where xn: "masked_fill_nan x (lift1 (\<lambda>m. (of_bool m :: real) < 1) msk) = Inr xn"
    and xn_t: "is_tensor xn s (\<lambda>i. if expand s msk i then Some (g i) else None)"
    using returns_masked_fill [OF x bc] by (rule returnsE)
  obtain xm where xm: "nanmedian xn dm True = Inr xm"
    and xm_t: "is_tensor xm (s[d := 1])
       (\<lambda>j. nanmedian_list (slice (\<lambda>i. if expand s msk i then Some (g i) else None) d (s ! d) j))"
    using returns_reduce_keep [OF xn_t ax, of True nanmedian_list] ne unfolding nanmedian_def
    by (auto elim: returnsE)
  have "is_tensor (lift1 (nan_to_num 0) xm) (s[d := 1])
      (\<lambda>j. nan_to_num 0 (nanmedian_list
         (slice (\<lambda>i. if expand s msk i then Some (g i) else None) d (s ! d) j)))"
    by (rule is_tensor_lift1 [OF xm_t])
  then have "is_tensor (lift1 (nan_to_num 0) xm) (s[d := 1])
      (masked_median_at g (expand s msk) d (s ! d))"
    by (rule is_tensor_cong) (simp add: slice_def nanmedian_fill masked_median_at_def)
  then show ?thesis
    by (intro returnsI [of _ "lift1 (nan_to_num 0) xm"])
      (simp_all only: masked_median_def xn xm bindE_Inr)
qed

lemma masked_mean_at_update [simp]:
  "masked_mean_at g M d n (i[d := k]) = masked_mean_at g M d n i"
  by (simp add: masked_mean_at_def)

lemma masked_median_at_update [simp]:
  "masked_median_at g M d n (i[d := k]) = masked_median_at g M d n i"
  by (simp add: masked_median_at_def)

lemma returns_lift2_stat:
  assumes a: "is_tensor a s g" and b: "is_tensor b (s[d := 1]) h" and d: "d < length s"
    and h: "\<And>i. h (i[d := 0]) = h i"
  shows "returns (lift2 f a b) s (\<lambda>i. f (g i) (h i))"
  using returns_lift2_keep [OF a b d, of f] by (rule returns_cong) (simp add: h)

lemma masked_std_at_update [simp]:
  "masked_std_at g M d n (i[d := k]) = masked_std_at g M d n i"
  by (simp add: masked_std_at_def)

lemma median_abs_dev_at_update [simp]:
  "median_abs_dev_at g M d n (i[d := k]) = median_abs_dev_at g M d n i"
  by (simp add: median_abs_dev_at_def)

lemma shifted_max_at_update [simp]:
  "shifted_max_at g M d n (i[d := k]) = shifted_max_at g M d n i"
  by (simp add: shifted_max_at_def)

lemma shifted_min_at_update [simp]:
  "shifted_min_at g M d n (i[d := k]) = shifted_min_at g M d n i"
  by (simp add: shifted_min_at_def)

subsection \<open>What each scaler returns\<close>

text \<open>The chain mean, deviation, mean squared deviation, root: shared by three scalers.\<close>

lemma std_chain:
  assumes x: "is_tensor x s g" and bc: "broadcast_shapes s (shape msk) = Inr s"
    and ax: "axis dm s d"
  shows "\<exists>x_means dev var.
           masked_mean x msk dm True = Inr x_means \<and>
           lift2 (-) x x_means = Inr dev \<and>
           masked_mean (lift1 (\<lambda>v. v ^ 2) dev) msk dm True = Inr var \<and>
           is_tensor x_means (s[d := 1]) (masked_mean_at g (expand s msk) d (s ! d)) \<and>
           is_tensor dev s (\<lambda>i. g i - masked_mean_at g (expand s msk) d (s ! d) i) \<and>
           is_tensor (lift1 sqrt var) (s[d := 1]) (masked_std_at g (expand s msk) d (s ! d))"
proof -
  let ?mu = "masked_mean_at g (expand s msk) d (s ! d)"
  have d: "d < length s" by (rule axis_less [OF ax])
  obtain x_means where 1: "masked_mean x msk dm True = Inr x_means"
    and x_means: "is_tensor x_means (s[d := 1]) ?mu"
    using returns_masked_mean [OF x bc ax] by (rule returnsE)
  obtain dev where 2: "lift2 (-) x x_means = Inr dev"
    and dev: "is_tensor dev s (\<lambda>i. g i - ?mu i)"
    using returns_lift2_stat [OF x x_means d, of "(-)"] by (auto elim: returnsE)
  have sq: "is_tensor (lift1 (\<lambda>v. v ^ 2) dev) s (\<lambda>i. (g i - ?mu i) ^ 2)"
    by (rule is_tensor_lift1 [OF dev])
  obtain var where 3: "masked_mean (lift1 (\<lambda>v. v ^ 2) dev) msk dm True = Inr var"
    and var: "is_tensor var (s[d := 1])
        (masked_mean_at (\<lambda>i. (g i - ?mu i) ^ 2) (expand s msk) d (s ! d))"
    using returns_masked_mean [OF sq bc ax] by (rule returnsE)
  have "is_tensor (lift1 sqrt var) (s[d := 1]) (masked_std_at g (expand s msk) d (s ! d))"
    using is_tensor_lift1 [OF var, of sqrt] by (simp add: masked_std_at_def [abs_def])
  with 1 2 3 x_means dev show ?thesis by blast
qed

lemma guard_tensor:
  assumes "is_tensor t s h"
  shows "is_tensor (lift1 (\<lambda>r. r + eps) (lift1 (\<lambda>r. if r = 0 then 1 else r) t)) s
           (\<lambda>i. guard_scale (h i) eps)"
  using is_tensor_lift1 [OF is_tensor_lift1 [OF assms, of "\<lambda>r. if r = 0 then 1 else r"],
      of "\<lambda>r. r + eps"]
  by (simp add: guard_scale_def [abs_def])

lemma std_scaler_returns:
  assumes bc: "broadcast_shapes (shape x) (shape msk) = Inr (shape x)"
    and ax: "axis dm (shape x) d"
  shows "\<exists>z x_means x_stds.
           std_scaler x msk dm eps = Inr (z, x_means, x_stds) \<and>
           is_tensor x_means ((shape x)[d := 1])
             (masked_mean_at (elem x) (expand (shape x) msk) d (shape x ! d)) \<and>
           is_tensor x_stds ((shape x)[d := 1])
             (\<lambda>i. guard_scale (masked_std_at (elem x) (expand (shape x) msk) d (shape x ! d) i) eps) \<and>
           is_tensor z (shape x)
             (\<lambda>i. fdiv (elem x i - masked_mean_at (elem x) (expand (shape x) msk) d (shape x ! d) i)
                    (guard_scale (masked_std_at (elem x) (expand (shape x) msk) d (shape x ! d) i) eps))"
proof -
  let ?s = "shape x" and ?g = "elem x"
  let ?mu = "masked_mean_at ?g (expand ?s msk) d (?s ! d)"
  let ?sd = "masked_std_at ?g (expand ?s msk) d (?s ! d)"
  have x: "is_tensor x ?s ?g" by (rule is_tensor_self)
  have d: "d < length ?s" by (rule axis_less [OF ax])
  obtain x_means dev var where 1: "masked_mean x msk dm True = Inr x_means"
    and 2: "lift2 (-) x x_means = Inr dev"
    and 3: "masked_mean (lift1 (\<lambda>v. v ^ 2) dev) msk dm True = Inr var"
    and x_means: "is_tensor x_means (?s[d := 1]) ?mu"
    and dev: "is_tensor dev ?s (\<lambda>i. ?g i - ?mu i)"
    and sd: "is_tensor (lift1 sqrt var) (?s[d := 1]) ?sd"
    using std_chain [OF x bc ax] by blast
  define x_stds where
    "x_stds = lift1 (\<lambda>r. r + eps) (lift1 (\<lambda>r. if r = 0 then 1 else r) (lift1 sqrt var))"
  have x_stds: "is_tensor x_stds (?s[d := 1]) (\<lambda>i. guard_scale (?sd i) eps)"
    unfolding x_stds_def by (rule guard_tensor [OF sd])
  obtain z where 4: "lift2 fdiv dev x_stds = Inr z"
    and z: "is_tensor z ?s (\<lambda>i. fdiv (?g i - ?mu i) (guard_scale (?sd i) eps))"
    using returns_lift2_stat [OF dev x_stds d, of fdiv] by (auto elim: returnsE)
  have "std_scaler x msk dm eps = Inr (z, x_means, x_stds)"
    by (simp only: std_scaler_def 1 2 3 4 bindE_Inr Let_def flip: x_stds_def)
  with x_means x_stds z show ?thesis by blast
qed

lemma mad_scale_at_update [simp]:
  "mad_scale_at g M d n eps (i[d := k]) = mad_scale_at g M d n eps i"
  by (simp add: mad_scale_at_def)

lemma mad_chain:
  assumes bc: "broadcast_shapes (shape x) (shape msk) = Inr (shape x)"
    and ax: "axis dm (shape x) d" and ne: "0 < shape x ! d"
  shows "\<exists>x_median dev x_mad x_means devm var kept aux x_mad2 q.
           masked_median x msk dm True = Inr x_median \<and>
           lift2 (-) x x_median = Inr dev \<and>
           masked_median (lift1 abs dev) msk dm True = Inr x_mad \<and>
           masked_mean x msk dm True = Inr x_means \<and>
           lift2 (-) x x_means = Inr devm \<and>
           masked_mean (lift1 (\<lambda>v. v ^ 2) devm) msk dm True = Inr var \<and>
           lift2 (*) x_mad (lift1 (\<lambda>r. of_bool (r > 0)) x_mad) = Inr kept \<and>
           lift2 (*) (lift1 (\<lambda>r. r * 0.6744897501960817) (lift1 sqrt var))
             (lift1 (\<lambda>r. of_bool (r = 0)) x_mad) = Inr aux \<and>
           lift2 (+) kept aux = Inr x_mad2 \<and>
           lift2 fdiv dev
             (lift1 (\<lambda>r. r + eps) (lift1 (\<lambda>r. if r = 0 then 1 else r) x_mad2)) = Inr q \<and>
           is_tensor x_median ((shape x)[d := 1])
             (masked_median_at (elem x) (expand (shape x) msk) d (shape x ! d)) \<and>
           is_tensor x_mad ((shape x)[d := 1])
             (median_abs_dev_at (elem x) (expand (shape x) msk) d (shape x ! d)) \<and>
           is_tensor (lift1 (\<lambda>r. r + eps) (lift1 (\<lambda>r. if r = 0 then 1 else r) x_mad2))
             ((shape x)[d := 1])
             (mad_scale_at (elem x) (expand (shape x) msk) d (shape x ! d) eps) \<and>
           is_tensor q (shape x)
             (\<lambda>i. fdiv (elem x i - masked_median_at (elem x) (expand (shape x) msk) d (shape x ! d) i)
                    (mad_scale_at (elem x) (expand (shape x) msk) d (shape x ! d) eps i))"
proof -
  let ?s = "shape x" and ?g = "elem x"
  let ?r = "?s[d := 1]"
  let ?med = "masked_median_at ?g (expand ?s msk) d (?s ! d)"
  let ?mad = "median_abs_dev_at ?g (expand ?s msk) d (?s ! d)"
  let ?sd = "masked_std_at ?g (expand ?s msk) d (?s ! d)"
  have x: "is_tensor x ?s ?g" by (rule is_tensor_self)
  have d: "d < length ?s" by (rule axis_less [OF ax])
  obtain x_median where 1: "masked_median x msk dm True = Inr x_median"
    and x_median: "is_tensor x_median ?r ?med"
    using returns_masked_median [OF x bc ax ne] by (rule returnsE)
  obtain dev where 2: "lift2 (-) x x_median = Inr dev"
    and dev: "is_tensor dev ?s (\<lambda>i. ?g i - ?med i)"
    using returns_lift2_stat [OF x x_median d, of "(-)"] by (auto elim: returnsE)
  have adev: "is_tensor (lift1 abs dev) ?s (\<lambda>i. \<bar>?g i - ?med i\<bar>)"
    by (rule is_tensor_lift1 [OF dev])
  obtain x_mad where 3: "masked_median (lift1 abs dev) msk dm True = Inr x_mad"
    and x_mad0: "is_tensor x_mad ?r
        (masked_median_at (\<lambda>i. \<bar>?g i - ?med i\<bar>) (expand ?s msk) d (?s ! d))"
    using returns_masked_median [OF adev bc ax ne] by (rule returnsE)
  have x_mad: "is_tensor x_mad ?r ?mad"
    using x_mad0 by (simp add: median_abs_dev_at_def [abs_def])
  obtain x_means devm var where 4: "masked_mean x msk dm True = Inr x_means"
    and 5: "lift2 (-) x x_means = Inr devm"
    and 6: "masked_mean (lift1 (\<lambda>v. v ^ 2) devm) msk dm True = Inr var"
    and sd: "is_tensor (lift1 sqrt var) ?r ?sd"
    using std_chain [OF x bc ax] by blast
  have aux0: "is_tensor (lift1 (\<lambda>r. r * 0.6744897501960817) (lift1 sqrt var)) ?r
      (\<lambda>i. ?sd i * 0.6744897501960817)"
    by (rule is_tensor_lift1 [OF sd])
  obtain kept where 7: "lift2 (*) x_mad (lift1 (\<lambda>r. of_bool (r > 0)) x_mad) = Inr kept"
    and kept: "is_tensor kept ?r (\<lambda>i. ?mad i * of_bool (?mad i > 0))"
    using returns_lift2_same [OF x_mad is_tensor_lift1 [OF x_mad, of "\<lambda>r. of_bool (r > 0)"],
        of "(*)"]
    by (rule returnsE)
  obtain aux where 8: "lift2 (*) (lift1 (\<lambda>r. r * 0.6744897501960817) (lift1 sqrt var))
      (lift1 (\<lambda>r. of_bool (r = 0)) x_mad) = Inr aux"
    and aux: "is_tensor aux ?r (\<lambda>i. ?sd i * 0.6744897501960817 * of_bool (?mad i = 0))"
    using returns_lift2_same [OF aux0 is_tensor_lift1 [OF x_mad, of "\<lambda>r. of_bool (r = 0)"],
        of "(*)"]
    by (rule returnsE)
  obtain x_mad2 where 9: "lift2 (+) kept aux = Inr x_mad2"
    and x_mad2: "is_tensor x_mad2 ?r (\<lambda>i. mad_or_std (?mad i) (?sd i))"
    using returns_lift2_same [OF kept aux, of "(+)"]
    by (auto elim: returnsE simp: mad_or_std_def [abs_def])
  let ?x_mad3 = "lift1 (\<lambda>r. r + eps) (lift1 (\<lambda>r. if r = 0 then 1 else r) x_mad2)"
  have x_mad3: "is_tensor ?x_mad3 ?r (mad_scale_at ?g (expand ?s msk) d (?s ! d) eps)"
    using guard_tensor [OF x_mad2, of eps] by (simp add: mad_scale_at_def [abs_def])
  obtain q where 10: "lift2 fdiv dev ?x_mad3 = Inr q"
    and q: "is_tensor q ?s
       (\<lambda>i. fdiv (?g i - ?med i) (mad_scale_at ?g (expand ?s msk) d (?s ! d) eps i))"
    using returns_lift2_stat [OF dev x_mad3 d, of fdiv] by (auto elim: returnsE)
  from 1 2 3 4 5 6 7 8 9 10 x_median x_mad x_mad3 q show ?thesis by blast
qed

lemma robust_scaler_returns:
  assumes bc: "broadcast_shapes (shape x) (shape msk) = Inr (shape x)"
    and ax: "axis dm (shape x) d" and ne: "0 < shape x ! d"
  shows "\<exists>z x_median x_mad.
           robust_scaler x msk dm eps = Inr (z, x_median, x_mad) \<and>
           is_tensor x_median ((shape x)[d := 1])
             (masked_median_at (elem x) (expand (shape x) msk) d (shape x ! d)) \<and>
           is_tensor x_mad ((shape x)[d := 1])
             (mad_scale_at (elem x) (expand (shape x) msk) d (shape x ! d) eps) \<and>
           is_tensor z (shape x)
             (\<lambda>i. fdiv (elem x i - masked_median_at (elem x) (expand (shape x) msk) d (shape x ! d) i)
                    (mad_scale_at (elem x) (expand (shape x) msk) d (shape x ! d) eps i))"
proof -
  obtain x_median dev x_mad x_means devm var kept aux x_mad2 q where
    eqs: "masked_median x msk dm True = Inr x_median"
      "lift2 (-) x x_median = Inr dev"
      "masked_median (lift1 abs dev) msk dm True = Inr x_mad"
      "masked_mean x msk dm True = Inr x_means"
      "lift2 (-) x x_means = Inr devm"
      "masked_mean (lift1 (\<lambda>v. v ^ 2) devm) msk dm True = Inr var"
      "lift2 (*) x_mad (lift1 (\<lambda>r. of_bool (r > 0)) x_mad) = Inr kept"
      "lift2 (*) (lift1 (\<lambda>r. r * 0.6744897501960817) (lift1 sqrt var))
             (lift1 (\<lambda>r. of_bool (r = 0)) x_mad) = Inr aux"
      "lift2 (+) kept aux = Inr x_mad2"
      "lift2 fdiv dev
             (lift1 (\<lambda>r. r + eps) (lift1 (\<lambda>r. if r = 0 then 1 else r) x_mad2)) = Inr q"
    and ts: "is_tensor x_median ((shape x)[d := 1])
             (masked_median_at (elem x) (expand (shape x) msk) d (shape x ! d))"
      "is_tensor (lift1 (\<lambda>r. r + eps) (lift1 (\<lambda>r. if r = 0 then 1 else r) x_mad2))
             ((shape x)[d := 1])
             (mad_scale_at (elem x) (expand (shape x) msk) d (shape x ! d) eps)"
      "is_tensor q (shape x)
             (\<lambda>i. fdiv (elem x i - masked_median_at (elem x) (expand (shape x) msk) d (shape x ! d) i)
                    (mad_scale_at (elem x) (expand (shape x) msk) d (shape x ! d) eps i))"
    using mad_chain [OF bc ax ne, of eps] by blast
  have "robust_scaler x msk dm eps =
      Inr (q, x_median, lift1 (\<lambda>r. r + eps) (lift1 (\<lambda>r. if r = 0 then 1 else r) x_mad2))"
    by (simp only: robust_scaler_def eqs bindE_Inr Let_def)
  with ts show ?thesis by blast
qed

lemma invariant_scaler_returns:
  assumes bc: "broadcast_shapes (shape x) (shape msk) = Inr (shape x)"
    and ax: "axis dm (shape x) d" and ne: "0 < shape x ! d"
  shows "\<exists>z x_median x_mad.
           invariant_scaler x msk dm eps = Inr (z, x_median, x_mad) \<and>
           is_tensor x_median ((shape x)[d := 1])
             (masked_median_at (elem x) (expand (shape x) msk) d (shape x ! d)) \<and>
           is_tensor x_mad ((shape x)[d := 1])
             (mad_scale_at (elem x) (expand (shape x) msk) d (shape x ! d) eps) \<and>
           is_tensor z (shape x)
             (\<lambda>i. map_option arsinh
                (fdiv (elem x i - masked_median_at (elem x) (expand (shape x) msk) d (shape x ! d) i)
                    (mad_scale_at (elem x) (expand (shape x) msk) d (shape x ! d) eps i)))"
proof -
  obtain x_median dev x_mad x_means devm var kept aux x_mad2 q where
    eqs: "masked_median x msk dm True = Inr x_median"
      "lift2 (-) x x_median = Inr dev"
      "masked_median (lift1 abs dev) msk dm True = Inr x_mad"
      "masked_mean x msk dm True = Inr x_means"
      "lift2 (-) x x_means = Inr devm"
      "masked_mean (lift1 (\<lambda>v. v ^ 2) devm) msk dm True = Inr var"
      "lift2 (*) x_mad (lift1 (\<lambda>r. of_bool (r > 0)) x_mad) = Inr kept"
      "lift2 (*) (lift1 (\<lambda>r. r * 0.6744897501960817) (lift1 sqrt var))
             (lift1 (\<lambda>r. of_bool (r = 0)) x_mad) = Inr aux"
      "lift2 (+) kept aux = Inr x_mad2"
      "lift2 fdiv dev
             (lift1 (\<lambda>r. r + eps) (lift1 (\<lambda>r. if r = 0 then 1 else r) x_mad2)) = Inr q"
    and ts: "is_tensor x_median ((shape x)[d := 1])
             (masked_median_at (elem x) (expand (shape x) msk) d (shape x ! d))"
      "is_tensor (lift1 (\<lambda>r. r + eps) (lift1 (\<lambda>r. if r = 0 then 1 else r) x_mad2))
             ((shape x)[d := 1])
             (mad_scale_at (elem x) (expand (shape x) msk) d (shape x ! d) eps)"
    and q: "is_tensor q (shape x)
             (\<lambda>i. fdiv (elem x i - masked_median_at (elem x) (expand (shape x) msk) d (shape x ! d) i)
                    (mad_scale_at (elem x) (expand (shape x) msk) d (shape x ! d) eps i))"
    using mad_chain [OF bc ax ne, of eps] by blast
  have "invariant_scaler x msk dm eps =
      Inr (lift1 (map_option arsinh) q, x_median,
           lift1 (\<lambda>r. r + eps) (lift1 (\<lambda>r. if r = 0 then 1 else r) x_mad2))"
    by (simp only: invariant_scaler_def eqs bindE_Inr Let_def)
  with ts is_tensor_lift1 [OF q, of "map_option arsinh"] show ?thesis by blast
qed

lemma range_scale_at_update [simp]:
  "range_scale_at g M d n eps (i[d := k]) = range_scale_at g M d n eps i"
  by (simp add: range_scale_at_def)

lemma range_chain:
  assumes bc: "broadcast_shapes (shape x) (shape msk) = Inr (shape x)"
    and ax: "axis dm (shape x) d" and ne: "0 < shape x ! d"
  shows "\<exists>x_hi x_max x_lo x_min x_range num q.
           lift2 (+) x (lift1 (\<lambda>m. of_bool ((of_bool m :: real) = 0) * (- 999999995904)) msk)
             = Inr x_hi \<and>
           torch_max x_hi dm True = Inr x_max \<and>
           lift2 (+) x (lift1 (\<lambda>m. of_bool ((of_bool m :: real) = 0) * 999999995904) msk)
             = Inr x_lo \<and>
           torch_min x_lo dm True = Inr x_min \<and>
           lift2 (-) x_max x_min = Inr x_range \<and>
           lift2 (-) x x_min = Inr num \<and>
           lift2 fdiv num
             (lift1 (\<lambda>r. r + eps) (lift1 (\<lambda>r. if r = 0 then 1 else r) x_range)) = Inr q \<and>
           is_tensor x_min ((shape x)[d := 1])
             (shifted_min_at (elem x) (expand (shape x) msk) d (shape x ! d)) \<and>
           is_tensor (lift1 (\<lambda>r. r + eps) (lift1 (\<lambda>r. if r = 0 then 1 else r) x_range))
             ((shape x)[d := 1])
             (range_scale_at (elem x) (expand (shape x) msk) d (shape x ! d) eps) \<and>
           is_tensor q (shape x)
             (\<lambda>i. fdiv (elem x i - shifted_min_at (elem x) (expand (shape x) msk) d (shape x ! d) i)
                    (range_scale_at (elem x) (expand (shape x) msk) d (shape x ! d) eps i))"
proof -
  let ?s = "shape x" and ?g = "elem x"
  let ?r = "?s[d := 1]"
  let ?M = "expand ?s msk"
  let ?hi = "shifted_max_at ?g ?M d (?s ! d)"
  let ?lo = "shifted_min_at ?g ?M d (?s ! d)"
  let ?max_mask = "lift1 (\<lambda>m. of_bool ((of_bool m :: real) = 0) * (- 999999995904 :: real)) msk"
  let ?min_mask = "lift1 (\<lambda>m. of_bool ((of_bool m :: real) = 0) * (999999995904 :: real)) msk"
  have x: "is_tensor x ?s ?g" by (rule is_tensor_self)
  have d: "d < length ?s" by (rule axis_less [OF ax])
  have "returns (lift2 (+) x ?max_mask) ?s (\<lambda>i. ?g i + expand ?s ?max_mask i)"
    by (rule returns_lift2_bc [OF x]) (simp add: bc)
  then have "returns (lift2 (+) x ?max_mask) ?s
      (\<lambda>i. ?g i + of_bool (\<not> ?M i) * (- 999999995904))"
    by (rule returns_cong) simp
  then obtain x_hi where 1: "lift2 (+) x ?max_mask = Inr x_hi"
    and x_hi: "is_tensor x_hi ?s (\<lambda>i. ?g i + of_bool (\<not> ?M i) * (- 999999995904))"
    by (rule returnsE)
  obtain x_max where 2: "torch_max x_hi dm True = Inr x_max"
    and x_max: "is_tensor x_max ?r ?hi"
    using returns_reduce_keep [OF x_hi ax, of True max_list] ne
    unfolding torch_max_def shifted_max_at_def [abs_def] by (auto elim: returnsE)
  have "returns (lift2 (+) x ?min_mask) ?s (\<lambda>i. ?g i + expand ?s ?min_mask i)"
    by (rule returns_lift2_bc [OF x]) (simp add: bc)
  then have "returns (lift2 (+) x ?min_mask) ?s
      (\<lambda>i. ?g i + of_bool (\<not> ?M i) * 999999995904)"
    by (rule returns_cong) simp
  then obtain x_lo where 3: "lift2 (+) x ?min_mask = Inr x_lo"
    and x_lo: "is_tensor x_lo ?s (\<lambda>i. ?g i + of_bool (\<not> ?M i) * 999999995904)"
    by (rule returnsE)
  obtain x_min where 4: "torch_min x_lo dm True = Inr x_min"
    and x_min: "is_tensor x_min ?r ?lo"
    using returns_reduce_keep [OF x_lo ax, of True min_list] ne
    unfolding torch_min_def shifted_min_at_def [abs_def] by (auto elim: returnsE)
  obtain x_range where 5: "lift2 (-) x_max x_min = Inr x_range"
    and x_range: "is_tensor x_range ?r (\<lambda>i. ?hi i - ?lo i)"
    using returns_lift2_same [OF x_max x_min, of "(-)"] by (rule returnsE)
  let ?x_range2 = "lift1 (\<lambda>r. r + eps) (lift1 (\<lambda>r. if r = 0 then 1 else r) x_range)"
  have x_range2: "is_tensor ?x_range2 ?r (range_scale_at ?g ?M d (?s ! d) eps)"
    using guard_tensor [OF x_range, of eps] by (simp add: range_scale_at_def [abs_def])
  obtain num where 6: "lift2 (-) x x_min = Inr num"
    and num: "is_tensor num ?s (\<lambda>i. ?g i - ?lo i)"
    using returns_lift2_stat [OF x x_min d, of "(-)"] by (auto elim: returnsE)
  obtain q where 7: "lift2 fdiv num ?x_range2 = Inr q"
    and q: "is_tensor q ?s (\<lambda>i. fdiv (?g i - ?lo i) (range_scale_at ?g ?M d (?s ! d) eps i))"
    using returns_lift2_stat [OF num x_range2 d, of fdiv] by (auto elim: returnsE)
  from 1 2 3 4 5 6 7 x_min x_range2 q show ?thesis by blast
qed

lemma minmax_scaler_returns:
  assumes bc: "broadcast_shapes (shape x) (shape msk) = Inr (shape x)"
    and ax: "axis dm (shape x) d" and ne: "0 < shape x ! d"
  shows "\<exists>z x_min x_range.
           minmax_scaler x msk eps dm = Inr (z, x_min, x_range) \<and>
           is_tensor x_min ((shape x)[d := 1])
             (shifted_min_at (elem x) (expand (shape x) msk) d (shape x ! d)) \<and>
           is_tensor x_range ((shape x)[d := 1])
             (range_scale_at (elem x) (expand (shape x) msk) d (shape x ! d) eps) \<and>
           is_tensor z (shape x)
             (\<lambda>i. fdiv (elem x i - shifted_min_at (elem x) (expand (shape x) msk) d (shape x ! d) i)
                    (range_scale_at (elem x) (expand (shape x) msk) d (shape x ! d) eps i))"
proof -
  obtain x_hi x_max x_lo x_min x_range num q where
    eqs: "lift2 (+) x (lift1 (\<lambda>m. of_bool ((of_bool m :: real) = 0) * (- 999999995904)) msk)
             = Inr x_hi"
      "torch_max x_hi dm True = Inr x_max"
      "lift2 (+) x (lift1 (\<lambda>m. of_bool ((of_bool m :: real) = 0) * 999999995904) msk)
             = Inr x_lo"
      "torch_min x_lo dm True = Inr x_min"
      "lift2 (-) x_max x_min = Inr x_range"
      "lift2 (-) x x_min = Inr num"
      "lift2 fdiv num
             (lift1 (\<lambda>r. r + eps) (lift1 (\<lambda>r. if r = 0 then 1 else r) x_range)) = Inr q"
    and ts: "is_tensor x_min ((shape x)[d := 1])
             (shifted_min_at (elem x) (expand (shape x) msk) d (shape x ! d))"
      "is_tensor (lift1 (\<lambda>r. r + eps) (lift1 (\<lambda>r. if r = 0 then 1 else r) x_range))
             ((shape x)[d := 1])
             (range_scale_at (elem x) (expand (shape x) msk) d (shape x ! d) eps)"
      "is_tensor q (shape x)
             (\<lambda>i. fdiv (elem x i - shifted_min_at (elem x) (expand (shape x) msk) d (shape x ! d) i)
                    (range_scale_at (elem x) (expand (shape x) msk) d (shape x ! d) eps i))"
    using range_chain [OF bc ax ne, of eps] by blast
  have "minmax_scaler x msk eps dm =
      Inr (q, x_min, lift1 (\<lambda>r. r + eps) (lift1 (\<lambda>r. if r = 0 then 1 else r) x_range))"
    by (simp only: minmax_scaler_def eqs bindE_Inr Let_def)
  with ts show ?thesis by blast
qed

lemma minmax1_scaler_returns:
  assumes bc: "broadcast_shapes (shape x) (shape msk) = Inr (shape x)"
    and ax: "axis dm (shape x) d" and ne: "0 < shape x ! d"
  shows "\<exists>z x_min x_range.
           minmax1_scaler x msk eps dm = Inr (z, x_min, x_range) \<and>
           is_tensor x_min ((shape x)[d := 1])
             (shifted_min_at (elem x) (expand (shape x) msk) d (shape x ! d)) \<and>
           is_tensor x_range ((shape x)[d := 1])
             (range_scale_at (elem x) (expand (shape x) msk) d (shape x ! d) eps) \<and>
           is_tensor z (shape x)
             (\<lambda>i. map_option (\<lambda>u. u * 2 - 1)
                (fdiv (elem x i - shifted_min_at (elem x) (expand (shape x) msk) d (shape x ! d) i)
                    (range_scale_at (elem x) (expand (shape x) msk) d (shape x ! d) eps i)))"
proof -
  obtain x_hi x_max x_lo x_min x_range num q where
    eqs: "lift2 (+) x (lift1 (\<lambda>m. of_bool ((of_bool m :: real) = 0) * (- 999999995904)) msk)
             = Inr x_hi"
      "torch_max x_hi dm True = Inr x_max"
      "lift2 (+) x (lift1 (\<lambda>m. of_bool ((of_bool m :: real) = 0) * 999999995904) msk)
             = Inr x_lo"
      "torch_min x_lo dm True = Inr x_min"
      "lift2 (-) x_max x_min = Inr x_range"
      "lift2 (-) x x_min = Inr num"
      "lift2 fdiv num
             (lift1 (\<lambda>r. r + eps) (lift1 (\<lambda>r. if r = 0 then 1 else r) x_range)) = Inr q"
    and ts: "is_tensor x_min ((shape x)[d := 1])
             (shifted_min_at (elem x) (expand (shape x) msk) d (shape x ! d))"
      "is_tensor (lift1 (\<lambda>r. r + eps) (lift1 (\<lambda>r. if r = 0 then 1 else r) x_range))
             ((shape x)[d := 1])
             (range_scale_at (elem x) (expand (shape x) msk) d (shape x ! d) eps)"
    and q: "is_tensor q (shape x)
             (\<lambda>i. fdiv (elem x i - shifted_min_at (elem x) (expand (shape x) msk) d (shape x ! d) i)
                    (range_scale_at (elem x) (expand (shape x) msk) d (shape x ! d) eps i))"
    using range_chain [OF bc ax ne, of eps] by blast
  have "minmax1_scaler x msk eps dm =
      Inr (lift1 (map_option (\<lambda>u. u * 2 - 1)) q, x_min,
           lift1 (\<lambda>r. r + eps) (lift1 (\<lambda>r. if r = 0 then 1 else r) x_range))"
    by (simp only: minmax1_scaler_def eqs bindE_Inr Let_def)
  with ts is_tensor_lift1 [OF q, of "map_option (\<lambda>u. u * 2 - 1)"] show ?thesis by blast
qed

lemma list_set_item_axis:
  assumes "axis dm s d"
  shows "list_set_item s dm v = Inr (s[d := v])"
proof -
  from assms have w: "wrap_dim dm (length s) = Inr d" and d: "d < length s"
    by (simp_all add: axis_def)
  from d have "max (length s) 1 = length s" by simp
  with w show ?thesis
    by (auto simp: wrap_dim_def list_set_item_def Let_def split: if_splits)
qed

lemma identity_scaler_returns:
  assumes ax: "axis dm (shape x) d"
  shows "identity_scaler x msk dm eps =
           Inr (lift1 Some x, Tensor ((shape x)[d := 1]) (\<lambda>i. 0), Tensor ((shape x)[d := 1]) (\<lambda>i. 1))"
  by (simp add: identity_scaler_def list_set_item_axis [OF ax])

text \<open>The inverse scalers, on a scaled tensor and statistics of the reduced shape.\<close>

lemma inv_affine_returns:
  assumes z: "is_tensor z s zf" and sh: "is_tensor x_shift (s[d := 1]) a"
    and sc: "is_tensor x_scale (s[d := 1]) b" and d: "d < length s"
    and a: "\<And>i. a (i[d := 0]) = a i" and b: "\<And>i. b (i[d := 0]) = b i"
  shows "returns (bindE (lift2 (\<lambda>v r. map_option (\<lambda>u. u * r) v) z x_scale) (\<lambda>t.
           lift2 (\<lambda>v m. map_option (\<lambda>u. u + m) v) t x_shift)) s
           (\<lambda>i. map_option (\<lambda>u. u * b i + a i) (zf i))"
proof -
  obtain t where 1: "lift2 (\<lambda>v r. map_option (\<lambda>u. u * r) v) z x_scale = Inr t"
    and t: "is_tensor t s (\<lambda>i. map_option (\<lambda>u. u * b i) (zf i))"
    using returns_lift2_stat [OF z sc d, of "\<lambda>v r. map_option (\<lambda>u. u * r) v"] b
    by (auto elim: returnsE)
  have "returns (lift2 (\<lambda>v m. map_option (\<lambda>u. u + m) v) t x_shift) s
      (\<lambda>i. map_option (\<lambda>u. u + a i) (map_option (\<lambda>u. u * b i) (zf i)))"
    using returns_lift2_stat [OF t sh d, of "\<lambda>v m. map_option (\<lambda>u. u + m) v"] a by simp
  then have "returns (lift2 (\<lambda>v m. map_option (\<lambda>u. u + m) v) t x_shift) s
      (\<lambda>i. map_option (\<lambda>u. u * b i + a i) (zf i))"
    by (rule returns_cong) (simp add: option.map_comp comp_def)
  then show ?thesis by (simp add: 1)
qed

subsection \<open>Statistics of a list of values\<close>

lemma valid_vals_Nil [simp]: "valid_vals [] ms = []" "valid_vals xs [] = []"
  by (simp_all add: valid_vals_def)

lemma valid_vals_Cons [simp]:
  "valid_vals (x # xs) (m # ms) = (if m then x # valid_vals xs ms else valid_vals xs ms)"
  by (simp add: valid_vals_def)

lemma set_valid_vals:
  "length xs = length ms \<Longrightarrow>
     set (valid_vals xs ms) = {xs ! k | k. k < length xs \<and> ms ! k}"
proof (induction xs ms rule: list_induct2)
  case Nil
  then show ?case by simp
next
  case (Cons x xs m ms)
  have "{(x # xs) ! k | k. k < length (x # xs) \<and> (m # ms) ! k} =
      (if m then {x} else {}) \<union> {xs ! k | k. k < length xs \<and> ms ! k}"
    (is "?L = ?R")
  proof (intro set_eqI iffI)
    fix v assume "v \<in> ?L"
    then obtain k where k: "v = (x # xs) ! k" "k < length (x # xs)" "(m # ms) ! k" by blast
    then show "v \<in> ?R" by (cases k) auto
  next
    fix v assume "v \<in> ?R"
    then consider "m" "v = x" | k where "v = xs ! k" "k < length xs" "ms ! k"
      by (auto split: if_splits)
    then show "v \<in> ?L"
    proof cases
      case 1
      then have "v = (x # xs) ! 0 \<and> 0 < length (x # xs) \<and> (m # ms) ! 0" by simp
      then show ?thesis by blast
    next
      case 2
      then have "v = (x # xs) ! Suc k \<and> Suc k < length (x # xs) \<and> (m # ms) ! Suc k" by simp
      then show ?thesis by blast
    qed
  qed
  with Cons show ?case by auto
qed

lemma valid_vals_map: "valid_vals (map f xs) ms = map f (valid_vals xs ms)"
  by (simp add: valid_vals_def zip_map1 filter_map comp_def case_prod_beta)

lemma valid_vals_cong:
  assumes "length xs = length ms" "length ys = length ms"
    and "\<And>k. k < length ms \<Longrightarrow> ms ! k \<Longrightarrow> xs ! k = ys ! k"
  shows "valid_vals xs ms = valid_vals ys ms"
  using assms
proof (induction xs ms arbitrary: ys rule: list_induct2)
  case Nil
  then show ?case by simp
next
  case (Cons x xs m ms)
  then obtain y ys' where ys: "ys = y # ys'" by (cases ys) auto
  have tl: "valid_vals xs ms = valid_vals ys' ms"
  proof (rule Cons.IH)
    show "length ys' = length ms" using Cons.prems(1) ys by simp
    fix k assume "k < length ms" "ms ! k"
    then show "xs ! k = ys' ! k" using Cons.prems(2) [of "Suc k"] ys by simp
  qed
  have hd: "m \<Longrightarrow> x = y" using Cons.prems(2) [of 0] ys by simp
  show ?case by (simp add: ys tl hd)
qed

lemma mean_list_nonneg: "(\<And>v. v \<in> set vs \<Longrightarrow> 0 \<le> v) \<Longrightarrow> 0 \<le> mean_list vs"
  by (simp add: mean_list_def sum_list_nonneg)

lemma mean_list_const:
  assumes "\<And>v. v \<in> set vs \<Longrightarrow> v = c" "vs \<noteq> []"
  shows "mean_list vs = c"
proof -
  have "vs = replicate (length vs) c"
    using assms(1) by (simp add: replicate_length_same)
  then have "sum_list vs = real (length vs) * c"
    by (metis sum_list_replicate)
  with assms(2) show ?thesis by (simp add: mean_list_def)
qed

lemma mean_list_zero: "(\<And>v. v \<in> set vs \<Longrightarrow> v = 0) \<Longrightarrow> mean_list vs = 0"
  by (cases "vs = []") (simp_all add: mean_list_const, simp add: mean_list_def)

lemma lower_median_in_set: "vs \<noteq> [] \<Longrightarrow> lower_median vs \<in> set vs"
proof -
  assume ne: "vs \<noteq> []"
  then have "(length vs - 1) div 2 < length (sort vs)"
    by (cases vs) (auto simp: less_Suc_eq_le)
  then have "sort vs ! ((length vs - 1) div 2) \<in> set (sort vs)" by (rule nth_mem)
  with ne show ?thesis by (simp add: lower_median_def)
qed

lemma lower_median_nonneg: "(\<And>v. v \<in> set vs \<Longrightarrow> 0 \<le> v) \<Longrightarrow> 0 \<le> lower_median vs"
  using lower_median_in_set [of vs] by (cases "vs = []") (auto simp: lower_median_def)

lemma lower_median_const:
  "(\<And>v. v \<in> set vs \<Longrightarrow> v = c) \<Longrightarrow> vs \<noteq> [] \<Longrightarrow> lower_median vs = c"
  using lower_median_in_set [of vs] by auto

lemma max_list_eq_Max: "vs \<noteq> [] \<Longrightarrow> max_list vs = Max (set vs)"
  by (cases vs) (simp_all flip: Max.set_eq_fold)

lemma min_list_eq_Min: "vs \<noteq> [] \<Longrightarrow> min_list vs = Min (set vs)"
  by (cases vs) (simp_all flip: Min.set_eq_fold)

lemma max_list_ge: "v \<in> set vs \<Longrightarrow> v \<le> max_list vs"
  by (cases "vs = []") (simp_all add: max_list_eq_Max)

lemma min_list_le: "v \<in> set vs \<Longrightarrow> min_list vs \<le> v"
  by (cases "vs = []") (simp_all add: min_list_eq_Min)

lemma valid_vals_subset: "v \<in> set (valid_vals xs ms) \<Longrightarrow> v \<in> set xs"
  by (auto simp: valid_vals_def dest: set_zip_leftD)

lemma in_sliceE:
  assumes "v \<in> set (slice f d n i)"
  obtains k where "k < n" "v = f (i[d := k])"
  using assms by (auto simp: slice_def)

lemma masked_std_at_nonneg: "0 \<le> masked_std_at g M d n i"
  unfolding masked_std_at_def masked_mean_at_def
  by (intro real_sqrt_ge_zero mean_list_nonneg) (auto dest!: valid_vals_subset elim!: in_sliceE)

lemma median_abs_dev_at_nonneg: "0 \<le> median_abs_dev_at g M d n i"
  unfolding median_abs_dev_at_def masked_median_at_def
  by (intro lower_median_nonneg) (auto dest!: valid_vals_subset elim!: in_sliceE)

lemma guard_scale_pos: "0 \<le> r \<Longrightarrow> 0 \<le> eps \<Longrightarrow> 0 < guard_scale r eps"
  by (simp add: guard_scale_def add_pos_nonneg)

lemma guard_scale_ge: "0 \<le> r \<Longrightarrow> eps \<le> guard_scale r eps"
  by (simp add: guard_scale_def)

lemma mad_or_std_nonneg: "0 \<le> mad \<Longrightarrow> 0 \<le> sd \<Longrightarrow> 0 \<le> mad_or_std mad sd"
  by (simp add: mad_or_std_def)

lemma mad_scale_at_pos: "0 \<le> eps \<Longrightarrow> 0 < mad_scale_at g M d n eps i"
  unfolding mad_scale_at_def
  by (intro guard_scale_pos mad_or_std_nonneg median_abs_dev_at_nonneg masked_std_at_nonneg)

lemma shifted_bounds:
  assumes k: "k < n" and m: "M (i[d := k])"
  shows "shifted_min_at g M d n i \<le> g (i[d := k])" "g (i[d := k]) \<le> shifted_max_at g M d n i"
proof -
  have "g (i[d := k]) \<in> set (slice (\<lambda>i'. g i' + of_bool (\<not> M i') * 999999995904) d n i)"
    unfolding slice_def using k m by (auto simp: image_iff intro!: bexI [of _ k])
  then show "shifted_min_at g M d n i \<le> g (i[d := k])"
    unfolding shifted_min_at_def by (rule min_list_le)
  have "g (i[d := k]) \<in> set (slice (\<lambda>i'. g i' + of_bool (\<not> M i') * (- 999999995904)) d n i)"
    unfolding slice_def using k m by (auto simp: image_iff intro!: bexI [of _ k])
  then show "g (i[d := k]) \<le> shifted_max_at g M d n i"
    unfolding shifted_max_at_def by (rule max_list_ge)
qed

lemma range_scale_at_pos:
  assumes "k < n" "M (i[d := k])" "0 \<le> eps"
  shows "0 < range_scale_at g M d n eps i"
  unfolding range_scale_at_def
  using shifted_bounds [of k n M i d g] assms by (intro guard_scale_pos) auto

subsection \<open>The inverse scaler after the scaler\<close>

lemma has_validE:
  assumes "has_valid s msk d i"
  obtains k where "k < s ! d" "expand s msk (i[d := k])"
  using assms by (auto simp: has_valid_def list_ex_iff)

lemma fdiv_back: "b \<noteq> 0 \<Longrightarrow> map_option (\<lambda>u. u * b + a) (fdiv (v - a) b) = Some v"
  by (simp add: fdiv_def)

lemma affine_roundtrip:
  assumes z: "is_tensor z s (\<lambda>i. fdiv (g i - a i) (b i))"
    and sh: "is_tensor x_shift (s[d := 1]) a" and sc: "is_tensor x_scale (s[d := 1]) b"
    and d: "d < length s"
    and a: "\<And>i. a (i[d := 0]) = a i" and b: "\<And>i. b (i[d := 0]) = b i"
    and i: "valid_index s i" and nz: "b i \<noteq> 0"
  shows "\<exists>xr. bindE (lift2 (\<lambda>v r. map_option (\<lambda>u. u * r) v) z x_scale) (\<lambda>t.
           lift2 (\<lambda>v m. map_option (\<lambda>u. u + m) v) t x_shift) = Inr xr \<and>
           shape xr = s \<and> elem xr i = Some (g i)"
proof -
  have "returns (bindE (lift2 (\<lambda>v r. map_option (\<lambda>u. u * r) v) z x_scale) (\<lambda>t.
           lift2 (\<lambda>v m. map_option (\<lambda>u. u + m) v) t x_shift)) s
         (\<lambda>i. map_option (\<lambda>u. u * b i + a i) (fdiv (g i - a i) (b i)))"
    by (rule inv_affine_returns [where d = d]) (rule z sh sc d a b)+
  then obtain xr where 1: "bindE (lift2 (\<lambda>v r. map_option (\<lambda>u. u * r) v) z x_scale) (\<lambda>t.
           lift2 (\<lambda>v m. map_option (\<lambda>u. u + m) v) t x_shift) = Inr xr"
    and xr: "is_tensor xr s (\<lambda>i. map_option (\<lambda>u. u * b i + a i) (fdiv (g i - a i) (b i)))"
    by (rule returnsE)
  have "elem xr i = Some (g i)"
    using is_tensor_elem [OF xr i] by (simp add: fdiv_back [OF nz])
  with 1 is_tensor_shape [OF xr] show ?thesis by blast
qed

lemma std_roundtrip:
  assumes bc: "broadcast_shapes (shape x) (shape msk) = Inr (shape x)"
    and ax: "axis dm (shape x) d" and eps: "0 \<le> eps" and i: "valid_index (shape x) i"
  shows "\<exists>z sh sc xr. std_scaler x msk dm eps = Inr (z, sh, sc) \<and>
           inv_std_scaler z sh sc = Inr xr \<and> shape xr = shape x \<and> elem xr i = Some (elem x i)"
proof -
  obtain z sh sc where 1: "std_scaler x msk dm eps = Inr (z, sh, sc)"
    and sh: "is_tensor sh ((shape x)[d := 1])
             (masked_mean_at (elem x) (expand (shape x) msk) d (shape x ! d))"
    and sc: "is_tensor sc ((shape x)[d := 1])
             (\<lambda>i. guard_scale (masked_std_at (elem x) (expand (shape x) msk) d (shape x ! d) i) eps)"
    and z: "is_tensor z (shape x)
             (\<lambda>i. fdiv (elem x i - masked_mean_at (elem x) (expand (shape x) msk) d (shape x ! d) i)
                    (guard_scale (masked_std_at (elem x) (expand (shape x) msk) d (shape x ! d) i) eps))"
    using std_scaler_returns [OF bc ax, of eps] by blast
  have nz: "guard_scale (masked_std_at (elem x) (expand (shape x) msk) d (shape x ! d) i) eps \<noteq> 0"
    using guard_scale_pos [OF masked_std_at_nonneg eps] by (simp add: less_imp_neq [THEN not_sym])
  show ?thesis
    using affine_roundtrip [OF z sh sc axis_less [OF ax] _ _ i nz] 1
    unfolding inv_std_scaler_def by simp
qed

lemma robust_roundtrip:
  assumes bc: "broadcast_shapes (shape x) (shape msk) = Inr (shape x)"
    and ax: "axis dm (shape x) d" and eps: "0 \<le> eps" and i: "valid_index (shape x) i"
  shows "\<exists>z sh sc xr. robust_scaler x msk dm eps = Inr (z, sh, sc) \<and>
           inv_robust_scaler z sh sc = Inr xr \<and> shape xr = shape x \<and> elem xr i = Some (elem x i)"
proof -
  have ne: "0 < shape x ! d" by (rule valid_index_pos [OF i axis_less [OF ax]])
  obtain z sh sc where 1: "robust_scaler x msk dm eps = Inr (z, sh, sc)"
    and sh: "is_tensor sh ((shape x)[d := 1])
             (masked_median_at (elem x) (expand (shape x) msk) d (shape x ! d))"
    and sc: "is_tensor sc ((shape x)[d := 1])
             (mad_scale_at (elem x) (expand (shape x) msk) d (shape x ! d) eps)"
    and z: "is_tensor z (shape x)
             (\<lambda>i. fdiv (elem x i - masked_median_at (elem x) (expand (shape x) msk) d (shape x ! d) i)
                    (mad_scale_at (elem x) (expand (shape x) msk) d (shape x ! d) eps i))"
    using robust_scaler_returns [OF bc ax ne, of eps] by blast
  have nz: "mad_scale_at (elem x) (expand (shape x) msk) d (shape x ! d) eps i \<noteq> 0"
    using mad_scale_at_pos [OF eps] by (simp add: less_imp_neq [THEN not_sym])
  show ?thesis
    using affine_roundtrip [OF z sh sc axis_less [OF ax] _ _ i nz] 1
    unfolding inv_robust_scaler_def by simp
qed

lemma minmax_roundtrip:
  assumes bc: "broadcast_shapes (shape x) (shape msk) = Inr (shape x)"
    and ax: "axis dm (shape x) d" and eps: "0 \<le> eps" and i: "valid_index (shape x) i"
    and hv: "has_valid (shape x) msk d i"
  shows "\<exists>z sh sc xr. minmax_scaler x msk eps dm = Inr (z, sh, sc) \<and>
           inv_minmax_scaler z sh sc = Inr xr \<and> shape xr = shape x \<and> elem xr i = Some (elem x i)"
proof -
  have ne: "0 < shape x ! d" by (rule valid_index_pos [OF i axis_less [OF ax]])
  obtain z sh sc where 1: "minmax_scaler x msk eps dm = Inr (z, sh, sc)"
    and sh: "is_tensor sh ((shape x)[d := 1])
             (shifted_min_at (elem x) (expand (shape x) msk) d (shape x ! d))"
    and sc: "is_tensor sc ((shape x)[d := 1])
             (range_scale_at (elem x) (expand (shape x) msk) d (shape x ! d) eps)"
    and z: "is_tensor z (shape x)
             (\<lambda>i. fdiv (elem x i - shifted_min_at (elem x) (expand (shape x) msk) d (shape x ! d) i)
                    (range_scale_at (elem x) (expand (shape x) msk) d (shape x ! d) eps i))"
    using minmax_scaler_returns [OF bc ax ne, of eps] by blast
  obtain k where k: "k < shape x ! d" "expand (shape x) msk (i[d := k])"
    using hv by (rule has_validE)
  have nz: "range_scale_at (elem x) (expand (shape x) msk) d (shape x ! d) eps i \<noteq> 0"
    using range_scale_at_pos [where k = k and M = "expand (shape x) msk" and g = "elem x"
        and n = "shape x ! d" and d = d and i = i and eps = eps] k eps by simp
  show ?thesis
    using affine_roundtrip [OF z sh sc axis_less [OF ax] _ _ i nz] 1
    unfolding inv_minmax_scaler_def by simp
qed

lemma minmax1_roundtrip:
  assumes bc: "broadcast_shapes (shape x) (shape msk) = Inr (shape x)"
    and ax: "axis dm (shape x) d" and eps: "0 \<le> eps" and i: "valid_index (shape x) i"
    and hv: "has_valid (shape x) msk d i"
  shows "\<exists>z sh sc xr. minmax1_scaler x msk eps dm = Inr (z, sh, sc) \<and>
           inv_minmax1_scaler z sh sc = Inr xr \<and> shape xr = shape x \<and> elem xr i = Some (elem x i)"
proof -
  let ?lo = "shifted_min_at (elem x) (expand (shape x) msk) d (shape x ! d)"
  let ?rg = "range_scale_at (elem x) (expand (shape x) msk) d (shape x ! d) eps"
  have ne: "0 < shape x ! d" by (rule valid_index_pos [OF i axis_less [OF ax]])
  obtain z sh sc where 1: "minmax1_scaler x msk eps dm = Inr (z, sh, sc)"
    and sh: "is_tensor sh ((shape x)[d := 1]) ?lo"
    and sc: "is_tensor sc ((shape x)[d := 1]) ?rg"
    and z: "is_tensor z (shape x)
             (\<lambda>i. map_option (\<lambda>u. u * 2 - 1) (fdiv (elem x i - ?lo i) (?rg i)))"
    using minmax1_scaler_returns [OF bc ax ne, of eps] by blast
  obtain k where k: "k < shape x ! d" "expand (shape x) msk (i[d := k])"
    using hv by (rule has_validE)
  have nz: "?rg i \<noteq> 0"
    using range_scale_at_pos [where k = k and M = "expand (shape x) msk" and g = "elem x"
        and n = "shape x ! d" and d = d and i = i and eps = eps] k eps by simp
  have "is_tensor (lift1 (map_option (\<lambda>u. (u + 1) / 2)) z) (shape x)
      (\<lambda>i. map_option (\<lambda>u. (u + 1) / 2)
         (map_option (\<lambda>u. u * 2 - 1) (fdiv (elem x i - ?lo i) (?rg i))))"
    by (rule is_tensor_lift1 [OF z])
  then have z': "is_tensor (lift1 (map_option (\<lambda>u. (u + 1) / 2)) z) (shape x)
      (\<lambda>i. fdiv (elem x i - ?lo i) (?rg i))"
    by (rule is_tensor_cong) (simp add: option.map_comp comp_def option.map_ident)
  obtain xr where "bindE (lift2 (\<lambda>v r. map_option (\<lambda>u. u * r) v)
        (lift1 (map_option (\<lambda>u. (u + 1) / 2)) z) sc) (\<lambda>t.
           lift2 (\<lambda>v m. map_option (\<lambda>u. u + m) v) t sh) = Inr xr"
      "shape xr = shape x" "elem xr i = Some (elem x i)"
    using affine_roundtrip [OF z' sh sc axis_less [OF ax] _ _ i nz] by auto
  then show ?thesis using 1 by (simp add: inv_minmax1_scaler_def Let_def)
qed

lemma invariant_roundtrip:
  assumes bc: "broadcast_shapes (shape x) (shape msk) = Inr (shape x)"
    and ax: "axis dm (shape x) d" and eps: "0 \<le> eps" and i: "valid_index (shape x) i"
  shows "\<exists>z sh sc xr. invariant_scaler x msk dm eps = Inr (z, sh, sc) \<and>
           inv_invariant_scaler z sh sc = Inr xr \<and> shape xr = shape x \<and>
           elem xr i = Some (elem x i)"
proof -
  let ?med = "masked_median_at (elem x) (expand (shape x) msk) d (shape x ! d)"
  let ?sc = "mad_scale_at (elem x) (expand (shape x) msk) d (shape x ! d) eps"
  have ne: "0 < shape x ! d" by (rule valid_index_pos [OF i axis_less [OF ax]])
  obtain z sh sc where 1: "invariant_scaler x msk dm eps = Inr (z, sh, sc)"
    and sh: "is_tensor sh ((shape x)[d := 1]) ?med"
    and sc: "is_tensor sc ((shape x)[d := 1]) ?sc"
    and z: "is_tensor z (shape x) (\<lambda>i. map_option arsinh (fdiv (elem x i - ?med i) (?sc i)))"
    using invariant_scaler_returns [OF bc ax ne, of eps] by blast
  have nz: "?sc i \<noteq> 0"
    using mad_scale_at_pos [OF eps] by (simp add: less_imp_neq [THEN not_sym])
  have "is_tensor (lift1 (map_option sinh) z) (shape x)
      (\<lambda>i. map_option sinh (map_option arsinh (fdiv (elem x i - ?med i) (?sc i))))"
    by (rule is_tensor_lift1 [OF z])
  then have z': "is_tensor (lift1 (map_option sinh) z) (shape x)
      (\<lambda>i. fdiv (elem x i - ?med i) (?sc i))"
    by (rule is_tensor_cong) (simp add: option.map_comp comp_def option.map_ident)
  obtain xr where "bindE (lift2 (\<lambda>v r. map_option (\<lambda>u. u * r) v)
        (lift1 (map_option sinh) z) sc) (\<lambda>t.
           lift2 (\<lambda>v m. map_option (\<lambda>u. u + m) v) t sh) = Inr xr"
      "shape xr = shape x" "elem xr i = Some (elem x i)"
    using affine_roundtrip [OF z' sh sc axis_less [OF ax] _ _ i nz] by auto
  then show ?thesis using 1 by (simp add: inv_invariant_scaler_def)
qed

lemma identity_roundtrip:
  assumes ax: "axis dm (shape x) d"
  shows "\<exists>z sh sc xr. identity_scaler x msk dm eps = Inr (z, sh, sc) \<and>
           inv_identity_scaler z sh sc = Inr xr \<and> shape xr = shape x \<and>
           elem xr i = Some (elem x i)"
  by (simp add: identity_scaler_returns [OF ax] inv_identity_scaler_def lift1_def)

subsection \<open>The facade\<close>

lemma facade_calls:
  assumes f: "map_of scalers st = Some f" and g: "map_of inverse_scalers st = Some g"
    and fw: "f x msk dm eps = Inr (z, sh, sc)" and bw: "g z sh sc = Inr xr"
  shows "\<exists>self self'. TemporalNorm st dm eps = Inr self \<and>
           transform self x msk = Inr (z, self') \<and>
           inverse_transform self' z None None = Inr xr"
  by (simp add: TemporalNorm_def f g transform_def fw inverse_transform_def getattr_def bw)

lemma registered_roundtrip:
  assumes st: "scaler_type \<in> {None, Some ''identity'', Some ''standard'', Some ''robust'',
        Some ''minmax'', Some ''minmax1'', Some ''invariant''}"
    and eps: "0 \<le> eps"
    and bc: "broadcast_shapes (shape x) (shape msk) = Inr (shape x)"
    and ax: "axis dm (shape x) d"
    and i: "valid_index (shape x) i"
    and hv: "has_valid (shape x) msk d i"
  shows "\<exists>f g z sh sc xr. map_of scalers scaler_type = Some f \<and>
      map_of inverse_scalers scaler_type = Some g \<and>
      f x msk dm eps = Inr (z, sh, sc) \<and> g z sh sc = Inr xr \<and>
      shape xr = shape x \<and> elem xr i = Some (elem x i)"
proof -
  consider "scaler_type = None" | "scaler_type = Some ''identity''"
    | "scaler_type = Some ''standard''" | "scaler_type = Some ''robust''"
    | "scaler_type = Some ''minmax''" | "scaler_type = Some ''minmax1''"
    | "scaler_type = Some ''invariant''"
    using st by (elim insertE emptyE)
  then show ?thesis
  proof cases
    case 1
    then show ?thesis
      using identity_roundtrip [OF ax, of msk eps i]
      by (simp add: scalers_def inverse_scalers_def)
  next
    case 2
    then show ?thesis
      using identity_roundtrip [OF ax, of msk eps i]
      by (simp add: scalers_def inverse_scalers_def)
  next
    case 3
    then show ?thesis
      using std_roundtrip [OF bc ax eps i] by (simp add: scalers_def inverse_scalers_def)
  next
    case 4
    then show ?thesis
      using robust_roundtrip [OF bc ax eps i] by (simp add: scalers_def inverse_scalers_def)
  next
    case 5
    then show ?thesis
      using minmax_roundtrip [OF bc ax eps i hv] by (simp add: scalers_def inverse_scalers_def)
  next
    case 6
    then show ?thesis
      using minmax1_roundtrip [OF bc ax eps i hv] by (simp add: scalers_def inverse_scalers_def)
  next
    case 7
    then show ?thesis
      using invariant_roundtrip [OF bc ax eps i] by (simp add: scalers_def inverse_scalers_def)
  qed
qed

lemma registered_names:
  assumes "map_of scalers scaler_type = Some f"
  shows "scaler_type \<in> {None, Some ''identity'', Some ''standard'', Some ''robust'',
        Some ''minmax'', Some ''minmax1'', Some ''invariant''}"
  using assms by (simp add: scalers_def split: if_splits)

lemma TemporalNorm_InrE:
  assumes "TemporalNorm scaler_type dm eps = Inr self"
  obtains f g where "map_of scalers scaler_type = Some f"
    "map_of inverse_scalers scaler_type = Some g"
    "self = \<lparr>tn_scaler = f, tn_inverse_scaler = g, tn_scaler_type = scaler_type,
             tn_dim = dm, tn_eps = eps, tn_x_shift = None, tn_x_scale = None\<rparr>"
  using assms by (auto simp: TemporalNorm_def split: option.splits)

lemma transform_InrE:
  assumes "transform self x msk = Inr (z, self')"
  obtains sh sc where "tn_scaler self x msk (tn_dim self) (tn_eps self) = Inr (z, sh, sc)"
    "self' = self\<lparr>tn_x_shift := Some sh, tn_x_scale := Some sc\<rparr>"
  using assms by (auto simp: transform_def bindE_def split: sum.splits)

lemma inverse_returns_any:
  assumes g: "map_of inverse_scalers scaler_type = Some g"
    and d: "d < length (shape z)"
    and sh: "shape sh = (shape z)[d := 1]" and sc: "shape sc = (shape z)[d := 1]"
  shows "\<exists>xr. g z sh sc = Inr xr \<and> shape xr = shape z"
proof -
  let ?s = "shape z"
  have aff: "\<exists>xr. bindE (lift2 (\<lambda>v r. map_option (\<lambda>u. u * r) v) z' sc) (\<lambda>t.
           lift2 (\<lambda>v m. map_option (\<lambda>u. u + m) v) t sh) = Inr xr \<and> shape xr = ?s"
    if "shape z' = ?s" for z' :: "real option tensor"
  proof -
    have z': "is_tensor z' ?s (elem z')" using is_tensor_self [of z'] by (simp add: that)
    have sc': "is_tensor sc (?s[d := 1]) (elem sc)" using is_tensor_self [of sc] by (simp add: sc)
    have sh': "is_tensor sh (?s[d := 1]) (elem sh)" using is_tensor_self [of sh] by (simp add: sh)
    obtain t where 1: "lift2 (\<lambda>v r. map_option (\<lambda>u. u * r) v) z' sc = Inr t"
      and t: "is_tensor t ?s (\<lambda>i. map_option (\<lambda>u. u * elem sc (i[d := 0])) (elem z' i))"
      using returns_lift2_keep [OF z' sc' d, of "\<lambda>v r. map_option (\<lambda>u. u * r) v"]
      by (rule returnsE)
    obtain xr where 2: "lift2 (\<lambda>v m. map_option (\<lambda>u. u + m) v) t sh = Inr xr"
      and "shape xr = ?s"
      using returns_lift2_keep [OF t sh' d, of "\<lambda>v m. map_option (\<lambda>u. u + m) v"]
      by (auto elim!: returnsE dest: is_tensor_shape)
    then show ?thesis by (simp add: 1)
  qed
  from g consider "g = inv_identity_scaler" | "g = inv_std_scaler" | "g = inv_robust_scaler"
    | "g = inv_minmax_scaler" | "g = inv_minmax1_scaler" | "g = inv_invariant_scaler"
    by (auto simp: inverse_scalers_def split: if_splits)
  then show ?thesis
  proof cases
    case 1
    then show ?thesis by (simp add: inv_identity_scaler_def)
  next
    case 2
    then show ?thesis using aff [of z] by (simp add: inv_std_scaler_def)
  next
    case 3
    then show ?thesis using aff [of z] by (simp add: inv_robust_scaler_def)
  next
    case 4
    then show ?thesis using aff [of z] by (simp add: inv_minmax_scaler_def)
  next
    case 5
    then show ?thesis
      using aff [of "lift1 (map_option (\<lambda>u. (u + 1) / 2)) z"]
      by (simp add: inv_minmax1_scaler_def Let_def)
  next
    case 6
    then show ?thesis
      using aff [of "lift1 (map_option sinh) z"] by (simp add: inv_invariant_scaler_def)
  qed
qed

subsection \<open>Bounds of the min-max quotient\<close>

lemma guarded_quotient_bounds:
  assumes "0 \<le> a" "a \<le> r" "0 \<le> eps"
  shows "0 \<le> a / guard_scale r eps" "a / guard_scale r eps \<le> 1"
proof -
  have r: "0 \<le> r" using assms by simp
  have pos: "0 < guard_scale r eps" by (rule guard_scale_pos [OF r assms(3)])
  show "0 \<le> a / guard_scale r eps" using assms(1) pos by simp
  have "a \<le> guard_scale r eps" using assms by (simp add: guard_scale_def)
  then show "a / guard_scale r eps \<le> 1" using pos by simp
qed

lemma doubled_bounds:
  fixes q :: real
  assumes "0 \<le> q" "q \<le> 1"
  shows "- 1 \<le> q * 2 - 1 \<and> q * 2 - 1 \<le> 1"
  using assms by simp

lemma valid_position_bounds:
  assumes ax: "axis dm s d" and i: "valid_index s i" and m: "M i"
  shows "shifted_min_at g M d (s ! d) i \<le> g i" "g i \<le> shifted_max_at g M d (s ! d) i"
proof -
  have d: "d < length s" by (rule axis_less [OF ax])
  have k: "i ! d < s ! d" by (rule valid_index_nth [OF i d])
  have "i[d := i ! d] = i" by simp
  with shifted_bounds [where k = "i ! d" and n = "s ! d" and M = M and i = i and d = d and g = g] k m
  show "shifted_min_at g M d (s ! d) i \<le> g i" "g i \<le> shifted_max_at g M d (s ! d) i"
    by simp_all
qed

subsection \<open>The scalers at a position\<close>

lemma at_Inr [simp]:
  "scaled_at (Inr (z, sh, sc)) i = Inr (elem z i)"
  "shift_at (Inr (z, sh, sc)) i = Inr (elem sh i)"
  "scale_at (Inr (z, sh, sc)) i = Inr (elem sc i)"
  by (simp_all add: scaled_at_def shift_at_def scale_at_def)

text \<open>The result of each scaler at a position \<open>i\<close> and at the index \<open>i[d := 0]\<close> of its
  statistics.\<close>

lemma std_scaler_at:
  assumes bc: "broadcast_shapes (shape x) (shape msk) = Inr (shape x)"
    and ax: "axis dm (shape x) d" and i: "valid_index (shape x) i"
  shows "\<exists>z sh sc. std_scaler x msk dm eps = Inr (z, sh, sc) \<and>
           shape z = shape x \<and> shape sh = (shape x)[d := 1] \<and> shape sc = (shape x)[d := 1] \<and>
           elem sh (i[d := 0]) = masked_mean_at (elem x) (expand (shape x) msk) d (shape x ! d) i \<and>
           elem sc (i[d := 0]) =
             guard_scale (masked_std_at (elem x) (expand (shape x) msk) d (shape x ! d) i) eps \<and>
           elem z i =
             fdiv (elem x i - masked_mean_at (elem x) (expand (shape x) msk) d (shape x ! d) i)
               (guard_scale (masked_std_at (elem x) (expand (shape x) msk) d (shape x ! d) i) eps)"
proof -
  have j: "valid_index ((shape x)[d := 1]) (i[d := 0])"
    by (rule valid_keep [OF i axis_less [OF ax]])
  obtain z sh sc where "std_scaler x msk dm eps = Inr (z, sh, sc)"
    and sh: "is_tensor sh ((shape x)[d := 1])
             (masked_mean_at (elem x) (expand (shape x) msk) d (shape x ! d))"
    and sc: "is_tensor sc ((shape x)[d := 1])
             (\<lambda>i. guard_scale (masked_std_at (elem x) (expand (shape x) msk) d (shape x ! d) i) eps)"
    and z: "is_tensor z (shape x)
             (\<lambda>i. fdiv (elem x i - masked_mean_at (elem x) (expand (shape x) msk) d (shape x ! d) i)
                    (guard_scale (masked_std_at (elem x) (expand (shape x) msk) d (shape x ! d) i) eps))"
    using std_scaler_returns [OF bc ax, of eps] by blast
  then show ?thesis
    using is_tensor_elem [OF sh j] is_tensor_elem [OF sc j] is_tensor_elem [OF z i]
      is_tensor_shape [OF sh] is_tensor_shape [OF sc] is_tensor_shape [OF z]
    by simp
qed

lemma robust_scaler_at:
  assumes bc: "broadcast_shapes (shape x) (shape msk) = Inr (shape x)"
    and ax: "axis dm (shape x) d" and i: "valid_index (shape x) i"
  shows "\<exists>z sh sc. robust_scaler x msk dm eps = Inr (z, sh, sc) \<and>
           shape z = shape x \<and> shape sh = (shape x)[d := 1] \<and> shape sc = (shape x)[d := 1] \<and>
           elem sh (i[d := 0]) = masked_median_at (elem x) (expand (shape x) msk) d (shape x ! d) i \<and>
           elem sc (i[d := 0]) = mad_scale_at (elem x) (expand (shape x) msk) d (shape x ! d) eps i \<and>
           elem z i =
             fdiv (elem x i - masked_median_at (elem x) (expand (shape x) msk) d (shape x ! d) i)
               (mad_scale_at (elem x) (expand (shape x) msk) d (shape x ! d) eps i)"
proof -
  have j: "valid_index ((shape x)[d := 1]) (i[d := 0])"
    by (rule valid_keep [OF i axis_less [OF ax]])
  have ne: "0 < shape x ! d" by (rule valid_index_pos [OF i axis_less [OF ax]])
  obtain z sh sc where "robust_scaler x msk dm eps = Inr (z, sh, sc)"
    and sh: "is_tensor sh ((shape x)[d := 1])
             (masked_median_at (elem x) (expand (shape x) msk) d (shape x ! d))"
    and sc: "is_tensor sc ((shape x)[d := 1])
             (mad_scale_at (elem x) (expand (shape x) msk) d (shape x ! d) eps)"
    and z: "is_tensor z (shape x)
             (\<lambda>i. fdiv (elem x i - masked_median_at (elem x) (expand (shape x) msk) d (shape x ! d) i)
                    (mad_scale_at (elem x) (expand (shape x) msk) d (shape x ! d) eps i))"
    using robust_scaler_returns [OF bc ax ne, of eps] by blast
  then show ?thesis
    using is_tensor_elem [OF sh j] is_tensor_elem [OF sc j] is_tensor_elem [OF z i]
      is_tensor_shape [OF sh] is_tensor_shape [OF sc] is_tensor_shape [OF z]
    by simp
qed

lemma invariant_scaler_at:
  assumes bc: "broadcast_shapes (shape x) (shape msk) = Inr (shape x)"
    and ax: "axis dm (shape x) d" and i: "valid_index (shape x) i"
  shows "\<exists>z sh sc. invariant_scaler x msk dm eps = Inr (z, sh, sc) \<and>
           shape z = shape x \<and> shape sh = (shape x)[d := 1] \<and> shape sc = (shape x)[d := 1] \<and>
           elem sh (i[d := 0]) = masked_median_at (elem x) (expand (shape x) msk) d (shape x ! d) i \<and>
           elem sc (i[d := 0]) = mad_scale_at (elem x) (expand (shape x) msk) d (shape x ! d) eps i \<and>
           elem z i = map_option arsinh
             (fdiv (elem x i - masked_median_at (elem x) (expand (shape x) msk) d (shape x ! d) i)
               (mad_scale_at (elem x) (expand (shape x) msk) d (shape x ! d) eps i))"
proof -
  have j: "valid_index ((shape x)[d := 1]) (i[d := 0])"
    by (rule valid_keep [OF i axis_less [OF ax]])
  have ne: "0 < shape x ! d" by (rule valid_index_pos [OF i axis_less [OF ax]])
  obtain z sh sc where "invariant_scaler x msk dm eps = Inr (z, sh, sc)"
    and sh: "is_tensor sh ((shape x)[d := 1])
             (masked_median_at (elem x) (expand (shape x) msk) d (shape x ! d))"
    and sc: "is_tensor sc ((shape x)[d := 1])
             (mad_scale_at (elem x) (expand (shape x) msk) d (shape x ! d) eps)"
    and z: "is_tensor z (shape x)
             (\<lambda>i. map_option arsinh
                (fdiv (elem x i - masked_median_at (elem x) (expand (shape x) msk) d (shape x ! d) i)
                    (mad_scale_at (elem x) (expand (shape x) msk) d (shape x ! d) eps i)))"
    using invariant_scaler_returns [OF bc ax ne, of eps] by blast
  then show ?thesis
    using is_tensor_elem [OF sh j] is_tensor_elem [OF sc j] is_tensor_elem [OF z i]
      is_tensor_shape [OF sh] is_tensor_shape [OF sc] is_tensor_shape [OF z]
    by simp
qed

lemma minmax_scaler_at:
  assumes bc: "broadcast_shapes (shape x) (shape msk) = Inr (shape x)"
    and ax: "axis dm (shape x) d" and i: "valid_index (shape x) i"
  shows "\<exists>z sh sc. minmax_scaler x msk eps dm = Inr (z, sh, sc) \<and>
           shape z = shape x \<and> shape sh = (shape x)[d := 1] \<and> shape sc = (shape x)[d := 1] \<and>
           elem sh (i[d := 0]) = shifted_min_at (elem x) (expand (shape x) msk) d (shape x ! d) i \<and>
           elem sc (i[d := 0]) = range_scale_at (elem x) (expand (shape x) msk) d (shape x ! d) eps i \<and>
           elem z i =
             fdiv (elem x i - shifted_min_at (elem x) (expand (shape x) msk) d (shape x ! d) i)
               (range_scale_at (elem x) (expand (shape x) msk) d (shape x ! d) eps i)"
proof -
  have j: "valid_index ((shape x)[d := 1]) (i[d := 0])"
    by (rule valid_keep [OF i axis_less [OF ax]])
  have ne: "0 < shape x ! d" by (rule valid_index_pos [OF i axis_less [OF ax]])
  obtain z sh sc where "minmax_scaler x msk eps dm = Inr (z, sh, sc)"
    and sh: "is_tensor sh ((shape x)[d := 1])
             (shifted_min_at (elem x) (expand (shape x) msk) d (shape x ! d))"
    and sc: "is_tensor sc ((shape x)[d := 1])
             (range_scale_at (elem x) (expand (shape x) msk) d (shape x ! d) eps)"
    and z: "is_tensor z (shape x)
             (\<lambda>i. fdiv (elem x i - shifted_min_at (elem x) (expand (shape x) msk) d (shape x ! d) i)
                    (range_scale_at (elem x) (expand (shape x) msk) d (shape x ! d) eps i))"
    using minmax_scaler_returns [OF bc ax ne, of eps] by blast
  then show ?thesis
    using is_tensor_elem [OF sh j] is_tensor_elem [OF sc j] is_tensor_elem [OF z i]
      is_tensor_shape [OF sh] is_tensor_shape [OF sc] is_tensor_shape [OF z]
    by simp
qed

lemma minmax1_scaler_at:
  assumes bc: "broadcast_shapes (shape x) (shape msk) = Inr (shape x)"
    and ax: "axis dm (shape x) d" and i: "valid_index (shape x) i"
  shows "\<exists>z sh sc. minmax1_scaler x msk eps dm = Inr (z, sh, sc) \<and>
           shape z = shape x \<and> shape sh = (shape x)[d := 1] \<and> shape sc = (shape x)[d := 1] \<and>
           elem sh (i[d := 0]) = shifted_min_at (elem x) (expand (shape x) msk) d (shape x ! d) i \<and>
           elem sc (i[d := 0]) = range_scale_at (elem x) (expand (shape x) msk) d (shape x ! d) eps i \<and>
           elem z i = map_option (\<lambda>u. u * 2 - 1)
             (fdiv (elem x i - shifted_min_at (elem x) (expand (shape x) msk) d (shape x ! d) i)
               (range_scale_at (elem x) (expand (shape x) msk) d (shape x ! d) eps i))"
proof -
  have j: "valid_index ((shape x)[d := 1]) (i[d := 0])"
    by (rule valid_keep [OF i axis_less [OF ax]])
  have ne: "0 < shape x ! d" by (rule valid_index_pos [OF i axis_less [OF ax]])
  obtain z sh sc where "minmax1_scaler x msk eps dm = Inr (z, sh, sc)"
    and sh: "is_tensor sh ((shape x)[d := 1])
             (shifted_min_at (elem x) (expand (shape x) msk) d (shape x ! d))"
    and sc: "is_tensor sc ((shape x)[d := 1])
             (range_scale_at (elem x) (expand (shape x) msk) d (shape x ! d) eps)"
    and z: "is_tensor z (shape x)
             (\<lambda>i. map_option (\<lambda>u. u * 2 - 1)
                (fdiv (elem x i - shifted_min_at (elem x) (expand (shape x) msk) d (shape x ! d) i)
                    (range_scale_at (elem x) (expand (shape x) msk) d (shape x ! d) eps i)))"
    using minmax1_scaler_returns [OF bc ax ne, of eps] by blast
  then show ?thesis
    using is_tensor_elem [OF sh j] is_tensor_elem [OF sc j] is_tensor_elem [OF z i]
      is_tensor_shape [OF sh] is_tensor_shape [OF sc] is_tensor_shape [OF z]
    by simp
qed

lemma range_scale_at_ge:
  assumes "k < n" "M (i[d := k])"
  shows "eps \<le> range_scale_at g M d n eps i"
  unfolding range_scale_at_def
  using shifted_bounds [where k = k and n = n and M = M and i = i and d = d and g = g] assms
  by (intro guard_scale_ge) auto

lemma mad_scale_at_ge: "eps \<le> mad_scale_at g M d n eps i"
  unfolding mad_scale_at_def
  by (intro guard_scale_ge mad_or_std_nonneg median_abs_dev_at_nonneg masked_std_at_nonneg)

lemma fdiv_Some: "b \<noteq> 0 \<Longrightarrow> \<exists>v. fdiv a b = Some v"
  by (simp add: fdiv_def)

subsection \<open>Degenerate slices\<close>

lemma all_equalD: "all_equal vs \<Longrightarrow> v \<in> set vs \<Longrightarrow> w \<in> set vs \<Longrightarrow> v = w"
proof (cases vs)
  case Nil
  then show "all_equal vs \<Longrightarrow> v \<in> set vs \<Longrightarrow> w \<in> set vs \<Longrightarrow> v = w" by simp
next
  case (Cons a ws)
  assume "all_equal vs" "v \<in> set vs" "w \<in> set vs"
  with Cons have "v = a" "w = a" by (auto simp: all_equal_def list_all_iff)
  then show "v = w" by simp
qed

lemma slice_centered:
  assumes "\<And>k. c (i[d := k]) = c i"
  shows "slice (\<lambda>i'. f (g i') (c i')) d n i = map (\<lambda>v. f v (c i)) (slice g d n i)"
  by (simp add: slice_def assms)

lemma masked_std_at_alt:
  "masked_std_at g M d n i =
     sqrt (mean_list (map (\<lambda>v. (v - mean_list (valid_vals (slice g d n i) (slice M d n i))) ^ 2)
       (valid_vals (slice g d n i) (slice M d n i))))"
proof -
  have "slice (\<lambda>i'. (g i' - masked_mean_at g M d n i') ^ 2) d n i =
      map (\<lambda>v. (v - masked_mean_at g M d n i) ^ 2) (slice g d n i)"
    by (rule slice_centered [where f = "\<lambda>v c. (v - c) ^ 2"]) simp
  then show ?thesis
    by (simp add: masked_std_at_def masked_mean_at_def valid_vals_map)
qed

lemma median_abs_dev_at_alt:
  "median_abs_dev_at g M d n i =
     lower_median (map (\<lambda>v. \<bar>v - lower_median (valid_vals (slice g d n i) (slice M d n i))\<bar>)
       (valid_vals (slice g d n i) (slice M d n i)))"
proof -
  have "slice (\<lambda>i'. \<bar>g i' - masked_median_at g M d n i'\<bar>) d n i =
      map (\<lambda>v. \<bar>v - masked_median_at g M d n i\<bar>) (slice g d n i)"
    by (rule slice_centered [where f = "\<lambda>v c. \<bar>v - c\<bar>"]) simp
  then show ?thesis
    by (simp add: median_abs_dev_at_def masked_median_at_def valid_vals_map)
qed

lemma mean_abs_dev_at_alt:
  "mean_abs_dev_at g M d n i =
     mean_list (map (\<lambda>v. \<bar>v - lower_median (valid_vals (slice g d n i) (slice M d n i))\<bar>)
       (valid_vals (slice g d n i) (slice M d n i)))"
proof -
  have "slice (\<lambda>i'. \<bar>g i' - masked_median_at g M d n i'\<bar>) d n i =
      map (\<lambda>v. \<bar>v - masked_median_at g M d n i\<bar>) (slice g d n i)"
    by (rule slice_centered [where f = "\<lambda>v c. \<bar>v - c\<bar>"]) simp
  then show ?thesis
    by (simp add: mean_abs_dev_at_def masked_mean_at_def masked_median_at_def valid_vals_map)
qed

lemma std_zero_of_equal:
  assumes "all_equal (valid_vals (slice g d n i) (slice M d n i))"
  shows "masked_std_at g M d n i = 0"
proof -
  let ?vs = "valid_vals (slice g d n i) (slice M d n i)"
  have "mean_list (map (\<lambda>v. (v - mean_list ?vs) ^ 2) ?vs) = 0"
  proof (rule mean_list_zero)
    fix u assume "u \<in> set (map (\<lambda>v. (v - mean_list ?vs) ^ 2) ?vs)"
    then obtain v where v: "v \<in> set ?vs" "u = (v - mean_list ?vs) ^ 2" by auto
    then have ne: "?vs \<noteq> []" by auto
    have "mean_list ?vs = v"
      by (rule mean_list_const [OF _ ne]) (rule all_equalD [OF assms _ v(1)])
    with v show "u = 0" by simp
  qed
  then show ?thesis by (simp add: masked_std_at_alt)
qed

lemma mean_list_zero_iff:
  assumes "\<And>v. v \<in> set vs \<Longrightarrow> 0 \<le> v" "mean_list vs = 0" "v \<in> set vs"
  shows "v = 0"
proof -
  from assms(3) have ne: "vs \<noteq> []" by auto
  with assms(2) have "sum_list vs = 0" by (simp add: mean_list_def)
  then show ?thesis
    using sum_list_nonneg_eq_0_iff [of vs] assms(1,3) by auto
qed

lemma median_dev_zero_of_mean_dev_zero:
  assumes "mean_abs_dev_at g M d n i = 0"
  shows "median_abs_dev_at g M d n i = 0"
proof -
  let ?vs = "valid_vals (slice g d n i) (slice M d n i)"
  let ?ds = "map (\<lambda>v. \<bar>v - lower_median ?vs\<bar>) ?vs"
  have z: "mean_list ?ds = 0" using assms by (simp add: mean_abs_dev_at_alt)
  have "lower_median ?ds = 0"
  proof (cases "?ds = []")
    case True
    then show ?thesis by (simp add: lower_median_def)
  next
    case False
    show ?thesis
    proof (rule lower_median_const [OF _ False])
      fix u assume "u \<in> set ?ds"
      then show "u = 0" by (intro mean_list_zero_iff [OF _ z]) auto
    qed
  qed
  then show ?thesis by (simp add: median_abs_dev_at_alt)
qed

lemma mad_scale_at_zero_mad:
  assumes "median_abs_dev_at g M d n i = 0"
  shows "mad_scale_at g M d n eps i =
     (if masked_std_at g M d n i * 0.6744897501960817 = 0 then 1
      else masked_std_at g M d n i * 0.6744897501960817) + eps"
  by (simp add: mad_scale_at_def mad_or_std_def guard_scale_def assms)

subsection \<open>Reductions with the axis kept or removed\<close>

lemma valid_along_drop:
  assumes j: "valid_index (take d s @ drop (Suc d) s) j" and d: "d < length s" and k: "k < s ! d"
  shows "valid_index s (take d j @ k # drop d j)"
proof -
  from j obtain us vs where jj: "j = us @ vs" and lu: "length us = length (take d s)"
    and us: "list_all2 (\<lambda>k n. k < n) us (take d s)"
    and vs: "list_all2 (\<lambda>k n. k < n) vs (drop (Suc d) s)"
    unfolding valid_index_def list_all2_append2 by blast
  from lu d have lu': "length us = d" by simp
  then have td: "take d j = us" "drop d j = vs" by (simp_all add: jj)
  have "list_all2 (\<lambda>k n. k < n) (us @ k # vs) (take d s @ s ! d # drop (Suc d) s)"
    using us vs k by (intro list_all2_appendI) simp_all
  then show ?thesis
    unfolding valid_index_def td using id_take_nth_drop [OF d] by simp
qed

lemma valid_along:
  assumes "valid_index (reduced_shape s d keepdim) j" "d < length s" "k < s ! d"
  shows "valid_index s (along s d keepdim j k)"
proof (cases keepdim)
  case True
  then show ?thesis
    using valid_along_keep [of s d j k] assms by (auto simp: reduced_shape_def along_def)
next
  case False
  then show ?thesis
    using valid_along_drop [of d s j k] assms by (auto simp: reduced_shape_def along_def)
qed

lemma reduce_dim_axis:
  assumes ax: "axis dm (shape t) d" and ne: "nonempty \<Longrightarrow> 0 < shape t ! d"
  shows "reduce_dim nonempty f t dm keepdim =
      Inr (Tensor (reduced_shape (shape t) d keepdim)
        (\<lambda>j. f (map (\<lambda>k. elem t (along (shape t) d keepdim j k)) [0..<shape t ! d])))"
  using ne axis_less [OF ax]
  by (auto simp: reduce_dim_def wrap_dim_axis [OF ax] dim_size_def Let_def)

lemma masked_fill_elem:
  assumes bc: "broadcast_shapes (shape x) (shape msk) = Inr (shape x)"
  shows "\<exists>xn. masked_fill_nan x (lift1 (\<lambda>m. (of_bool m :: real) < 1) msk) = Inr xn \<and>
    shape xn = shape x \<and>
    (\<forall>i. valid_index (shape x) i \<longrightarrow>
        elem xn i = (if expand (shape x) msk i then Some (elem x i) else None))"
proof -
  obtain xn where a: "masked_fill_nan x (lift1 (\<lambda>m. (of_bool m :: real) < 1) msk) = Inr xn"
    and t: "is_tensor xn (shape x) (\<lambda>i. if expand (shape x) msk i then Some (elem x i) else None)"
    using returns_masked_fill [OF is_tensor_self bc] by (rule returnsE)
  from a t show ?thesis unfolding is_tensor_def by blast
qed

lemma filled_slice:
  assumes xn: "\<And>i. valid_index s i \<Longrightarrow> elem xn i = (if M i then Some (g i) else None)"
    and j: "valid_index (reduced_shape s d keepdim) j" and d: "d < length s"
  shows "map (\<lambda>k. elem xn (along s d keepdim j k)) [0..<s ! d] =
      map (\<lambda>k. if M (along s d keepdim j k) then Some (g (along s d keepdim j k)) else None)
        [0..<s ! d]"
  by (rule map_cong [OF refl]) (simp add: xn valid_along [OF j d])

lemma masked_mean_at_index:
  assumes bc: "broadcast_shapes (shape x) (shape msk) = Inr (shape x)"
    and ax: "axis dm (shape x) d"
    and j: "valid_index (reduced_shape (shape x) d keepdim) j"
  shows "\<exists>t. masked_mean x msk dm keepdim = Inr t \<and>
           shape t = reduced_shape (shape x) d keepdim \<and>
           elem t j = mean_list (reduced_vals x msk d keepdim j)"
proof -
  obtain xn where 1: "masked_fill_nan x (lift1 (\<lambda>m. (of_bool m :: real) < 1) msk) = Inr xn"
    and s: "shape xn = shape x"
    and e: "\<And>i. valid_index (shape x) i \<Longrightarrow>
        elem xn i = (if expand (shape x) msk i then Some (elem x i) else None)"
    using masked_fill_elem [OF bc] by blast
  have ax': "axis dm (shape xn) d" using ax by (simp add: s)
  have 2: "nanmean xn dm keepdim =
      Inr (Tensor (reduced_shape (shape x) d keepdim)
        (\<lambda>j. nanmean_list (map (\<lambda>k. elem xn (along (shape x) d keepdim j k)) [0..<shape x ! d])))"
    unfolding nanmean_def using reduce_dim_axis [OF ax', of False nanmean_list keepdim]
    by (simp add: s)
  show ?thesis
    by (simp only: masked_mean_def 1 2 bindE_Inr)
      (simp add: lift1_def filled_slice [OF e j axis_less [OF ax]] nanmean_fill reduced_vals_def)
qed

lemma masked_median_at_index:
  assumes bc: "broadcast_shapes (shape x) (shape msk) = Inr (shape x)"
    and ax: "axis dm (shape x) d" and ne: "0 < shape x ! d"
    and j: "valid_index (reduced_shape (shape x) d keepdim) j"
  shows "\<exists>t. masked_median x msk dm keepdim = Inr t \<and>
           shape t = reduced_shape (shape x) d keepdim \<and>
           elem t j = lower_median (reduced_vals x msk d keepdim j)"
proof -
  obtain xn where 1: "masked_fill_nan x (lift1 (\<lambda>m. (of_bool m :: real) < 1) msk) = Inr xn"
    and s: "shape xn = shape x"
    and e: "\<And>i. valid_index (shape x) i \<Longrightarrow>
        elem xn i = (if expand (shape x) msk i then Some (elem x i) else None)"
    using masked_fill_elem [OF bc] by blast
  have ax': "axis dm (shape xn) d" using ax by (simp add: s)
  have 2: "nanmedian xn dm keepdim =
      Inr (Tensor (reduced_shape (shape x) d keepdim)
        (\<lambda>j. nanmedian_list (map (\<lambda>k. elem xn (along (shape x) d keepdim j k)) [0..<shape x ! d])))"
    unfolding nanmedian_def using reduce_dim_axis [OF ax', of True nanmedian_list keepdim] ne
    by (simp add: s)
  show ?thesis
    by (simp only: masked_median_def 1 2 bindE_Inr)
      (simp add: lift1_def filled_slice [OF e j axis_less [OF ax]] nanmedian_fill reduced_vals_def)
qed

lemma masked_median_empty_axis:
  assumes bc: "broadcast_shapes (shape x) (shape msk) = Inr (shape x)"
    and ax: "axis dm (shape x) d" and ne: "shape x ! d = 0"
  shows "masked_median x msk dm keepdim = Inl IndexError"
proof -
  obtain xn where 1: "masked_fill_nan x (lift1 (\<lambda>m. (of_bool m :: real) < 1) msk) = Inr xn"
    and s: "shape xn = shape x"
    using masked_fill_elem [OF bc] by blast
  have "nanmedian xn dm keepdim = Inl IndexError"
    using ne axis_less [OF ax]
    by (simp add: nanmedian_def reduce_dim_def s wrap_dim_axis [OF ax] dim_size_def)
  then show ?thesis by (simp only: masked_median_def 1 bindE_Inr bindE_Inl)
qed

lemma reduced_vals_nonempty:
  assumes "reduced_vals x msk d keepdim j \<noteq> []"
  shows "0 < shape x ! d"
proof (rule ccontr)
  assume "\<not> 0 < shape x ! d"
  then have "reduced_vals x msk d keepdim j = []" by (simp add: reduced_vals_def)
  with assms show False by simp
qed

subsection \<open>Inputs that agree at the valid positions\<close>

lemma agree_valid_vals:
  assumes "agree_on_valid g g' M d n i"
  shows "valid_vals (slice g d n i) (slice M d n i) = valid_vals (slice g' d n i) (slice M d n i)"
  using assms by (intro valid_vals_cong) (simp_all add: agree_on_valid_def list_all_iff)

lemma masked_mean_at_alt:
  "masked_mean_at g M d n i = mean_list (valid_vals (slice g d n i) (slice M d n i))"
  by (simp add: masked_mean_at_def)

lemma masked_median_at_alt:
  "masked_median_at g M d n i = lower_median (valid_vals (slice g d n i) (slice M d n i))"
  by (simp add: masked_median_at_def)

lemma agree_statistics:
  assumes "agree_on_valid g g' M d n i"
  shows "masked_mean_at g M d n i = masked_mean_at g' M d n i"
    and "masked_median_at g M d n i = masked_median_at g' M d n i"
    and "masked_std_at g M d n i = masked_std_at g' M d n i"
    and "mad_scale_at g M d n eps i = mad_scale_at g' M d n eps i"
  unfolding mad_scale_at_def masked_mean_at_alt masked_median_at_alt masked_std_at_alt
    median_abs_dev_at_alt agree_valid_vals [OF assms]
  by simp_all

lemma set_valid_slice:
  "set (valid_vals (slice g d n i) (slice M d n i)) = {g (i[d := k]) | k. k < n \<and> M (i[d := k])}"
  using set_valid_vals [of "slice g d n i" "slice M d n i"] by auto

lemma shifted_max_valid:
  assumes safe: "sentinel_safe g M d n i" and n: "0 < n"
  shows "shifted_max_at g M d n i = Max (set (valid_vals (slice g d n i) (slice M d n i)))"
proof -
  let ?S = "slice (\<lambda>i'. g i' + of_bool (\<not> M i') * (- 999999995904)) d n i"
  let ?V = "set (valid_vals (slice g d n i) (slice M d n i))"
  have S_ne: "?S \<noteq> []" using n by (simp add: slice_def)
  have bound: "\<exists>w \<in> ?V. a \<le> w" if "a \<in> set ?S" for a
  proof -
    from that obtain k where k: "k < n" "a = g (i[d := k]) + of_bool (\<not> M (i[d := k])) * (- 999999995904)"
      by (rule in_sliceE)
    show ?thesis
    proof (cases "M (i[d := k])")
      case True
      with k show ?thesis unfolding set_valid_slice by auto
    next
      case False
      with safe k(1) obtain k' where "k' < n" "M (i[d := k'])"
        "g (i[d := k]) - 999999995904 \<le> g (i[d := k'])"
        by (auto simp: sentinel_safe_def list_all_iff list_ex_iff)
      with k False show ?thesis unfolding set_valid_slice by auto
    qed
  qed
  have V_ne: "?V \<noteq> {}" using bound [of "hd ?S"] S_ne by auto
  have sub: "?V \<subseteq> set ?S"
    unfolding set_valid_slice by (auto simp: slice_def image_iff intro!: bexI)
  have "Max (set ?S) = Max ?V"
  proof (rule antisym)
    show "Max (set ?S) \<le> Max ?V"
    proof (rule Max.boundedI)
      fix a assume "a \<in> set ?S"
      then obtain w where "w \<in> ?V" "a \<le> w" using bound by blast
      moreover from this have "w \<le> Max ?V" by (intro Max_ge) simp_all
      ultimately show "a \<le> Max ?V" by linarith
    qed (use S_ne in simp_all)
    show "Max ?V \<le> Max (set ?S)" by (rule Max_mono [OF sub V_ne]) simp
  qed
  then show ?thesis unfolding shifted_max_at_def max_list_eq_Max [OF S_ne] .
qed

lemma shifted_min_valid:
  assumes safe: "sentinel_safe g M d n i" and n: "0 < n"
  shows "shifted_min_at g M d n i = Min (set (valid_vals (slice g d n i) (slice M d n i)))"
proof -
  let ?S = "slice (\<lambda>i'. g i' + of_bool (\<not> M i') * 999999995904) d n i"
  let ?V = "set (valid_vals (slice g d n i) (slice M d n i))"
  have S_ne: "?S \<noteq> []" using n by (simp add: slice_def)
  have bound: "\<exists>w \<in> ?V. w \<le> a" if "a \<in> set ?S" for a
  proof -
    from that obtain k where k: "k < n" "a = g (i[d := k]) + of_bool (\<not> M (i[d := k])) * 999999995904"
      by (rule in_sliceE)
    show ?thesis
    proof (cases "M (i[d := k])")
      case True
      with k show ?thesis unfolding set_valid_slice by auto
    next
      case False
      with safe k(1) obtain k' where "k' < n" "M (i[d := k'])"
        "g (i[d := k']) \<le> g (i[d := k]) + 999999995904"
        by (auto simp: sentinel_safe_def list_all_iff list_ex_iff)
      with k False show ?thesis unfolding set_valid_slice by auto
    qed
  qed
  have V_ne: "?V \<noteq> {}" using bound [of "hd ?S"] S_ne by auto
  have sub: "?V \<subseteq> set ?S"
    unfolding set_valid_slice by (auto simp: slice_def image_iff intro!: bexI)
  have "Min (set ?S) = Min ?V"
  proof (rule antisym)
    show "Min ?V \<le> Min (set ?S)"
    proof (rule Min.boundedI)
      fix a assume "a \<in> set ?S"
      then obtain w where "w \<in> ?V" "w \<le> a" using bound by blast
      moreover from this have "Min ?V \<le> w" by (intro Min_le) simp_all
      ultimately show "Min ?V \<le> a" by linarith
    qed (use S_ne in simp_all)
    show "Min (set ?S) \<le> Min ?V" by (rule Min_antimono [OF sub V_ne]) simp
  qed
  then show ?thesis unfolding shifted_min_at_def min_list_eq_Min [OF S_ne] .
qed

lemma agree_extrema:
  assumes agree: "agree_on_valid g g' M d n i"
    and safe: "sentinel_safe g M d n i" and safe': "sentinel_safe g' M d n i" and n: "0 < n"
  shows "shifted_min_at g M d n i = shifted_min_at g' M d n i"
    and "range_scale_at g M d n eps i = range_scale_at g' M d n eps i"
  unfolding range_scale_at_def shifted_max_valid [OF safe n] shifted_max_valid [OF safe' n]
    shifted_min_valid [OF safe n] shifted_min_valid [OF safe' n] agree_valid_vals [OF agree]
  by simp_all

lemma agree_at_position:
  assumes "agree_on_valid g g' M d (s ! d) i" "valid_index s i" "d < length s" "M i"
  shows "g i = g' i"
proof -
  have k: "i ! d < s ! d" by (rule valid_index_nth [OF assms(2,3)])
  have "i[d := i ! d] = i" by simp
  with assms(1,4) k show ?thesis
    by (auto simp: agree_on_valid_def list_all_iff dest!: bspec [where x = "i ! d"])
qed

lemma same_result_atI:
  assumes "r = Inr (z, sh, sc)" "r' = Inr (z', sh', sc')"
    "shape sh' = shape sh" "shape sc' = shape sc"
    "elem sh' (i[d := 0]) = elem sh (i[d := 0])" "elem sc' (i[d := 0]) = elem sc (i[d := 0])"
    "valid \<Longrightarrow> elem z' i = elem z i"
  shows "same_result_at r r' d valid i"
  using assms by (simp add: same_result_at_def)

lemma registered_shapes:
  assumes f: "map_of scalers scaler_type = Some f"
    and bc: "broadcast_shapes (shape x) (shape msk) = Inr (shape x)"
    and ax: "axis dm (shape x) d"
    and i: "valid_index (shape x) i"
    and fw: "f x msk dm eps = Inr (z, sh, sc)"
  shows "shape z = shape x \<and> shape sh = (shape x)[d := 1] \<and> shape sc = (shape x)[d := 1]"
proof -
  from f consider "f = identity_scaler" | "f = std_scaler" | "f = robust_scaler"
    | "f = (\<lambda>x msk dm eps. minmax_scaler x msk eps dm)"
    | "f = (\<lambda>x msk dm eps. minmax1_scaler x msk eps dm)" | "f = invariant_scaler"
    by (auto simp: scalers_def split: if_splits)
  then show ?thesis
  proof cases
    case 1
    then show ?thesis using fw by (auto simp: identity_scaler_returns [OF ax])
  next
    case 2
    then show ?thesis using fw std_scaler_at [OF bc ax i, of eps] by auto
  next
    case 3
    then show ?thesis using fw robust_scaler_at [OF bc ax i, of eps] by auto
  next
    case 4
    then show ?thesis using fw minmax_scaler_at [OF bc ax i, of eps] by auto
  next
    case 5
    then show ?thesis using fw minmax1_scaler_at [OF bc ax i, of eps] by auto
  next
    case 6
    then show ?thesis using fw invariant_scaler_at [OF bc ax i, of eps] by auto
  qed
qed

section \<open>The scalers in exact arithmetic\<close>

text \<open>
  The three statements of this section hold for the formulas of the scalers evaluated with
  exact reals. They say nothing about the rounding or the overflow of single-precision
  floats: there the inverse recovers an entry only up to rounding, the standard deviation
  of equal entries need not be exactly zero (the mean of seven entries 0.1 is not 0.1), and
  the range of a slice can overflow.
\<close>

text \<open>
  For each of the seven scaler types of the facade, an axis of the input, a mask that
  broadcasts to the input and \<open>eps \<ge> 0\<close>: the constructor succeeds, \<^verbatim>\<open>transform\<close> succeeds,
  \<^verbatim>\<open>inverse_transform\<close> on its result with the statistics omitted succeeds and returns a
  tensor of the shape of \<open>x\<close> which, at every position whose slice along the axis holds a
  valid entry, is the entry of \<open>x\<close>, whether the position itself is valid or not.
\<close>

lemma exact_round_trip:
  assumes st: "scaler_type \<in> {None, Some ''identity'', Some ''standard'', Some ''robust'',
        Some ''minmax'', Some ''minmax1'', Some ''invariant''}"
    and eps: "0 \<le> eps"
    and bc: "broadcast_shapes (shape x) (shape msk) = Inr (shape x)"
    and ax: "axis dm (shape x) d"
    and i: "valid_index (shape x) i"
    and hv: "has_valid (shape x) msk d i"
  shows "\<exists>self z self' x_rec.
           TemporalNorm scaler_type dm eps = Inr self \<and>
           transform self x msk = Inr (z, self') \<and>
           inverse_transform self' z None None = Inr x_rec \<and>
           shape x_rec = shape x \<and>
           elem x_rec i = Some (elem x i)"
proof -
  obtain f g z sh sc xr where f: "map_of scalers scaler_type = Some f"
    and g: "map_of inverse_scalers scaler_type = Some g"
    and fw: "f x msk dm eps = Inr (z, sh, sc)" and bw: "g z sh sc = Inr xr"
    and xr: "shape xr = shape x" "elem xr i = Some (elem x i)"
    using registered_roundtrip [OF st eps bc ax i hv] by blast
  from facade_calls [OF f g fw bw] xr show ?thesis by auto
qed

text \<open>
  At a position \<open>i\<close>, for \<open>eps \<ge> 0\<close>: when the valid entries of the slice through \<open>i\<close> are
  all equal, the standard scaler raises nothing, returns the scale \<open>1 + eps\<close> for that slice
  and a finite scaled value at \<open>i\<close>. When the absolute deviations of the slice from its
  median have median 0 (in particular when their mean is 0), the robust and the invariant
  scaler return the scale \<open>std * 0.6744897501960817 + eps\<close>, with \<open>std\<close> the masked standard
  deviation of the slice, and \<open>1 + eps\<close> when that product is 0.
\<close>

lemma exact_degenerate_slice_scale:
  assumes bc: "broadcast_shapes (shape x) (shape msk) = Inr (shape x)"
    and ax: "axis dm (shape x) d"
    and eps: "0 \<le> eps"
    and i: "valid_index (shape x) i"
  shows "(all_equal (valid_vals (slice (elem x) d (shape x ! d) i)
              (slice (expand (shape x) msk) d (shape x ! d) i)) \<longrightarrow>
           (\<exists>z sh sc v. std_scaler x msk dm eps = Inr (z, sh, sc) \<and>
              elem sc (i[d := 0]) = 1 + eps \<and> elem z i = Some v)) \<and>
         (median_abs_dev_at (elem x) (expand (shape x) msk) d (shape x ! d) i = 0 \<or>
          mean_abs_dev_at (elem x) (expand (shape x) msk) d (shape x ! d) i = 0 \<longrightarrow>
           (\<exists>z sh sc. robust_scaler x msk dm eps = Inr (z, sh, sc) \<and>
              elem sc (i[d := 0]) =
                (if masked_std_at (elem x) (expand (shape x) msk) d (shape x ! d) i
                      * 0.6744897501960817 = 0 then 1
                 else masked_std_at (elem x) (expand (shape x) msk) d (shape x ! d) i
                      * 0.6744897501960817) + eps) \<and>
           (\<exists>z sh sc. invariant_scaler x msk dm eps = Inr (z, sh, sc) \<and>
              elem sc (i[d := 0]) =
                (if masked_std_at (elem x) (expand (shape x) msk) d (shape x ! d) i
                      * 0.6744897501960817 = 0 then 1
                 else masked_std_at (elem x) (expand (shape x) msk) d (shape x ! d) i
                      * 0.6744897501960817) + eps))"
proof -
  let ?M = "expand (shape x) msk" and ?n = "shape x ! d"
  have 1: "all_equal (valid_vals (slice (elem x) d ?n i) (slice ?M d ?n i)) \<longrightarrow>
           (\<exists>z sh sc v. std_scaler x msk dm eps = Inr (z, sh, sc) \<and>
              elem sc (i[d := 0]) = 1 + eps \<and> elem z i = Some v)"
  proof
    assume "all_equal (valid_vals (slice (elem x) d ?n i) (slice ?M d ?n i))"
    then have sd: "masked_std_at (elem x) ?M d ?n i = 0" by (rule std_zero_of_equal)
    obtain z sh sc where a: "std_scaler x msk dm eps = Inr (z, sh, sc)"
      "elem sc (i[d := 0]) = guard_scale (masked_std_at (elem x) ?M d ?n i) eps"
      "elem z i = fdiv (elem x i - masked_mean_at (elem x) ?M d ?n i)
               (guard_scale (masked_std_at (elem x) ?M d ?n i) eps)"
      using std_scaler_at [OF bc ax i, of eps] by blast
    have g: "guard_scale (masked_std_at (elem x) ?M d ?n i) eps = 1 + eps"
      by (simp add: sd guard_scale_def)
    have "1 + eps \<noteq> 0" using eps by simp
    then obtain v where "fdiv (elem x i - masked_mean_at (elem x) ?M d ?n i) (1 + eps) = Some v"
      by (auto simp: fdiv_def)
    with a g show "\<exists>z sh sc v. std_scaler x msk dm eps = Inr (z, sh, sc) \<and>
              elem sc (i[d := 0]) = 1 + eps \<and> elem z i = Some v"
      by auto
  qed
  have 2: "median_abs_dev_at (elem x) ?M d ?n i = 0 \<or> mean_abs_dev_at (elem x) ?M d ?n i = 0 \<longrightarrow>
           (\<exists>z sh sc. robust_scaler x msk dm eps = Inr (z, sh, sc) \<and>
              elem sc (i[d := 0]) =
                (if masked_std_at (elem x) ?M d ?n i * 0.6744897501960817 = 0 then 1
                 else masked_std_at (elem x) ?M d ?n i * 0.6744897501960817) + eps) \<and>
           (\<exists>z sh sc. invariant_scaler x msk dm eps = Inr (z, sh, sc) \<and>
              elem sc (i[d := 0]) =
                (if masked_std_at (elem x) ?M d ?n i * 0.6744897501960817 = 0 then 1
                 else masked_std_at (elem x) ?M d ?n i * 0.6744897501960817) + eps)"
  proof
    assume "median_abs_dev_at (elem x) ?M d ?n i = 0 \<or> mean_abs_dev_at (elem x) ?M d ?n i = 0"
    then have "median_abs_dev_at (elem x) ?M d ?n i = 0"
      using median_dev_zero_of_mean_dev_zero by blast
    then have sc: "mad_scale_at (elem x) ?M d ?n eps i =
        (if masked_std_at (elem x) ?M d ?n i * 0.6744897501960817 = 0 then 1
         else masked_std_at (elem x) ?M d ?n i * 0.6744897501960817) + eps"
      by (rule mad_scale_at_zero_mad)
    show "(\<exists>z sh sc. robust_scaler x msk dm eps = Inr (z, sh, sc) \<and>
              elem sc (i[d := 0]) =
                (if masked_std_at (elem x) ?M d ?n i * 0.6744897501960817 = 0 then 1
                 else masked_std_at (elem x) ?M d ?n i * 0.6744897501960817) + eps) \<and>
           (\<exists>z sh sc. invariant_scaler x msk dm eps = Inr (z, sh, sc) \<and>
              elem sc (i[d := 0]) =
                (if masked_std_at (elem x) ?M d ?n i * 0.6744897501960817 = 0 then 1
                 else masked_std_at (elem x) ?M d ?n i * 0.6744897501960817) + eps)"
      using robust_scaler_at [OF bc ax i, of eps] invariant_scaler_at [OF bc ax i, of eps]
      unfolding sc by blast
  qed
  from 1 2 show ?thesis by blast
qed

text \<open>
  For \<open>eps \<ge> 0\<close>, an axis of the input and a mask that broadcasts to the input, the min-max
  scaler returns at every valid position a value in \<open>[0, 1]\<close>, and the min-max-1 scaler a
  value in \<open>[-1, 1]\<close>.
\<close>

lemma exact_minmax_range_bounds:
  assumes bc: "broadcast_shapes (shape x) (shape msk) = Inr (shape x)"
    and ax: "axis dm (shape x) d"
    and eps: "0 \<le> eps"
    and i: "valid_index (shape x) i"
    and m: "expand (shape x) msk i"
  shows "(\<exists>z x_min x_range v. minmax_scaler x msk eps dm = Inr (z, x_min, x_range) \<and>
            elem z i = Some v \<and> 0 \<le> v \<and> v \<le> 1) \<and>
         (\<exists>z x_min x_range v. minmax1_scaler x msk eps dm = Inr (z, x_min, x_range) \<and>
            elem z i = Some v \<and> - 1 \<le> v \<and> v \<le> 1)"
proof -
  let ?M = "expand (shape x) msk"
  let ?lo = "shifted_min_at (elem x) ?M d (shape x ! d)"
  let ?hi = "shifted_max_at (elem x) ?M d (shape x ! d)"
  let ?rg = "range_scale_at (elem x) ?M d (shape x ! d) eps"
  let ?q = "(elem x i - ?lo i) / ?rg i"
  have ne: "0 < shape x ! d" by (rule valid_index_pos [OF i axis_less [OF ax]])
  have lo: "?lo i \<le> elem x i" and hi: "elem x i \<le> ?hi i"
    using valid_position_bounds [OF ax i, of ?M "elem x"] m by simp_all
  have q: "0 \<le> ?q" "?q \<le> 1"
    unfolding range_scale_at_def
    using guarded_quotient_bounds [of "elem x i - ?lo i" "?hi i - ?lo i" eps] lo hi eps
    by simp_all
  have pos: "?rg i \<noteq> 0"
    unfolding range_scale_at_def
    using guard_scale_pos [of "?hi i - ?lo i" eps] lo hi eps by simp
  have div: "fdiv (elem x i - ?lo i) (?rg i) = Some ?q"
    using pos by (simp add: fdiv_def)
  have "\<exists>z x_min x_range v. minmax_scaler x msk eps dm = Inr (z, x_min, x_range) \<and>
            elem z i = Some v \<and> 0 \<le> v \<and> v \<le> 1"
  proof -
    obtain z x_min x_range where 1: "minmax_scaler x msk eps dm = Inr (z, x_min, x_range)"
      and z: "is_tensor z (shape x) (\<lambda>i. fdiv (elem x i - ?lo i) (?rg i))"
      using minmax_scaler_returns [OF bc ax ne, of eps] by blast
    have "elem z i = Some ?q" using is_tensor_elem [OF z i] div by simp
    with 1 q show ?thesis by blast
  qed
  moreover have "\<exists>z x_min x_range v. minmax1_scaler x msk eps dm = Inr (z, x_min, x_range) \<and>
            elem z i = Some v \<and> - 1 \<le> v \<and> v \<le> 1"
  proof -
    obtain z x_min x_range where 1: "minmax1_scaler x msk eps dm = Inr (z, x_min, x_range)"
      and z: "is_tensor z (shape x)
          (\<lambda>i. map_option (\<lambda>u. u * 2 - 1) (fdiv (elem x i - ?lo i) (?rg i)))"
      using minmax1_scaler_returns [OF bc ax ne, of eps] by blast
    have "elem z i = Some (?q * 2 - 1)" using is_tensor_elem [OF z i] div by simp
    moreover have "- 1 \<le> ?q * 2 - 1" "?q * 2 - 1 \<le> 1"
      using doubled_bounds [OF q] by blast+
    ultimately show ?thesis using 1 by blast
  qed
  ultimately show ?thesis by blast
qed

section \<open>The claims\<close>

text \<open>
  C2 (the robust scale statistic). The docstring of the robust scaler gives the scale as the
  mean of the absolute deviations from the median; the code takes their median. On
  \<open>x = [0, 1, 5]\<close> with every entry valid the median is 1, the absolute deviations are
  \<open>[1, 0, 4]\<close>, their mean is \<open>5/3\<close> and their median is 1: both scalers return \<open>1 + eps\<close>.
\<close>

theorem robust_scale_is_median_deviation:
  "scale_at (robust_scaler (vec [0, 1, 5]) (vec [True, True, True]) (- 1) (1 / 1000000)) [0] =
     Inr (1 + 1 / 1000000) \<and>
   scale_at (invariant_scaler (vec [0, 1, 5]) (vec [True, True, True]) (- 1) (1 / 1000000)) [0] =
     Inr (1 + 1 / 1000000) \<and>
   mean_abs_dev_at (elem (vec [0, 1, 5])) (expand [3] (vec [True, True, True])) 0 3 [0] = 5 / 3 \<and>
   median_abs_dev_at (elem (vec [0, 1, 5])) (expand [3] (vec [True, True, True])) 0 3 [0] = 1"
proof -
  let ?x = "vec [0, 1, 5 :: real]" and ?m = "vec [True, True, True]"
  have shp: "shape ?x = [3]" by (simp add: vec_def)
  have bc: "broadcast_shapes (shape ?x) (shape ?m) = Inr (shape ?x)"
    by (simp add: vec_def)
  have ax: "axis (- 1) (shape ?x) 0"
    by (simp add: vec_def axis_def wrap_dim_def)
  have i: "valid_index (shape ?x) [0]"
    by (simp add: vec_def valid_index_def)
  have vs: "valid_vals (slice (elem ?x) 0 3 [0]) (slice (expand [3] ?m) 0 3 [0]) = [0, 1, 5]"
    by (simp add: vec_def slice_def expand_def bidx_def numeral_3_eq_3)
  have mad: "median_abs_dev_at (elem ?x) (expand [3] ?m) 0 3 [0] = 1"
    unfolding median_abs_dev_at_alt vs by (simp add: lower_median_def)
  have mean: "mean_abs_dev_at (elem ?x) (expand [3] ?m) 0 3 [0] = 5 / 3"
    unfolding mean_abs_dev_at_alt vs by (simp add: lower_median_def mean_list_def)
  have sc: "mad_scale_at (elem ?x) (expand [3] ?m) 0 3 (1 / 1000000) [0] = 1 + 1 / 1000000"
    by (simp add: mad_scale_at_def mad mad_or_std_def guard_scale_def)
  have 1: "scale_at (robust_scaler ?x ?m (- 1) (1 / 1000000)) [0] = Inr (1 + 1 / 1000000)"
    using robust_scaler_at [OF bc ax i, of "1 / 1000000"] sc unfolding shp by auto
  have 2: "scale_at (invariant_scaler ?x ?m (- 1) (1 / 1000000)) [0] = Inr (1 + 1 / 1000000)"
    using invariant_scaler_at [OF bc ax i, of "1 / 1000000"] sc unfolding shp by auto
  from 1 2 mean mad show ?thesis by blast
qed

text \<open>
  C3 (masked-entry invariance). As stated the claim fails for the min-max scaler: the
  sentinel is finite (999999995904, the single-precision value of \<^verbatim>\<open>1e12\<close>), and an invalid
  entry that stays above the valid ones after the sentinel is subtracted changes the
  maximum. Both inputs below agree at their only valid position, and the scales differ.
\<close>

theorem minmax_large_invalid_entry:
  "scale_at (minmax_scaler (vec [0, 5]) (vec [True, False]) (1 / 1000000) (- 1)) [0] =
     Inr (1 + 1 / 1000000) \<and>
   scale_at (minmax_scaler (vec [0, 1999999991808]) (vec [True, False]) (1 / 1000000) (- 1)) [0] =
     Inr (999999995904 + 1 / 1000000)"
proof -
  have bc: "broadcast_shapes (shape (vec [a, b :: real])) (shape (vec [True, False])) =
      Inr (shape (vec [a, b :: real]))" for a b
    by (simp add: vec_def)
  have ax: "axis (- 1) (shape (vec [a, b :: real])) 0" for a b
    by (simp add: vec_def axis_def wrap_dim_def)
  have i: "valid_index (shape (vec [a, b :: real])) [0]" for a b
    by (simp add: vec_def valid_index_def)
  have rg: "range_scale_at (elem (vec [a, b])) (expand (shape (vec [a, b :: real]))
       (vec [True, False])) 0 (shape (vec [a, b :: real]) ! 0) eps [0] =
       guard_scale (max (b - 999999995904) a - min (b + 999999995904) a) eps" for a b eps
    by (simp add: range_scale_at_def shifted_max_at_def shifted_min_at_def slice_def expand_def
        bidx_def vec_def upt_rec [of 0])
  have 1: "scale_at (minmax_scaler (vec [0, 5]) (vec [True, False]) (1 / 1000000) (- 1)) [0] =
     Inr (1 + 1 / 1000000)"
    using minmax_scaler_at [OF bc ax i, of 0 5 "1 / 1000000"] unfolding rg
    by (auto simp: guard_scale_def)
  have 2: "scale_at (minmax_scaler (vec [0, 1999999991808]) (vec [True, False]) (1 / 1000000) (- 1))
      [0] = Inr (999999995904 + 1 / 1000000)"
    using minmax_scaler_at [OF bc ax i, of 0 1999999991808 "1 / 1000000"] unfolding rg
    by (auto simp: guard_scale_def)
  from 1 2 show ?thesis by blast
qed

text \<open>
  C3, amended. Let \<open>x\<close> and \<open>x'\<close> have the same shape and agree at the valid positions of the
  slice through a position \<open>i\<close>. The standard, robust, invariant and identity scalers return
  for both the same shift and scale for that slice, and the same scaled value at \<open>i\<close> when
  \<open>i\<close> is valid. The min-max scalers do so when, in both inputs, every invalid entry of the
  slice, lowered by the sentinel 999999995904, is at most some valid entry of the slice
  and, raised by it, at least some valid entry (\<open>sentinel_safe\<close>).
\<close>

theorem masked_entry_invariance:
  assumes shp: "shape x' = shape x"
    and bc: "broadcast_shapes (shape x) (shape msk) = Inr (shape x)"
    and ax: "axis dm (shape x) d"
    and i: "valid_index (shape x) i"
    and agree: "agree_on_valid (elem x) (elem x') (expand (shape x) msk) d (shape x ! d) i"
  shows "same_result_at (std_scaler x msk dm eps) (std_scaler x' msk dm eps) d
           (expand (shape x) msk i) i \<and>
         same_result_at (robust_scaler x msk dm eps) (robust_scaler x' msk dm eps) d
           (expand (shape x) msk i) i \<and>
         same_result_at (invariant_scaler x msk dm eps) (invariant_scaler x' msk dm eps) d
           (expand (shape x) msk i) i \<and>
         same_result_at (identity_scaler x msk dm eps) (identity_scaler x' msk dm eps) d
           (expand (shape x) msk i) i \<and>
         (sentinel_safe (elem x) (expand (shape x) msk) d (shape x ! d) i \<and>
          sentinel_safe (elem x') (expand (shape x) msk) d (shape x ! d) i \<longrightarrow>
            same_result_at (minmax_scaler x msk eps dm) (minmax_scaler x' msk eps dm) d
              (expand (shape x) msk i) i \<and>
            same_result_at (minmax1_scaler x msk eps dm) (minmax1_scaler x' msk eps dm) d
              (expand (shape x) msk i) i)"
proof -
  let ?M = "expand (shape x) msk" and ?n = "shape x ! d"
  have bc': "broadcast_shapes (shape x') (shape msk) = Inr (shape x')"
    and ax': "axis dm (shape x') d" and i': "valid_index (shape x') i"
    using bc ax i by (simp_all add: shp)
  have d: "d < length (shape x)" by (rule axis_less [OF ax])
  have n: "0 < ?n" by (rule valid_index_pos [OF i d])
  have pos: "?M i \<Longrightarrow> elem x i = elem x' i"
    by (rule agree_at_position [OF agree i d])
  note st = agree_statistics [OF agree]
  have 1: "same_result_at (std_scaler x msk dm eps) (std_scaler x' msk dm eps) d (?M i) i"
  proof -
    obtain z sh sc where a: "std_scaler x msk dm eps = Inr (z, sh, sc)"
      "shape sh = (shape x)[d := 1]" "shape sc = (shape x)[d := 1]"
      "elem sh (i[d := 0]) = masked_mean_at (elem x) ?M d ?n i"
      "elem sc (i[d := 0]) = guard_scale (masked_std_at (elem x) ?M d ?n i) eps"
      "elem z i = fdiv (elem x i - masked_mean_at (elem x) ?M d ?n i)
               (guard_scale (masked_std_at (elem x) ?M d ?n i) eps)"
      using std_scaler_at [OF bc ax i, of eps] by blast
    obtain z' sh' sc' where b: "std_scaler x' msk dm eps = Inr (z', sh', sc')"
      "shape sh' = (shape x)[d := 1]" "shape sc' = (shape x)[d := 1]"
      "elem sh' (i[d := 0]) = masked_mean_at (elem x') ?M d ?n i"
      "elem sc' (i[d := 0]) = guard_scale (masked_std_at (elem x') ?M d ?n i) eps"
      "elem z' i = fdiv (elem x' i - masked_mean_at (elem x') ?M d ?n i)
               (guard_scale (masked_std_at (elem x') ?M d ?n i) eps)"
      using std_scaler_at [OF bc' ax' i', of eps] unfolding shp by blast
    show ?thesis
      by (rule same_result_atI [OF a(1) b(1)]) (simp_all add: a b st pos)
  qed
  have 2: "same_result_at (robust_scaler x msk dm eps) (robust_scaler x' msk dm eps) d (?M i) i"
  proof -
    obtain z sh sc where a: "robust_scaler x msk dm eps = Inr (z, sh, sc)"
      "shape sh = (shape x)[d := 1]" "shape sc = (shape x)[d := 1]"
      "elem sh (i[d := 0]) = masked_median_at (elem x) ?M d ?n i"
      "elem sc (i[d := 0]) = mad_scale_at (elem x) ?M d ?n eps i"
      "elem z i = fdiv (elem x i - masked_median_at (elem x) ?M d ?n i)
               (mad_scale_at (elem x) ?M d ?n eps i)"
      using robust_scaler_at [OF bc ax i, of eps] by blast
    obtain z' sh' sc' where b: "robust_scaler x' msk dm eps = Inr (z', sh', sc')"
      "shape sh' = (shape x)[d := 1]" "shape sc' = (shape x)[d := 1]"
      "elem sh' (i[d := 0]) = masked_median_at (elem x') ?M d ?n i"
      "elem sc' (i[d := 0]) = mad_scale_at (elem x') ?M d ?n eps i"
      "elem z' i = fdiv (elem x' i - masked_median_at (elem x') ?M d ?n i)
               (mad_scale_at (elem x') ?M d ?n eps i)"
      using robust_scaler_at [OF bc' ax' i', of eps] unfolding shp by blast
    show ?thesis
      by (rule same_result_atI [OF a(1) b(1)]) (simp_all add: a b st pos)
  qed
  have 3: "same_result_at (invariant_scaler x msk dm eps) (invariant_scaler x' msk dm eps) d
      (?M i) i"
  proof -
    obtain z sh sc where a: "invariant_scaler x msk dm eps = Inr (z, sh, sc)"
      "shape sh = (shape x)[d := 1]" "shape sc = (shape x)[d := 1]"
      "elem sh (i[d := 0]) = masked_median_at (elem x) ?M d ?n i"
      "elem sc (i[d := 0]) = mad_scale_at (elem x) ?M d ?n eps i"
      "elem z i = map_option arsinh (fdiv (elem x i - masked_median_at (elem x) ?M d ?n i)
               (mad_scale_at (elem x) ?M d ?n eps i))"
      using invariant_scaler_at [OF bc ax i, of eps] by blast
    obtain z' sh' sc' where b: "invariant_scaler x' msk dm eps = Inr (z', sh', sc')"
      "shape sh' = (shape x)[d := 1]" "shape sc' = (shape x)[d := 1]"
      "elem sh' (i[d := 0]) = masked_median_at (elem x') ?M d ?n i"
      "elem sc' (i[d := 0]) = mad_scale_at (elem x') ?M d ?n eps i"
      "elem z' i = map_option arsinh (fdiv (elem x' i - masked_median_at (elem x') ?M d ?n i)
               (mad_scale_at (elem x') ?M d ?n eps i))"
      using invariant_scaler_at [OF bc' ax' i', of eps] unfolding shp by blast
    show ?thesis
      by (rule same_result_atI [OF a(1) b(1)]) (simp_all add: a b st pos)
  qed
  have 4: "same_result_at (identity_scaler x msk dm eps) (identity_scaler x' msk dm eps) d
      (?M i) i"
    using pos
    by (simp add: identity_scaler_returns [OF ax] identity_scaler_returns [OF ax']
        same_result_at_def shp lift1_def)
  have 5: "sentinel_safe (elem x) ?M d ?n i \<and> sentinel_safe (elem x') ?M d ?n i \<longrightarrow>
            same_result_at (minmax_scaler x msk eps dm) (minmax_scaler x' msk eps dm) d (?M i) i \<and>
            same_result_at (minmax1_scaler x msk eps dm) (minmax1_scaler x' msk eps dm) d (?M i) i"
  proof
    assume "sentinel_safe (elem x) ?M d ?n i \<and> sentinel_safe (elem x') ?M d ?n i"
    then have safe: "sentinel_safe (elem x) ?M d ?n i" and safe': "sentinel_safe (elem x') ?M d ?n i"
      by simp_all
    note ex = agree_extrema [OF agree safe safe' n]
    have m: "same_result_at (minmax_scaler x msk eps dm) (minmax_scaler x' msk eps dm) d (?M i) i"
    proof -
      obtain z sh sc where a: "minmax_scaler x msk eps dm = Inr (z, sh, sc)"
        "shape sh = (shape x)[d := 1]" "shape sc = (shape x)[d := 1]"
        "elem sh (i[d := 0]) = shifted_min_at (elem x) ?M d ?n i"
        "elem sc (i[d := 0]) = range_scale_at (elem x) ?M d ?n eps i"
        "elem z i = fdiv (elem x i - shifted_min_at (elem x) ?M d ?n i)
                 (range_scale_at (elem x) ?M d ?n eps i)"
        using minmax_scaler_at [OF bc ax i, of eps] by blast
      obtain z' sh' sc' where b: "minmax_scaler x' msk eps dm = Inr (z', sh', sc')"
        "shape sh' = (shape x)[d := 1]" "shape sc' = (shape x)[d := 1]"
        "elem sh' (i[d := 0]) = shifted_min_at (elem x') ?M d ?n i"
        "elem sc' (i[d := 0]) = range_scale_at (elem x') ?M d ?n eps i"
        "elem z' i = fdiv (elem x' i - shifted_min_at (elem x') ?M d ?n i)
                 (range_scale_at (elem x') ?M d ?n eps i)"
        using minmax_scaler_at [OF bc' ax' i', of eps] unfolding shp by blast
      show ?thesis
        by (rule same_result_atI [OF a(1) b(1)]) (simp_all add: a b ex pos)
    qed
    have m1: "same_result_at (minmax1_scaler x msk eps dm) (minmax1_scaler x' msk eps dm) d (?M i) i"
    proof -
      obtain z sh sc where a: "minmax1_scaler x msk eps dm = Inr (z, sh, sc)"
        "shape sh = (shape x)[d := 1]" "shape sc = (shape x)[d := 1]"
        "elem sh (i[d := 0]) = shifted_min_at (elem x) ?M d ?n i"
        "elem sc (i[d := 0]) = range_scale_at (elem x) ?M d ?n eps i"
        "elem z i = map_option (\<lambda>u. u * 2 - 1) (fdiv (elem x i - shifted_min_at (elem x) ?M d ?n i)
                 (range_scale_at (elem x) ?M d ?n eps i))"
        using minmax1_scaler_at [OF bc ax i, of eps] by blast
      obtain z' sh' sc' where b: "minmax1_scaler x' msk eps dm = Inr (z', sh', sc')"
        "shape sh' = (shape x)[d := 1]" "shape sc' = (shape x)[d := 1]"
        "elem sh' (i[d := 0]) = shifted_min_at (elem x') ?M d ?n i"
        "elem sc' (i[d := 0]) = range_scale_at (elem x') ?M d ?n eps i"
        "elem z' i = map_option (\<lambda>u. u * 2 - 1)
                 (fdiv (elem x' i - shifted_min_at (elem x') ?M d ?n i)
                 (range_scale_at (elem x') ?M d ?n eps i))"
        using minmax1_scaler_at [OF bc' ax' i', of eps] unfolding shp by blast
      show ?thesis
        by (rule same_result_atI [OF a(1) b(1)]) (simp_all add: a b ex pos)
    qed
    from m m1 show "same_result_at (minmax_scaler x msk eps dm) (minmax_scaler x' msk eps dm) d
        (?M i) i \<and>
      same_result_at (minmax1_scaler x msk eps dm) (minmax1_scaler x' msk eps dm) d (?M i) i"
      by blast
  qed
  from 1 2 3 4 5 show ?thesis by blast
qed

theorem masked_entry_invariance_witness:
  "same_result_at (std_scaler (vec [0, 5, 9]) (vec [True, True, False]) (- 1) (1 / 1000000))
     (std_scaler (vec [0, 5, 700]) (vec [True, True, False]) (- 1) (1 / 1000000)) 0 True [1] \<and>
   same_result_at (robust_scaler (vec [0, 5, 9]) (vec [True, True, False]) (- 1) (1 / 1000000))
     (robust_scaler (vec [0, 5, 700]) (vec [True, True, False]) (- 1) (1 / 1000000)) 0 True [1] \<and>
   same_result_at (minmax_scaler (vec [0, 5, 9]) (vec [True, True, False]) (1 / 1000000) (- 1))
     (minmax_scaler (vec [0, 5, 700]) (vec [True, True, False]) (1 / 1000000) (- 1)) 0 True [1]"
proof -
  let ?x = "vec [0, 5, 9 :: real]" and ?x' = "vec [0, 5, 700 :: real]"
  let ?m = "vec [True, True, False]"
  have shp: "shape ?x' = shape ?x" by (simp add: vec_def)
  have bc: "broadcast_shapes (shape ?x) (shape ?m) = Inr (shape ?x)"
    by (simp add: vec_def)
  have ax: "axis (- 1) (shape ?x) 0"
    by (simp add: vec_def axis_def wrap_dim_def)
  have i: "valid_index (shape ?x) [1]"
    by (simp add: vec_def valid_index_def)
  have agree: "agree_on_valid (elem ?x) (elem ?x') (expand (shape ?x) ?m) 0 (shape ?x ! 0) [1]"
    by (simp add: agree_on_valid_def vec_def expand_def bidx_def upt_rec [of 0])
  have safe: "sentinel_safe (elem ?x) (expand (shape ?x) ?m) 0 (shape ?x ! 0) [1]"
    by (simp add: sentinel_safe_def vec_def expand_def bidx_def upt_rec [of 0])
  have safe': "sentinel_safe (elem ?x') (expand (shape ?x) ?m) 0 (shape ?x ! 0) [1]"
    by (simp add: sentinel_safe_def vec_def expand_def bidx_def upt_rec [of 0])
  have v: "expand (shape ?x) ?m [1]"
    by (simp add: vec_def expand_def bidx_def)
  from masked_entry_invariance [OF shp bc ax i agree, of "1 / 1000000"] safe safe' v
  show ?thesis by simp
qed

text \<open>
  C5 (masked mean and median). For a mask that broadcasts to \<open>x\<close> and an axis of \<open>x\<close>,
  \<^verbatim>\<open>masked_mean\<close> returns a tensor of the shape of \<open>x\<close> with the axis set to 1 (\<open>keepdim\<close>) or
  removed, whose entry at every index is the arithmetic mean of the valid entries of the
  slice, and exactly 0 when the slice has no valid entry; \<^verbatim>\<open>masked_median\<close> does the same
  with the lower median, on an axis that is not empty. The entries are reals, so finite.
\<close>

theorem masked_reductions:
  assumes bc: "broadcast_shapes (shape x) (shape msk) = Inr (shape x)"
    and ax: "axis dm (shape x) d"
    and j: "valid_index (reduced_shape (shape x) d keepdim) j"
  shows "(\<exists>t. masked_mean x msk dm keepdim = Inr t \<and>
            shape t = (if keepdim then (shape x)[d := 1]
                       else take d (shape x) @ drop (Suc d) (shape x)) \<and>
            elem t j =
              (if reduced_vals x msk d keepdim j = [] then 0
               else sum_list (reduced_vals x msk d keepdim j) /
                      real (length (reduced_vals x msk d keepdim j)))) \<and>
         (0 < shape x ! d \<longrightarrow>
           (\<exists>t. masked_median x msk dm keepdim = Inr t \<and>
              shape t = (if keepdim then (shape x)[d := 1]
                         else take d (shape x) @ drop (Suc d) (shape x)) \<and>
              elem t j =
                (if reduced_vals x msk d keepdim j = [] then 0
                 else sort (reduced_vals x msk d keepdim j) !
                        ((length (reduced_vals x msk d keepdim j) - 1) div 2))))"
  using masked_mean_at_index [OF bc ax j] masked_median_at_index [OF bc ax _ j]
  by (simp add: reduced_shape_def mean_list_def lower_median_def)

theorem masked_reductions_witness:
  "(\<exists>t. masked_mean (mat [[3, 1, 2], [4, 5, 6]]) (mat [[True, True, False], [False, False, False]])
          1 False = Inr t \<and>
      shape t = [2] \<and> elem t [0] = 2 \<and> elem t [1] = 0) \<and>
   (\<exists>t. masked_median (mat [[3, 1, 2], [4, 5, 6]]) (mat [[True, True, False], [False, False, False]])
          1 False = Inr t \<and>
      shape t = [2] \<and> elem t [0] = 1 \<and> elem t [1] = 0)"
proof -
  let ?x = "mat [[3, 1, 2], [4, 5, 6 :: real]]"
  let ?m = "mat [[True, True, False], [False, False, False]]"
  have shp: "shape ?x = [2, 3]" by (simp add: mat_def)
  have bc: "broadcast_shapes (shape ?x) (shape ?m) = Inr (shape ?x)"
    by (simp add: mat_def)
  have ax: "axis 1 (shape ?x) 1"
    by (simp add: mat_def axis_def wrap_dim_def)
  have j0: "valid_index (reduced_shape (shape ?x) 1 False) [0]"
    and j1: "valid_index (reduced_shape (shape ?x) 1 False) [1]"
    by (simp_all add: mat_def valid_index_def reduced_shape_def)
  have v0: "reduced_vals ?x ?m 1 False [0] = [3, 1]"
    by (simp add: reduced_vals_def mat_def along_def expand_def bidx_def numeral_3_eq_3)
  have v1: "reduced_vals ?x ?m 1 False [1] = []"
    by (simp add: reduced_vals_def mat_def along_def expand_def bidx_def numeral_3_eq_3)
  have ne: "0 < shape ?x ! 1" by (simp add: mat_def)
  from masked_reductions [OF bc ax j0] masked_reductions [OF bc ax j1] ne
  show ?thesis unfolding v0 v1 by (auto simp: shp)
qed

text \<open>
  C7 (the cache is overwritten). On an instance of any scaler type, after a \<^verbatim>\<open>transform\<close> of
  \<open>(x_a, msk_a)\<close> that returned, \<^verbatim>\<open>transform\<close> of \<open>(x_b, msk_b)\<close> returns, the stored statistics
  are the ones the scaler computes from \<open>(x_b, msk_b)\<close> alone, and \<^verbatim>\<open>inverse_transform\<close> of the
  second result with the statistics omitted returns \<open>x_b\<close> at every position whose slice
  holds a valid entry.
\<close>

theorem second_transform_overwrites:
  assumes new: "TemporalNorm scaler_type dm eps = Inr self"
    and first: "transform self x_a msk_a = Inr (z_a, self_a)"
    and eps: "0 \<le> eps"
    and bc: "broadcast_shapes (shape x_b) (shape msk_b) = Inr (shape x_b)"
    and ax: "axis dm (shape x_b) d"
    and i: "valid_index (shape x_b) i"
    and hv: "has_valid (shape x_b) msk_b d i"
  shows "\<exists>z_b self_b sh sc x_rec.
           transform self_a x_b msk_b = Inr (z_b, self_b) \<and>
           tn_scaler self x_b msk_b dm eps = Inr (z_b, sh, sc) \<and>
           tn_x_shift self_b = Some sh \<and> tn_x_scale self_b = Some sc \<and>
           inverse_transform self_b z_b None None = Inr x_rec \<and>
           shape x_rec = shape x_b \<and> elem x_rec i = Some (elem x_b i)"
proof -
  obtain f g where f: "map_of scalers scaler_type = Some f"
    and g: "map_of inverse_scalers scaler_type = Some g"
    and self: "self = \<lparr>tn_scaler = f, tn_inverse_scaler = g, tn_scaler_type = scaler_type,
             tn_dim = dm, tn_eps = eps, tn_x_shift = None, tn_x_scale = None\<rparr>"
    using new by (rule TemporalNorm_InrE)
  obtain sh_a sc_a where self_a: "self_a = self\<lparr>tn_x_shift := Some sh_a, tn_x_scale := Some sc_a\<rparr>"
    using first by (rule transform_InrE)
  obtain f' g' z sh sc xr where f': "map_of scalers scaler_type = Some f'"
    and g': "map_of inverse_scalers scaler_type = Some g'"
    and fw: "f' x_b msk_b dm eps = Inr (z, sh, sc)" and bw: "g' z sh sc = Inr xr"
    and xr: "shape xr = shape x_b" "elem xr i = Some (elem x_b i)"
    using registered_roundtrip [OF registered_names [OF f] eps bc ax i hv] by blast
  from f f' g g' have same: "f' = f" "g' = g" by simp_all
  have "transform self_a x_b msk_b =
      Inr (z, self_a\<lparr>tn_x_shift := Some sh, tn_x_scale := Some sc\<rparr>)"
    using fw by (simp add: transform_def self_a self same)
  moreover have "tn_scaler self x_b msk_b dm eps = Inr (z, sh, sc)"
    using fw by (simp add: self same)
  moreover have "inverse_transform (self_a\<lparr>tn_x_shift := Some sh, tn_x_scale := Some sc\<rparr>)
      z None None = Inr xr"
    using bw by (simp add: inverse_transform_def getattr_def self_a self same)
  ultimately show ?thesis using xr by auto
qed

theorem second_transform_overwrites_witness:
  "\<exists>self z_a self_a z_b self_b x_rec.
     TemporalNorm (Some ''robust'') (- 1) (1 / 1000000) = Inr self \<and>
     transform self (vec [100, 200]) (vec [True, True]) = Inr (z_a, self_a) \<and>
     transform self_a (vec [0, 5, 9]) (vec [True, True, False]) = Inr (z_b, self_b) \<and>
     inverse_transform self_b z_b None None = Inr x_rec \<and>
     shape x_rec = [3] \<and> elem x_rec [2] = Some 9"
proof -
  have bc_a: "broadcast_shapes (shape (vec [100, 200 :: real])) (shape (vec [True, True])) =
      Inr (shape (vec [100, 200 :: real]))"
    by (simp add: vec_def)
  have ax_a: "axis (- 1) (shape (vec [100, 200 :: real])) 0"
    by (simp add: vec_def axis_def wrap_dim_def)
  have i_a: "valid_index (shape (vec [100, 200 :: real])) [0]"
    by (simp add: vec_def valid_index_def)
  have hv_a: "has_valid (shape (vec [100, 200 :: real])) (vec [True, True]) 0 [0]"
    by (simp add: vec_def has_valid_def expand_def bidx_def upt_rec [of 0])
  obtain self z_a self_a where new: "TemporalNorm (Some ''robust'') (- 1) (1 / 1000000) = Inr self"
    and first: "transform self (vec [100, 200]) (vec [True, True]) = Inr (z_a, self_a)"
  proof -
    obtain f g z sh sc xr where "map_of scalers (Some ''robust'') = Some f"
      "map_of inverse_scalers (Some ''robust'') = Some g"
      "f (vec [100, 200]) (vec [True, True]) (- 1) (1 / 1000000) = Inr (z, sh, sc)"
      "g z sh sc = Inr xr"
      using registered_roundtrip [OF _ _ bc_a ax_a i_a hv_a, of "Some ''robust''" "1 / 1000000"]
      by auto
    from facade_calls [OF this] that show ?thesis by blast
  qed
  have bc: "broadcast_shapes (shape (vec [0, 5, 9 :: real])) (shape (vec [True, True, False])) =
      Inr (shape (vec [0, 5, 9 :: real]))"
    by (simp add: vec_def)
  have ax: "axis (- 1) (shape (vec [0, 5, 9 :: real])) 0"
    by (simp add: vec_def axis_def wrap_dim_def)
  have i: "valid_index (shape (vec [0, 5, 9 :: real])) [2]"
    by (simp add: vec_def valid_index_def)
  have hv: "has_valid (shape (vec [0, 5, 9 :: real])) (vec [True, True, False]) 0 [2]"
    by (simp add: vec_def has_valid_def expand_def bidx_def upt_rec [of 0])
  have "shape (vec [0, 5, 9 :: real]) = [3]" "elem (vec [0, 5, 9 :: real]) [2] = 9"
    by (simp_all add: vec_def)
  with second_transform_overwrites [OF new first _ bc ax i hv] new first
  show ?thesis by auto
qed

text \<open>
  C8 (statistics of the inverse). On an instance as the constructor returns it,
  \<^verbatim>\<open>inverse_transform\<close> with both statistics omitted raises \<open>AttributeError\<close> (the state
  precondition of the specification). With both statistics supplied it returns what the
  configured inverse scaler returns on the supplied statistics, whatever is stored, and on
  statistics of the reduced shape of \<open>z\<close> this is a tensor. After a \<^verbatim>\<open>transform\<close> that
  returned, the omitted statistics are the ones that call stored, and the inverse of the
  transformed tensor is returned, with the shape of the input.
\<close>

theorem inverse_transform_statistics:
  assumes new: "TemporalNorm scaler_type dm eps = Inr self"
  shows "inverse_transform self z None None = Inl AttributeError \<and>
         inverse_transform self z (Some sh) (Some sc) = tn_inverse_scaler self z sh sc \<and>
         (d < length (shape z) \<and> shape sh = (shape z)[d := 1] \<and> shape sc = (shape z)[d := 1] \<longrightarrow>
           (\<exists>xr. inverse_transform self z (Some sh) (Some sc) = Inr xr \<and> shape xr = shape z)) \<and>
         (transform self x msk = Inr (z', self') \<longrightarrow>
           (\<exists>sh' sc'. tn_scaler self x msk dm eps = Inr (z', sh', sc') \<and>
              tn_x_shift self' = Some sh' \<and> tn_x_scale self' = Some sc' \<and>
              inverse_transform self' z None None = tn_inverse_scaler self z sh' sc' \<and>
              inverse_transform self' z (Some sh) (Some sc) = tn_inverse_scaler self z sh sc)) \<and>
         (transform self x msk = Inr (z', self') \<and>
          broadcast_shapes (shape x) (shape msk) = Inr (shape x) \<and> axis dm (shape x) d \<and>
          valid_index (shape x) i \<longrightarrow>
           (\<exists>xr. inverse_transform self' z' None None = Inr xr \<and> shape xr = shape x))"
proof -
  obtain f g where f: "map_of scalers scaler_type = Some f"
    and g: "map_of inverse_scalers scaler_type = Some g"
    and self: "self = \<lparr>tn_scaler = f, tn_inverse_scaler = g, tn_scaler_type = scaler_type,
             tn_dim = dm, tn_eps = eps, tn_x_shift = None, tn_x_scale = None\<rparr>"
    using new by (rule TemporalNorm_InrE)
  have 1: "inverse_transform self z None None = Inl AttributeError"
    by (simp add: self inverse_transform_def getattr_def)
  have 2: "inverse_transform self z (Some sh) (Some sc) = tn_inverse_scaler self z sh sc"
    by (simp add: inverse_transform_def)
  have 3: "d < length (shape z) \<and> shape sh = (shape z)[d := 1] \<and> shape sc = (shape z)[d := 1] \<longrightarrow>
           (\<exists>xr. inverse_transform self z (Some sh) (Some sc) = Inr xr \<and> shape xr = shape z)"
    using inverse_returns_any [OF g, of d z sh sc] by (simp add: inverse_transform_def self)
  have 4: "transform self x msk = Inr (z', self') \<longrightarrow>
           (\<exists>sh' sc'. tn_scaler self x msk dm eps = Inr (z', sh', sc') \<and>
              tn_x_shift self' = Some sh' \<and> tn_x_scale self' = Some sc' \<and>
              inverse_transform self' z None None = tn_inverse_scaler self z sh' sc' \<and>
              inverse_transform self' z (Some sh) (Some sc) = tn_inverse_scaler self z sh sc)"
  proof
    assume "transform self x msk = Inr (z', self')"
    then obtain sh' sc' where
      "tn_scaler self x msk (tn_dim self) (tn_eps self) = Inr (z', sh', sc')"
      "self' = self\<lparr>tn_x_shift := Some sh', tn_x_scale := Some sc'\<rparr>"
      by (rule transform_InrE)
    then show "\<exists>sh' sc'. tn_scaler self x msk dm eps = Inr (z', sh', sc') \<and>
              tn_x_shift self' = Some sh' \<and> tn_x_scale self' = Some sc' \<and>
              inverse_transform self' z None None = tn_inverse_scaler self z sh' sc' \<and>
              inverse_transform self' z (Some sh) (Some sc) = tn_inverse_scaler self z sh sc"
      by (simp add: self inverse_transform_def getattr_def)
  qed
  have 5: "transform self x msk = Inr (z', self') \<and>
          broadcast_shapes (shape x) (shape msk) = Inr (shape x) \<and> axis dm (shape x) d \<and>
          valid_index (shape x) i \<longrightarrow>
           (\<exists>xr. inverse_transform self' z' None None = Inr xr \<and> shape xr = shape x)"
  proof
    assume a: "transform self x msk = Inr (z', self') \<and>
          broadcast_shapes (shape x) (shape msk) = Inr (shape x) \<and> axis dm (shape x) d \<and>
          valid_index (shape x) i"
    then obtain sh' sc' where fw: "tn_scaler self x msk (tn_dim self) (tn_eps self) = Inr (z', sh', sc')"
      and self': "self' = self\<lparr>tn_x_shift := Some sh', tn_x_scale := Some sc'\<rparr>"
      by (auto elim: transform_InrE)
    from a have bc: "broadcast_shapes (shape x) (shape msk) = Inr (shape x)"
      and ax: "axis dm (shape x) d" and i: "valid_index (shape x) i" by simp_all
    from fw have fw': "f x msk dm eps = Inr (z', sh', sc')" by (simp add: self)
    have shp: "shape z' = shape x" "shape sh' = (shape z')[d := 1]" "shape sc' = (shape z')[d := 1]"
      using registered_shapes [OF f bc ax i fw'] by simp_all
    have d: "d < length (shape z')" using axis_less [OF ax] by (simp add: shp(1))
    show "\<exists>xr. inverse_transform self' z' None None = Inr xr \<and> shape xr = shape x"
      using inverse_returns_any [OF g d shp(2,3)]
      by (simp add: inverse_transform_def getattr_def self' self shp(1))
  qed
  from 1 2 3 4 5 show ?thesis by blast
qed

theorem inverse_transform_statistics_witness:
  "\<exists>self z' self' sh' sc'.
     TemporalNorm (Some ''standard'') (- 1) (1 / 1000000) = Inr self \<and>
     inverse_transform self (vec [Some 1, Some 2]) None None = Inl AttributeError \<and>
     inverse_transform self (vec [Some 1, Some 2]) (Some (vec [3])) (Some (vec [2])) =
       inv_std_scaler (vec [Some 1, Some 2]) (vec [3]) (vec [2]) \<and>
     (\<exists>xr. inverse_transform self (vec [Some 1, Some 2]) (Some (vec [3])) (Some (vec [2])) = Inr xr \<and>
        shape xr = [2]) \<and>
     transform self (vec [0, 5, 9]) (vec [True, True, False]) = Inr (z', self') \<and>
     tn_x_shift self' = Some sh' \<and> tn_x_scale self' = Some sc' \<and>
     inverse_transform self' (vec [Some 1, Some 2]) None None =
       inv_std_scaler (vec [Some 1, Some 2]) sh' sc' \<and>
     (\<exists>xr. inverse_transform self' z' None None = Inr xr \<and> shape xr = [3])"
proof -
  obtain self where new: "TemporalNorm (Some ''standard'') (- 1) (1 / 1000000) = Inr self"
    and inv: "tn_inverse_scaler self = inv_std_scaler"
    by (simp add: TemporalNorm_def scalers_def inverse_scalers_def)
  have bc: "broadcast_shapes (shape (vec [0, 5, 9 :: real])) (shape (vec [True, True, False])) =
      Inr (shape (vec [0, 5, 9 :: real]))"
    by (simp add: vec_def)
  have ax: "axis (- 1) (shape (vec [0, 5, 9 :: real])) 0"
    by (simp add: vec_def axis_def wrap_dim_def)
  have i: "valid_index (shape (vec [0, 5, 9 :: real])) [2]"
    by (simp add: vec_def valid_index_def)
  obtain z' sh' sc' where "std_scaler (vec [0, 5, 9]) (vec [True, True, False]) (- 1) (1 / 1000000)
      = Inr (z', sh', sc')"
    using std_roundtrip [OF bc ax _ i, of "1 / 1000000"] by auto
  then obtain self' where tr: "transform self (vec [0, 5, 9]) (vec [True, True, False]) = Inr (z', self')"
    using new by (auto simp: transform_def TemporalNorm_def scalers_def inverse_scalers_def)
  have shp: "0 < length (shape (vec [Some (1 :: real), Some 2])) \<and>
      shape (vec [3 :: real]) = (shape (vec [Some (1 :: real), Some 2]))[0 := 1] \<and>
      shape (vec [2 :: real]) = (shape (vec [Some (1 :: real), Some 2]))[0 := 1]"
    by (simp add: vec_def)
  have two: "shape (vec [Some (1 :: real), Some 2]) = [2]"
    by (simp add: vec_def)
  note th = inverse_transform_statistics [OF new, where z = "vec [Some 1, Some 2]" and sh = "vec [3]"
      and sc = "vec [2]" and d = 0 and x = "vec [0, 5, 9]" and msk = "vec [True, True, False]"
      and z' = z' and self' = self' and i = "[2]"]
  from th have a: "inverse_transform self (vec [Some 1, Some 2]) None None = Inl AttributeError"
    by blast
  from th have b: "inverse_transform self (vec [Some 1, Some 2]) (Some (vec [3])) (Some (vec [2])) =
       inv_std_scaler (vec [Some 1, Some 2]) (vec [3]) (vec [2])"
    unfolding inv by blast
  from th shp have c: "\<exists>xr. inverse_transform self (vec [Some 1, Some 2]) (Some (vec [3]))
      (Some (vec [2])) = Inr xr \<and> shape xr = [2]"
    unfolding two by blast
  from th tr obtain sh' sc' where d: "tn_x_shift self' = Some sh'" "tn_x_scale self' = Some sc'"
      "inverse_transform self' (vec [Some 1, Some 2]) None None =
         inv_std_scaler (vec [Some 1, Some 2]) sh' sc'"
    unfolding inv by blast
  have three: "shape (vec [0, 5, 9 :: real]) = [3]" by (simp add: vec_def)
  from th tr bc ax i have e: "\<exists>xr. inverse_transform self' z' None None = Inr xr \<and> shape xr = [3]"
    unfolding three by blast
  from new a b c tr d e show ?thesis by blast
qed

text \<open>
  C9 (even count). When the slice has an even, non-zero number of valid entries,
  \<^verbatim>\<open>masked_median\<close> returns the lower of the two middle values of the sorted valid entries,
  not their average.
\<close>

theorem masked_median_lower_middle:
  assumes bc: "broadcast_shapes (shape x) (shape msk) = Inr (shape x)"
    and ax: "axis dm (shape x) d"
    and j: "valid_index (reduced_shape (shape x) d keepdim) j"
    and even: "even (length (reduced_vals x msk d keepdim j))"
    and ne: "reduced_vals x msk d keepdim j \<noteq> []"
  shows "\<exists>t. masked_median x msk dm keepdim = Inr t \<and>
           elem t j = sort (reduced_vals x msk d keepdim j) !
                        (length (reduced_vals x msk d keepdim j) div 2 - 1) \<and>
           elem t j \<le> sort (reduced_vals x msk d keepdim j) !
                        (length (reduced_vals x msk d keepdim j) div 2) \<and>
           (elem t j < sort (reduced_vals x msk d keepdim j) !
                        (length (reduced_vals x msk d keepdim j) div 2) \<longrightarrow>
            elem t j \<noteq>
              (sort (reduced_vals x msk d keepdim j) !
                 (length (reduced_vals x msk d keepdim j) div 2 - 1) +
               sort (reduced_vals x msk d keepdim j) !
                 (length (reduced_vals x msk d keepdim j) div 2)) / 2)"
proof -
  let ?vs = "reduced_vals x msk d keepdim j"
  let ?n = "length ?vs"
  have pos: "0 < ?n" using ne by simp
  with even have idx: "(?n - 1) div 2 = ?n div 2 - 1" by (auto elim!: evenE)
  from pos even have lt: "?n div 2 < ?n" by simp
  obtain t where 1: "masked_median x msk dm keepdim = Inr t"
    and t: "elem t j = lower_median ?vs"
    using masked_median_at_index [OF bc ax reduced_vals_nonempty [OF ne] j] by blast
  have low: "elem t j = sort ?vs ! (?n div 2 - 1)"
    using t ne idx by (simp add: lower_median_def)
  have le: "sort ?vs ! (?n div 2 - 1) \<le> sort ?vs ! (?n div 2)"
    using lt by (intro sorted_nth_mono) simp_all
  from 1 low le show ?thesis by auto
qed

theorem masked_median_lower_middle_witness:
  "\<exists>t. masked_median (vec [7, 1, 9, 3, 100]) (vec [True, True, True, True, False]) (- 1) True = Inr t \<and>
     elem t [0] = 3"
proof -
  let ?x = "vec [7, 1, 9, 3, 100 :: real]"
  let ?m = "vec [True, True, True, True, False]"
  have bc: "broadcast_shapes (shape ?x) (shape ?m) = Inr (shape ?x)"
    by (simp add: vec_def)
  have ax: "axis (- 1) (shape ?x) 0"
    by (simp add: vec_def axis_def wrap_dim_def)
  have j: "valid_index (reduced_shape (shape ?x) 0 True) [0]"
    by (simp add: vec_def valid_index_def reduced_shape_def)
  have v: "reduced_vals ?x ?m 0 True [0] = [7, 1, 9, 3]"
    by (simp add: reduced_vals_def vec_def along_def expand_def bidx_def upt_rec [of 0])
  have "sort [7, 1, 9, 3 :: real] ! (length [7, 1, 9, 3 :: real] div 2 - 1) = 3"
    by simp
  with masked_median_lower_middle [OF bc ax j, unfolded v] show ?thesis by auto
qed

text \<open>
  C10 (the scale is positive). As stated the claim fails: on a slice with no valid entry the
  min-max scaler subtracts the two sentinels, and the scale it returns is negative.
\<close>

theorem minmax_scale_all_invalid:
  "scale_at (minmax_scaler (vec [5]) (vec [False]) (1 / 1000000) (- 1)) [0] =
     Inr (- 1999999991808 + 1 / 1000000) \<and>
   \<not> (0 :: real) < - 1999999991808 + 1 / 1000000"
proof -
  have bc: "broadcast_shapes (shape (vec [5 :: real])) (shape (vec [False])) =
      Inr (shape (vec [5 :: real]))"
    by (simp add: vec_def)
  have ax: "axis (- 1) (shape (vec [5 :: real])) 0"
    by (simp add: vec_def axis_def wrap_dim_def)
  have i: "valid_index (shape (vec [5 :: real])) [0]"
    by (simp add: vec_def valid_index_def)
  obtain z sh sc where 1: "minmax_scaler (vec [5]) (vec [False]) (1 / 1000000) (- 1) = Inr (z, sh, sc)"
    and sc: "elem sc ([0][0 := 0]) = range_scale_at (elem (vec [5])) (expand (shape (vec [5 :: real]))
       (vec [False])) 0 (shape (vec [5 :: real]) ! 0) (1 / 1000000) [0]"
    using minmax_scaler_at [OF bc ax i, of "1 / 1000000"] by blast
  have "range_scale_at (elem (vec [5])) (expand (shape (vec [5 :: real]))
       (vec [False])) 0 (shape (vec [5 :: real]) ! 0) (1 / 1000000) [0] =
       - 1999999991808 + 1 / 1000000"
    by (simp add: range_scale_at_def shifted_max_at_def shifted_min_at_def slice_def expand_def
        bidx_def vec_def guard_scale_def)
  with 1 sc show ?thesis by simp
qed

text \<open>
  C10, amended. For \<open>eps \<ge> 0\<close>, at every position \<open>i\<close> of the input: the standard, robust and
  invariant scalers return a scale that is positive and at least \<open>eps\<close> on the slice through
  \<open>i\<close>, whatever the mask (all-invalid and constant slices included), and a finite scaled
  value at \<open>i\<close>; the identity scaler returns the scale 1; the min-max scalers do the same as
  the first three on every slice that holds at least one valid entry.
\<close>

theorem scale_positive:
  assumes bc: "broadcast_shapes (shape x) (shape msk) = Inr (shape x)"
    and ax: "axis dm (shape x) d"
    and eps: "0 \<le> eps"
    and i: "valid_index (shape x) i"
  shows "(\<exists>z sh sc v. std_scaler x msk dm eps = Inr (z, sh, sc) \<and>
            0 < elem sc (i[d := 0]) \<and> eps \<le> elem sc (i[d := 0]) \<and> elem z i = Some v) \<and>
         (\<exists>z sh sc v. robust_scaler x msk dm eps = Inr (z, sh, sc) \<and>
            0 < elem sc (i[d := 0]) \<and> eps \<le> elem sc (i[d := 0]) \<and> elem z i = Some v) \<and>
         (\<exists>z sh sc v. invariant_scaler x msk dm eps = Inr (z, sh, sc) \<and>
            0 < elem sc (i[d := 0]) \<and> eps \<le> elem sc (i[d := 0]) \<and> elem z i = Some v) \<and>
         (\<exists>z sh sc. identity_scaler x msk dm eps = Inr (z, sh, sc) \<and>
            elem sc (i[d := 0]) = 1 \<and> elem z i = Some (elem x i)) \<and>
         (has_valid (shape x) msk d i \<longrightarrow>
            (\<exists>z sh sc v. minmax_scaler x msk eps dm = Inr (z, sh, sc) \<and>
               0 < elem sc (i[d := 0]) \<and> eps \<le> elem sc (i[d := 0]) \<and> elem z i = Some v) \<and>
            (\<exists>z sh sc v. minmax1_scaler x msk eps dm = Inr (z, sh, sc) \<and>
               0 < elem sc (i[d := 0]) \<and> eps \<le> elem sc (i[d := 0]) \<and> elem z i = Some v))"
proof -
  let ?M = "expand (shape x) msk" and ?n = "shape x ! d"
  let ?sd = "guard_scale (masked_std_at (elem x) ?M d ?n i) eps"
  let ?mad = "mad_scale_at (elem x) ?M d ?n eps i"
  let ?rg = "range_scale_at (elem x) ?M d ?n eps i"
  have sd: "0 < ?sd" "eps \<le> ?sd"
    using guard_scale_pos [OF masked_std_at_nonneg eps] guard_scale_ge [OF masked_std_at_nonneg]
    by blast+
  have mad: "0 < ?mad" "eps \<le> ?mad"
    using mad_scale_at_pos [OF eps] mad_scale_at_ge by blast+
  have 1: "\<exists>z sh sc v. std_scaler x msk dm eps = Inr (z, sh, sc) \<and>
            0 < elem sc (i[d := 0]) \<and> eps \<le> elem sc (i[d := 0]) \<and> elem z i = Some v"
    using std_scaler_at [OF bc ax i, of eps] sd fdiv_Some [of ?sd] by (metis less_irrefl)
  have 2: "\<exists>z sh sc v. robust_scaler x msk dm eps = Inr (z, sh, sc) \<and>
            0 < elem sc (i[d := 0]) \<and> eps \<le> elem sc (i[d := 0]) \<and> elem z i = Some v"
    using robust_scaler_at [OF bc ax i, of eps] mad fdiv_Some [of ?mad] by (metis less_irrefl)
  have 3: "\<exists>z sh sc v. invariant_scaler x msk dm eps = Inr (z, sh, sc) \<and>
            0 < elem sc (i[d := 0]) \<and> eps \<le> elem sc (i[d := 0]) \<and> elem z i = Some v"
  proof -
    obtain z sh sc where a: "invariant_scaler x msk dm eps = Inr (z, sh, sc)"
      "elem sc (i[d := 0]) = ?mad"
      "elem z i = map_option arsinh
         (fdiv (elem x i - masked_median_at (elem x) ?M d ?n i) ?mad)"
      using invariant_scaler_at [OF bc ax i, of eps] by blast
    obtain v where "fdiv (elem x i - masked_median_at (elem x) ?M d ?n i) ?mad = Some v"
      using fdiv_Some [of ?mad] mad(1) by auto
    with a mad show ?thesis by auto
  qed
  have 4: "\<exists>z sh sc. identity_scaler x msk dm eps = Inr (z, sh, sc) \<and>
            elem sc (i[d := 0]) = 1 \<and> elem z i = Some (elem x i)"
    by (simp add: identity_scaler_returns [OF ax] lift1_def)
  have 5: "has_valid (shape x) msk d i \<longrightarrow>
            (\<exists>z sh sc v. minmax_scaler x msk eps dm = Inr (z, sh, sc) \<and>
               0 < elem sc (i[d := 0]) \<and> eps \<le> elem sc (i[d := 0]) \<and> elem z i = Some v) \<and>
            (\<exists>z sh sc v. minmax1_scaler x msk eps dm = Inr (z, sh, sc) \<and>
               0 < elem sc (i[d := 0]) \<and> eps \<le> elem sc (i[d := 0]) \<and> elem z i = Some v)"
  proof
    assume "has_valid (shape x) msk d i"
    then obtain k where k: "k < ?n" "?M (i[d := k])" by (rule has_validE)
    have rg: "0 < ?rg" "eps \<le> ?rg"
      using range_scale_at_pos [where k = k and M = ?M and g = "elem x" and n = ?n and d = d
          and i = i and eps = eps]
        range_scale_at_ge [where k = k and M = ?M and g = "elem x" and n = ?n and d = d
          and i = i and eps = eps] k eps
      by blast+
    obtain v where v: "fdiv (elem x i - shifted_min_at (elem x) ?M d ?n i) ?rg = Some v"
      using fdiv_Some [of ?rg] rg(1) by auto
    have "\<exists>z sh sc v. minmax_scaler x msk eps dm = Inr (z, sh, sc) \<and>
               0 < elem sc (i[d := 0]) \<and> eps \<le> elem sc (i[d := 0]) \<and> elem z i = Some v"
      using minmax_scaler_at [OF bc ax i, of eps] rg v by auto
    moreover have "\<exists>z sh sc v. minmax1_scaler x msk eps dm = Inr (z, sh, sc) \<and>
               0 < elem sc (i[d := 0]) \<and> eps \<le> elem sc (i[d := 0]) \<and> elem z i = Some v"
      using minmax1_scaler_at [OF bc ax i, of eps] rg v by auto
    ultimately show "(\<exists>z sh sc v. minmax_scaler x msk eps dm = Inr (z, sh, sc) \<and>
               0 < elem sc (i[d := 0]) \<and> eps \<le> elem sc (i[d := 0]) \<and> elem z i = Some v) \<and>
            (\<exists>z sh sc v. minmax1_scaler x msk eps dm = Inr (z, sh, sc) \<and>
               0 < elem sc (i[d := 0]) \<and> eps \<le> elem sc (i[d := 0]) \<and> elem z i = Some v)"
      by blast
  qed
  from 1 2 3 4 5 show ?thesis by blast
qed

theorem scale_positive_witness:
  "(\<exists>z sh sc v. std_scaler (vec [2, 2, 7]) (vec [True, True, False]) (- 1) (1 / 1000000) =
        Inr (z, sh, sc) \<and>
      0 < elem sc [0] \<and> 1 / 1000000 \<le> elem sc [0] \<and> elem z [2] = Some v) \<and>
   (\<exists>z sh sc v. minmax_scaler (vec [2, 2, 7]) (vec [True, True, False]) (1 / 1000000) (- 1) =
        Inr (z, sh, sc) \<and>
      0 < elem sc [0] \<and> 1 / 1000000 \<le> elem sc [0] \<and> elem z [2] = Some v)"
proof -
  have bc: "broadcast_shapes (shape (vec [2, 2, 7 :: real])) (shape (vec [True, True, False])) =
      Inr (shape (vec [2, 2, 7 :: real]))"
    by (simp add: vec_def)
  have ax: "axis (- 1) (shape (vec [2, 2, 7 :: real])) 0"
    by (simp add: vec_def axis_def wrap_dim_def)
  have i: "valid_index (shape (vec [2, 2, 7 :: real])) [2]"
    by (simp add: vec_def valid_index_def)
  have hv: "has_valid (shape (vec [2, 2, 7 :: real])) (vec [True, True, False]) 0 [2]"
    by (simp add: vec_def has_valid_def expand_def bidx_def upt_rec [of 0])
  have e: "(0 :: real) \<le> 1 / 1000000" by simp
  from scale_positive [OF bc ax e i] hv show ?thesis by simp
qed

end
